(* ===== verification/Prelude.thy ===== *)
theory Prelude
  imports Main "HOL-Library.AList"
begin

text \<open>
  The ground layer of the development: what every component of the commander uses of the
  Go language and its standard library.  It holds the type of Go errors, computations that
  may panic, Go maps, the fixed-width arithmetic of \<^verbatim>\<open>int\<close>, and the functions of
  \<^verbatim>\<open>strconv\<close>, \<^verbatim>\<open>strings\<close> and \<^verbatim>\<open>fmt\<close> that the sources call, with
  the lemmas on them that the components share.

  A Go \<^verbatim>\<open>string\<close> and a Go \<^verbatim>\<open>[]byte\<close> are both sequences of bytes; both are
  modelled by \<^typ>\<open>string\<close>, a list of 8-bit characters.
\<close>

named_theorems go_monad \<open>unfolding rules of computations that may panic\<close>
named_theorems status_defs \<open>the numeric values of the job status constants\<close>

section \<open>Errors, results and panics\<close>

type_synonym bytes = string

text \<open>
  An \<^verbatim>\<open>error\<close> value.  \<open>ErrMsg\<close> is a fixed or formatted text, \<open>ErrWrap\<close> is
  \<^verbatim>\<open>fmt.Errorf("text: %w", err)\<close> (or \<open>%v\<close>), \<open>NumSyntax\<close> and \<open>NumRange\<close> are
  the two outcomes \<^verbatim>\<open>strconv.ErrSyntax\<close> and \<^verbatim>\<open>strconv.ErrRange\<close>, with the
  input, and \<open>ExtError\<close> is an error that some external service returned.
\<close>

datatype error =
    ErrMsg string
  | ErrWrap string error
  | NumSyntax string
  | NumRange string
  | ExtError string

type_synonym 'a result = "error + 'a"

text \<open>
  The outcome of a call: it returns a value, it panics, or it never returns because it waits
  for a lock or a channel that nobody will serve.  The state reached so far is kept in every
  case, since a recovered panic does not undo any write.
\<close>

datatype 'a go = Ret 'a | Panic string | Hang

type_synonym ('s, 'a) prog = "'s \<Rightarrow> 'a go \<times> 's"

definition retP :: "'a \<Rightarrow> ('s, 'a) prog" where
  "retP a s = (Ret a, s)"

definition panicP :: "string \<Rightarrow> ('s, 'a) prog" where
  "panicP e s = (Panic e, s)"

definition bindP :: "('s, 'a) prog \<Rightarrow> ('a \<Rightarrow> ('s, 'b) prog) \<Rightarrow> ('s, 'b) prog" where
  "bindP m f s =
     (case m s of (Ret a, t) \<Rightarrow> f a t | (Panic e, t) \<Rightarrow> (Panic e, t) | (Hang, t) \<Rightarrow> (Hang, t))"

definition seqP :: "('s, 'a) prog \<Rightarrow> ('s, 'b) prog \<Rightarrow> ('s, 'b) prog" where
  "seqP m k = bindP m (\<lambda>_. k)"

text \<open>A \<^verbatim>\<open>for ... range\<close> loop whose body may panic but never breaks.\<close>

fun forP :: "'a list \<Rightarrow> ('a \<Rightarrow> ('s, unit) prog) \<Rightarrow> ('s, unit) prog" where
  "forP [] body = retP ()"
| "forP (x # xs) body = seqP (body x) (forP xs body)"

lemma retP_apply [simp, go_monad]: "retP a s = (Ret a, s)"
  by (simp add: retP_def)

lemma panicP_apply [simp, go_monad]: "panicP e s = (Panic e, s)"
  by (simp add: panicP_def)

lemma bindP_Ret [simp]: "m s = (Ret a, t) \<Longrightarrow> bindP m f s = f a t"
  by (simp add: bindP_def)

lemma bindP_Panic [simp]: "m s = (Panic e, t) \<Longrightarrow> bindP m f s = (Panic e, t)"
  by (simp add: bindP_def)

lemma bindP_Hang [simp]: "m s = (Hang, t) \<Longrightarrow> bindP m f s = (Hang, t)"
  by (simp add: bindP_def)

lemma seqP_Hang [simp]: "m s = (Hang, t) \<Longrightarrow> seqP m k s = (Hang, t)"
  by (simp add: seqP_def)

lemma seqP_Ret [simp]: "m s = (Ret a, t) \<Longrightarrow> seqP m k s = k t"
  by (simp add: seqP_def)

lemma seqP_Panic [simp]: "m s = (Panic e, t) \<Longrightarrow> seqP m k s = (Panic e, t)"
  by (simp add: seqP_def)

lemma bindP_retP [simp]: "bindP (retP a) f = f a"
  by (rule ext) simp

lemma bindP_assoc: "bindP (bindP m f) g = bindP m (\<lambda>a. bindP (f a) g)"
  by (rule ext) (auto simp: bindP_def split: prod.splits go.splits)

text \<open>An invariant that every iteration keeps, whatever its outcome, is kept by the loop.\<close>

lemma forP_invariant:
  assumes "I s" and "\<And>x s. x \<in> set xs \<Longrightarrow> I s \<Longrightarrow> I (snd (body x s))"
  shows "I (snd (forP xs body s))"
  using assms
proof (induction xs arbitrary: s)
  case Nil
  then show ?case by simp
next
  case (Cons x xs)
  obtain r t where rt: "body x s = (r, t)" by fastforce
  with Cons.prems(1) Cons.prems(2) [of x s] have It: "I t" by simp
  show ?case
  proof (cases r)
    case (Ret u)
    with rt have "forP (x # xs) body s = forP xs body t" by simp
    then show ?thesis using Cons.IH [OF It] Cons.prems(2) by simp
  next
    case (Panic e)
    with rt It show ?thesis by simp
  next
    case Hang
    with rt It show ?thesis by simp
  qed
qed

section \<open>Go maps\<close>

text \<open>
  A Go map is an association list with distinct keys: \<open>map_of\<close> reads it (the two-value
  form \<^verbatim>\<open>v, ok := m[k]\<close>), \<open>AList.update\<close> writes it, \<open>length\<close> is
  \<^verbatim>\<open>len\<close>.  The order of the list stands for the unspecified order in which
  \<^verbatim>\<open>range\<close> visits the map.
\<close>

type_synonym ('k, 'v) gomap = "('k \<times> 'v) list"

abbreviation gm_get :: "('k, 'v) gomap \<Rightarrow> 'k \<Rightarrow> 'v option" where
  "gm_get m k \<equiv> map_of m k"

abbreviation gm_put :: "'k \<Rightarrow> 'v \<Rightarrow> ('k, 'v) gomap \<Rightarrow> ('k, 'v) gomap" where
  "gm_put k v m \<equiv> AList.update k v m"

text \<open>The one-value form \<^verbatim>\<open>m[k]\<close>: the zero value of the element type when absent.\<close>

definition gm_get0 :: "'v \<Rightarrow> ('k, 'v) gomap \<Rightarrow> 'k \<Rightarrow> 'v" where
  "gm_get0 z m k = (case map_of m k of None \<Rightarrow> z | Some v \<Rightarrow> v)"

definition gm_wf :: "('k, 'v) gomap \<Rightarrow> bool" where
  "gm_wf m \<longleftrightarrow> distinct (map fst m)"

lemma gm_wf_Nil [simp]: "gm_wf []"
  by (simp add: gm_wf_def)

lemma gm_wf_put [simp]: "gm_wf m \<Longrightarrow> gm_wf (gm_put k v m)"
  by (simp add: gm_wf_def distinct_update)

lemma gm_get_put [simp]: "gm_get (gm_put k v m) k' = (if k' = k then Some v else gm_get m k')"
  by (simp add: update_conv')

lemma gm_get0_put [simp]: "gm_get0 z (gm_put k v m) k' = (if k' = k then v else gm_get0 z m k')"
  by (simp add: gm_get0_def)

lemma gm_len_put: "length (gm_put k v m) = (if k \<in> fst ` set m then length m else Suc (length m))"
  by (induction m) auto

lemma gm_len_put_fresh [simp]: "gm_get m k = None \<Longrightarrow> length (gm_put k v m) = Suc (length m)"
  by (simp add: gm_len_put map_of_eq_None_iff)

lemma gm_in_set_iff: "gm_wf m \<Longrightarrow> (k, v) \<in> set m \<longleftrightarrow> gm_get m k = Some v"
  by (simp add: gm_wf_def)

section \<open>Fixed-width integers\<close>

text \<open>
  A Go \<^verbatim>\<open>int\<close> has 64 bits on the platforms the program is built for.  Its values are
  modelled by \<^typ>\<open>int\<close>; an operation that can leave the range is followed by the
  two's-complement wrap-around.
\<close>

definition wrap64 :: "int \<Rightarrow> int" where
  "wrap64 x = (x + 2 ^ 63) mod 2 ^ 64 - 2 ^ 63"

abbreviation max_int64 :: int where "max_int64 \<equiv> 2 ^ 63 - 1"

abbreviation max_int32 :: int where "max_int32 \<equiv> 2 ^ 31 - 1"

lemma wrap64_id: "- (2 ^ 63) \<le> x \<Longrightarrow> x \<le> max_int64 \<Longrightarrow> wrap64 x = x"
  by (simp add: wrap64_def)

lemma wrap64_range: "- (2 ^ 63) \<le> wrap64 x \<and> wrap64 x \<le> max_int64"
proof -
  have "0 \<le> (x + 2 ^ 63) mod 2 ^ 64" and "(x + 2 ^ 63) mod 2 ^ 64 < 2 ^ 64"
    by (rule pos_mod_sign, simp) (rule pos_mod_bound, simp)
  then show ?thesis unfolding wrap64_def by simp
qed

end
