(* ===== verification/Go_Strings.thy ===== *)
theory Go_Strings
  imports Prelude
begin

text \<open>
  The functions of Go's \<^verbatim>\<open>strconv\<close> and \<^verbatim>\<open>strings\<close> packages that the
  sources call: \<^verbatim>\<open>strconv.Itoa\<close> (also the verb \<open>%d\<close>),
  \<^verbatim>\<open>strconv.ParseInt(s, 10, bits)\<close>, \<^verbatim>\<open>strings.Split\<close> at a one-byte
  separator, \<^verbatim>\<open>strings.Join\<close>, \<^verbatim>\<open>strings.HasPrefix\<close> and
  \<^verbatim>\<open>strings.Replace(s, old, new, 1)\<close>.  The lemmas give the round trip between
  printing and parsing numbers, the range of a parsed number, and the cancellation laws that
  the key formats of the artifact stores rest on.
\<close>

section \<open>Decimal numbers\<close>

definition digit_char :: "nat \<Rightarrow> char" where
  "digit_char d = char_of (48 + d)"

definition is_digit :: "char \<Rightarrow> bool" where
  "is_digit c \<longleftrightarrow> 48 \<le> (of_char c :: nat) \<and> (of_char c :: nat) \<le> 57"

definition digit_val :: "char \<Rightarrow> nat" where
  "digit_val c = of_char c - 48"

fun digits10 :: "nat \<Rightarrow> string" where
  "digits10 n = (if n < 10 then [digit_char n] else digits10 (n div 10) @ [digit_char (n mod 10)])"

declare digits10.simps [simp del]

definition Itoa :: "int \<Rightarrow> string" where
  "Itoa i = (if i < 0 then CHR ''-'' # digits10 (nat (- i)) else digits10 (nat i))"

text \<open>
  The digit loop of \<^verbatim>\<open>strconv.ParseUint\<close>: a byte that is no digit is a syntax error,
  a value above the maximum of the width is a range error, whichever comes first.
\<close>

fun parse_uint_loop :: "string \<Rightarrow> nat \<Rightarrow> nat \<Rightarrow> string \<Rightarrow> nat result" where
  "parse_uint_loop s0 maxv n [] = Inr n"
| "parse_uint_loop s0 maxv n (c # cs) =
     (if \<not> is_digit c then Inl (NumSyntax s0)
      else if 10 * n + digit_val c > maxv then Inl (NumRange s0)
      else parse_uint_loop s0 maxv (10 * n + digit_val c) cs)"

definition parse_signed :: "nat \<Rightarrow> string \<Rightarrow> bool \<Rightarrow> string \<Rightarrow> int result" where
  "parse_signed bits s0 neg s =
     (if s = [] then Inl (NumSyntax s0)
      else case parse_uint_loop s0 (2 ^ bits - 1) 0 s of
        Inl e \<Rightarrow> Inl e
      | Inr un \<Rightarrow>
          if \<not> neg \<and> un \<ge> 2 ^ (bits - 1) then Inl (NumRange s0)
          else if neg \<and> un > 2 ^ (bits - 1) then Inl (NumRange s0)
          else Inr (if neg then - int un else int un))"

definition ParseInt :: "nat \<Rightarrow> string \<Rightarrow> int result" where
  "ParseInt bits s =
     (case s of
        [] \<Rightarrow> Inl (NumSyntax s)
      | c # cs \<Rightarrow>
          if c = CHR ''+'' then parse_signed bits s False cs
          else if c = CHR ''-'' then parse_signed bits s True cs
          else parse_signed bits s False s)"

definition Atoi :: "string \<Rightarrow> int result" where
  "Atoi s = ParseInt 64 s"

lemma of_char_digit_char: "d < 10 \<Longrightarrow> (of_char (digit_char d) :: nat) = 48 + d"
  by (simp add: digit_char_def)

lemma is_digit_digit_char [simp]: "d < 10 \<Longrightarrow> is_digit (digit_char d)"
  by (simp add: is_digit_def of_char_digit_char)

lemma digit_val_digit_char [simp]: "d < 10 \<Longrightarrow> digit_val (digit_char d) = d"
  by (simp add: digit_val_def of_char_digit_char)

lemma digits10_ne [simp]: "digits10 n \<noteq> []"
  by (subst digits10.simps) simp

lemma digits10_digits: "c \<in> set (digits10 n) \<Longrightarrow> is_digit c"
proof (induction n rule: digits10.induct)
  case (1 n)
  then show ?case
    by (cases "n < 10") (auto simp: digits10.simps [of n])
qed

lemma not_digit_chars [simp]:
  "\<not> is_digit CHR ''-''" "\<not> is_digit CHR ''+''" "\<not> is_digit CHR ''/''" "\<not> is_digit CHR '' ''"
  by (simp_all add: is_digit_def)

lemma digits10_no_minus [simp]: "CHR ''-'' \<notin> set (digits10 n)"
  using digits10_digits not_digit_chars(1) by blast

lemma parse_uint_loop_append:
  "parse_uint_loop s0 m n (xs @ ys) =
     (case parse_uint_loop s0 m n xs of Inl e \<Rightarrow> Inl e | Inr k \<Rightarrow> parse_uint_loop s0 m k ys)"
  by (induction xs arbitrary: n) auto

lemma parse_uint_loop_digits10: "n \<le> m \<Longrightarrow> parse_uint_loop s0 m 0 (digits10 n) = Inr n"
proof (induction n rule: digits10.induct)
  case (1 n)
  show ?case
  proof (cases "n < 10")
    case True
    with "1.prems" show ?thesis by (simp add: digits10.simps [of n])
  next
    case False
    with "1.prems" "1.IH" have "parse_uint_loop s0 m 0 (digits10 (n div 10)) = Inr (n div 10)"
      by simp
    with False "1.prems" show ?thesis
      by (simp add: digits10.simps [of n] parse_uint_loop_append)
  qed
qed

lemma digits10_hd: "digits10 n \<noteq> [] \<and> is_digit (hd (digits10 n))"
  using digits10_digits [of "hd (digits10 n)" n] by simp

text \<open>Printing a number and parsing it at any width that can hold it gives it back.\<close>

lemma ParseInt_Itoa:
  assumes "0 < bits" and "- (2 ^ (bits - 1)) \<le> i" and "i < 2 ^ (bits - 1)"
  shows "ParseInt bits (Itoa i) = Inr i"
proof -
  have pow: "(2::nat) ^ (bits - 1) \<le> 2 ^ bits - 1"
    using assms(1) by (cases bits) auto
  show ?thesis
  proof (cases "i < 0")
    case True
    with assms(2) have le: "nat (- i) \<le> 2 ^ (bits - 1)"
      by (simp add: nat_le_iff)
    then have "nat (- i) \<le> 2 ^ bits - 1" using pow by linarith
    then have "parse_uint_loop s (2 ^ bits - 1) 0 (digits10 (nat (- i))) = Inr (nat (- i))" for s
      by (rule parse_uint_loop_digits10)
    with True le show ?thesis
      by (simp add: Itoa_def ParseInt_def parse_signed_def)
  next
    case False
    with assms(3) have lt: "nat i < 2 ^ (bits - 1)" by (simp add: nat_less_iff)
    then have "nat i \<le> 2 ^ bits - 1" using pow by linarith
    then have p: "parse_uint_loop s (2 ^ bits - 1) 0 (digits10 (nat i)) = Inr (nat i)" for s
      by (rule parse_uint_loop_digits10)
    obtain c cs where d: "digits10 (nat i) = c # cs" and c: "is_digit c"
      using digits10_hd [of "nat i"] by (cases "digits10 (nat i)") auto
    from c have "c \<noteq> CHR ''+''" "c \<noteq> CHR ''-''" using not_digit_chars by blast+
    with False lt p d show ?thesis
      by (simp add: Itoa_def ParseInt_def parse_signed_def)
  qed
qed

lemma parse_signed_range:
  assumes "parse_signed bits s0 neg s = Inr i"
  shows "- (2 ^ (bits - 1)) \<le> i \<and> i < 2 ^ (bits - 1)"
proof -
  define P :: nat where "P = 2 ^ (bits - 1)"
  have P: "0 < P" "(2 :: int) ^ (bits - 1) = int P" by (simp_all add: P_def)
  from assms obtain un where "neg \<longrightarrow> un \<le> P" "\<not> neg \<longrightarrow> un < P"
    and i: "i = (if neg then - int un else int un)"
    by (auto simp: parse_signed_def P_def split: if_splits sum.splits)
  with P(1) have "- int P \<le> i \<and> i < int P" by (cases neg) simp_all
  then show ?thesis by (simp only: P(2))
qed

lemma ParseInt_range:
  "ParseInt bits s = Inr i \<Longrightarrow> - (2 ^ (bits - 1)) \<le> i \<and> i < 2 ^ (bits - 1)"
  by (auto simp: ParseInt_def split: list.splits if_splits dest: parse_signed_range)

lemma digits10_inject: "digits10 m = digits10 n \<Longrightarrow> m = n"
proof -
  assume eq: "digits10 m = digits10 n"
  have "parse_uint_loop [] (max m n) 0 (digits10 m) = Inr m"
    by (rule parse_uint_loop_digits10) simp
  moreover have "parse_uint_loop [] (max m n) 0 (digits10 n) = Inr n"
    by (rule parse_uint_loop_digits10) simp
  ultimately show ?thesis using eq by (metis sum.inject(2))
qed

section \<open>Cutting at a separator\<close>

lemma append_sep_cancel:
  "c \<notin> set xs \<Longrightarrow> c \<notin> set ys \<Longrightarrow> xs @ c # r = ys @ c # r' \<longleftrightarrow> xs = ys \<and> r = r'"
proof (induction xs arbitrary: ys)
  case Nil
  then show ?case by (cases ys) auto
next
  case (Cons x xs)
  then show ?case by (cases ys) auto
qed

text \<open>A printed number can be cut off in front of a dash.\<close>

lemma digits10_hd_append [simp]: "digits10 n @ t \<noteq> CHR ''-'' # u"
proof
  assume "digits10 n @ t = CHR ''-'' # u"
  then have "hd (digits10 n) = CHR ''-''" by (cases "digits10 n") auto
  then show False using digits10_hd [of n] by simp
qed

lemma Itoa_dash_cancel:
  "Itoa i @ CHR ''-'' # r = Itoa j @ CHR ''-'' # r' \<longleftrightarrow> i = j \<and> r = r'"
proof
  assume eq: "Itoa i @ CHR ''-'' # r = Itoa j @ CHR ''-'' # r'"
  have cut: "digits10 m @ CHR ''-'' # r = digits10 n @ CHR ''-'' # r' \<Longrightarrow> m = n \<and> r = r'" for m n
    using append_sep_cancel [OF digits10_no_minus digits10_no_minus] digits10_inject by blast
  show "i = j \<and> r = r'"
  proof (cases "i < 0"; cases "j < 0")
    assume "i < 0" "j < 0"
    then show ?thesis using eq cut [of "nat (- i)" "nat (- j)"]
      by (auto simp: Itoa_def eq_nat_nat_iff)
  next
    assume "i < 0" "\<not> j < 0"
    then show ?thesis using eq digits10_hd_append [of "nat j", symmetric] by (simp add: Itoa_def)
  next
    assume "\<not> i < 0" "j < 0"
    then show ?thesis using eq digits10_hd_append [of "nat i"] by (simp add: Itoa_def)
  next
    assume "\<not> i < 0" "\<not> j < 0"
    then show ?thesis using eq cut [of "nat i" "nat j"]
      by (auto simp: Itoa_def eq_nat_nat_iff)
  qed
qed simp

lemma Itoa_inject: "Itoa i = Itoa j \<longleftrightarrow> i = j"
  using Itoa_dash_cancel [of i "[]" j "[]"] by auto

fun split_on :: "char \<Rightarrow> string \<Rightarrow> string list" where
  "split_on sep [] = [[]]"
| "split_on sep (x # xs) =
     (if x = sep then [] # split_on sep xs
      else case split_on sep xs of [] \<Rightarrow> [[x]] | p # ps \<Rightarrow> (x # p) # ps)"

fun join_with :: "string \<Rightarrow> string list \<Rightarrow> string" where
  "join_with sep [] = []"
| "join_with sep [p] = p"
| "join_with sep (p # q # ps) = p @ sep @ join_with sep (q # ps)"

lemma split_on_ne [simp]: "split_on c s \<noteq> []"
  by (induction s) (auto split: list.splits)

lemma join_split: "join_with [c] (split_on c s) = s"
proof (induction s)
  case Nil
  then show ?case by simp
next
  case (Cons x xs)
  obtain p ps where ps: "split_on c xs = p # ps"
    by (cases "split_on c xs") auto
  with Cons show ?case by (cases ps) auto
qed

lemma split_on_no_sep: "c \<notin> set s \<Longrightarrow> split_on c s = [s]"
  by (induction s) auto

lemma split_on_append_sep: "c \<notin> set a \<Longrightarrow> split_on c (a @ c # b) = a # split_on c b"
  by (induction a) auto

lemma split_on_parts: "p \<in> set (split_on c s) \<Longrightarrow> c \<notin> set p"
  by (induction s arbitrary: p) (fastforce split: list.splits if_splits)+

lemma length_split_on: "length (split_on c s) = Suc (count_list s c)"
  by (induction s) (auto split: list.splits)

section \<open>Prefixes and replacement\<close>

definition HasPrefix :: "string \<Rightarrow> string \<Rightarrow> bool" where
  "HasPrefix s p \<longleftrightarrow> take (length p) s = p"

fun replace_first :: "string \<Rightarrow> string \<Rightarrow> string \<Rightarrow> string" where
  "replace_first old new s =
     (if HasPrefix s old then new @ drop (length old) s
      else case s of [] \<Rightarrow> [] | c # cs \<Rightarrow> c # replace_first old new cs)"

declare replace_first.simps [simp del]

lemma HasPrefix_iff: "HasPrefix s p \<longleftrightarrow> (\<exists>r. s = p @ r)"
proof
  assume "HasPrefix s p"
  then have "s = p @ drop (length p) s"
    unfolding HasPrefix_def by (metis append_take_drop_id)
  then show "\<exists>r. s = p @ r" by blast
qed (auto simp: HasPrefix_def)

end
