(* ===== verification/Filesystem.thy ===== *)
theory Filesystem
  imports Go_Strings
begin

text \<open>
  The file system as the program uses it: lexical path handling (\<^verbatim>\<open>filepath.Clean\<close>,
  \<^verbatim>\<open>filepath.Join\<close>, \<^verbatim>\<open>filepath.Dir\<close> for Unix paths) and the calls of package
  \<^verbatim>\<open>os\<close> on a tree of files and directories.  Every call may fail for a reason outside
  the program (permissions, a full disk); the environment \<open>os_fault\<close> decides which.
\<close>

section \<open>Paths\<close>

definition rooted :: "string \<Rightarrow> bool" where
  "rooted p \<longleftrightarrow> (case p of [] \<Rightarrow> False | c # _ \<Rightarrow> c = CHR ''/'')"

text \<open>The components that remain, newest first.\<close>

fun clean_comps :: "bool \<Rightarrow> string list \<Rightarrow> string list \<Rightarrow> string list" where
  "clean_comps r acc [] = rev acc"
| "clean_comps r acc (c # cs) =
     (if c = [] \<or> c = ''.'' then clean_comps r acc cs
      else if c = ''..'' then
        (case acc of
           [] \<Rightarrow> clean_comps r (if r then [] else [''..'']) cs
         | a # as \<Rightarrow> if a = ''..'' then clean_comps r (''..'' # acc) cs else clean_comps r as cs)
      else clean_comps r (c # acc) cs)"

definition path_comps :: "string \<Rightarrow> string list" where
  "path_comps p = clean_comps (rooted p) [] (split_on CHR ''/'' p)"

definition path_of :: "bool \<Rightarrow> string list \<Rightarrow> string" where
  "path_of r cs =
     (if r then CHR ''/'' # join_with ''/'' cs else if cs = [] then ''.'' else join_with ''/'' cs)"

definition Clean :: "string \<Rightarrow> string" where
  "Clean p = path_of (rooted p) (path_comps p)"

fun Join :: "string list \<Rightarrow> string" where
  "Join [] = []"
| "Join (e # es) = (if e = [] then Join es else Clean (join_with ''/'' (e # es)))"

definition Dir :: "string \<Rightarrow> string" where
  "Dir p = Clean (rev (dropWhile (\<lambda>c. c \<noteq> CHR ''/'') (rev p)))"

text \<open>
  What is left of a path after cleaning: proper names, preceded by \<^verbatim>\<open>..\<close> only in a path
  that does not start at the root.
\<close>

definition proper :: "string \<Rightarrow> bool" where
  "proper c \<longleftrightarrow> c \<noteq> [] \<and> c \<noteq> ''.'' \<and> c \<noteq> ''..'' \<and> CHR ''/'' \<notin> set c"

abbreviation dots :: string where "dots \<equiv> ''..''"

fun normal_comps :: "bool \<Rightarrow> string list \<Rightarrow> bool" where
  "normal_comps r [] = True"
| "normal_comps r (c # cs) =
     (if c = dots then \<not> r \<and> normal_comps r cs else proper c \<and> list_all proper cs)"

lemma not_proper_dots [simp]: "\<not> proper dots"
  by (simp add: proper_def)

lemma normal_append:
  "normal_comps r (as @ bs) \<longleftrightarrow>
     normal_comps r as \<and> (if list_all (\<lambda>c. c = dots) as then normal_comps r bs else list_all proper bs)"
  by (induction as) auto

lemma normal_proper: "list_all proper cs \<Longrightarrow> normal_comps r cs"
  by (cases cs) auto

lemma normal_rooted: "normal_comps True cs \<longleftrightarrow> list_all proper cs"
  by (cases cs) auto

lemma normal_pop: "normal_comps r (rev (a # as)) \<Longrightarrow> normal_comps r (rev as)"
  by (simp add: normal_append)

lemma normal_push:
  "normal_comps r (rev acc) \<Longrightarrow> proper c \<Longrightarrow> normal_comps r (rev (c # acc))"
  by (auto simp: normal_append)

lemma normal_push_dots:
  assumes "normal_comps r (rev (dots # as))"
  shows "normal_comps r (rev (dots # dots # as))"
proof -
  have "list_all (\<lambda>c. c = dots) (rev as)" "\<not> r"
    using assms by (auto simp: normal_append simp del: list_all_rev split: if_splits)
  with assms show ?thesis by (simp add: normal_append)
qed

lemma normal_clean_comps:
  "normal_comps r (rev acc) \<Longrightarrow> \<forall>c \<in> set cs. CHR ''/'' \<notin> set c \<Longrightarrow> normal_comps r (clean_comps r acc cs)"
proof (induction cs arbitrary: acc)
  case Nil
  then show ?case by simp
next
  case (Cons c cs)
  have tail: "\<forall>c \<in> set cs. CHR ''/'' \<notin> set c" using Cons.prems(2) by simp
  note IH = Cons.IH [OF _ tail]
  consider (skip) "c = [] \<or> c = ''.''" | (up) "c = dots" | (name) "proper c" "c \<noteq> dots"
    using Cons.prems(2) by (auto simp: proper_def)
  then show ?case
  proof cases
    case skip
    then show ?thesis using IH Cons.prems(1) by auto
  next
    case up
    then show ?thesis
      using IH [of "if r then [] else [dots]"] IH [OF normal_pop] IH [OF normal_push_dots] Cons.prems(1)
      by (cases acc) auto
  next
    case name
    then show ?thesis using IH [OF normal_push [OF Cons.prems(1) name(1)]] by (auto simp: proper_def)
  qed
qed

lemma clean_comps_normal: "normal_comps r (rev acc @ cs) \<Longrightarrow> clean_comps r acc cs = rev acc @ cs"
proof (induction cs arbitrary: acc)
  case Nil
  then show ?case by simp
next
  case (Cons c cs)
  from Cons.IH [of "c # acc"] Cons.prems have IH: "clean_comps r (c # acc) cs = rev acc @ c # cs" by simp
  show ?case
  proof (cases "c = dots")
    case True
    then have "list_all (\<lambda>c. c = dots) (rev acc)" "\<not> r"
      using Cons.prems by (auto simp: normal_append simp del: list_all_rev split: if_splits)
    with True IH show ?thesis by (cases acc) auto
  next
    case False
    then have "proper c" using Cons.prems by (auto simp: normal_append split: if_splits)
    with False IH show ?thesis by (auto simp: proper_def)
  qed
qed

lemma normal_path_comps: "normal_comps (rooted p) (path_comps p)"
  unfolding path_comps_def by (rule normal_clean_comps) (auto dest: split_on_parts)

lemma normal_no_slash: "normal_comps r cs \<Longrightarrow> c \<in> set cs \<Longrightarrow> CHR ''/'' \<notin> set c \<and> c \<noteq> []"
  by (induction cs) (auto simp: proper_def list_all_iff split: if_splits)

lemma split_join: "cs \<noteq> [] \<Longrightarrow> \<forall>c \<in> set cs. x \<notin> set c \<Longrightarrow> split_on x (join_with [x] cs) = cs"
proof (induction "[x]" cs rule: join_with.induct)
  case 1
  then show ?case by simp
next
  case (2 p)
  then show ?case by (simp add: split_on_no_sep)
next
  case (3 p q ps)
  then show ?case by (simp add: split_on_append_sep)
qed

lemma split_on_append: "split_on x (a @ x # b) = split_on x a @ split_on x b"
  by (induction a) (auto split: list.splits)

lemma rooted_join: "cs \<noteq> [] \<Longrightarrow> normal_comps r cs \<Longrightarrow> \<not> rooted (join_with ''/'' cs)"
proof -
  assume "cs \<noteq> []" "normal_comps r cs"
  then obtain c ds where cs: "cs = c # ds" and "CHR ''/'' \<notin> set c" "c \<noteq> []"
    using normal_no_slash by (cases cs) auto
  then obtain x y where "c = x # y" "x \<noteq> CHR ''/''" by (cases c) auto
  with cs show ?thesis by (cases ds) (simp_all add: rooted_def)
qed

lemma path_of_comps:
  assumes "normal_comps r cs"
  shows "rooted (path_of r cs) = r" and "path_comps (path_of r cs) = cs"
proof -
  have split: "cs \<noteq> [] \<Longrightarrow> split_on CHR ''/'' (join_with ''/'' cs) = cs"
    by (rule split_join) (use assms normal_no_slash in blast)+
  show 1: "rooted (path_of r cs) = r"
    using rooted_join [OF _ assms] by (auto simp: path_of_def rooted_def)
  have "clean_comps r [] cs = cs" using clean_comps_normal [of r "[]" cs] assms by simp
  then show "path_comps (path_of r cs) = cs"
    unfolding path_comps_def 1 by (cases "cs = []") (auto simp: path_of_def split)
qed

lemma Clean_comps [simp]: "rooted (Clean p) = rooted p" "path_comps (Clean p) = path_comps p"
  unfolding Clean_def using path_of_comps [OF normal_path_comps] by simp_all

lemma Clean_Clean [simp]: "Clean (Clean p) = Clean p"
  by (simp add: Clean_def [of "Clean p"]) (simp add: Clean_def)

lemma Join_Clean: "e \<noteq> [] \<Longrightarrow> Clean (Join (e # es)) = Join (e # es)"
  by simp

text \<open>
  A path is inside a directory when its components continue those of the directory by proper
  names.  The textual test on the cleaned paths decides this for every absolute directory
  other than the root.
\<close>

definition inside :: "string \<Rightarrow> string \<Rightarrow> bool" where
  "inside d p \<longleftrightarrow> rooted p = rooted d \<and> length (path_comps d) < length (path_comps p) \<and>
     take (length (path_comps d)) (path_comps p) = path_comps d \<and>
     list_all proper (drop (length (path_comps d)) (path_comps p))"

lemma inside_iff:
  "inside d p \<longleftrightarrow> rooted p = rooted d \<and> (\<exists>rest. rest \<noteq> [] \<and> path_comps p = path_comps d @ rest \<and> list_all proper rest)"
  unfolding inside_def
proof (intro iffI conjI; (elim conjE exE)?)
  assume "length (path_comps d) < length (path_comps p)"
    "take (length (path_comps d)) (path_comps p) = path_comps d"
    "list_all proper (drop (length (path_comps d)) (path_comps p))"
  then show "\<exists>rest. rest \<noteq> [] \<and> path_comps p = path_comps d @ rest \<and> list_all proper rest"
    by (intro exI [of _ "drop (length (path_comps d)) (path_comps p)"]) (simp, metis append_take_drop_id)
qed simp_all

lemma HasPrefix_inside:
  assumes "rooted d" and "path_comps d \<noteq> []" and "HasPrefix (Clean p) (Clean d @ ''/'')"
  shows "inside d p"
proof -
  obtain r where r: "Clean p = Clean d @ ''/'' @ r" using assms(3) by (auto simp: HasPrefix_iff)
  then have "rooted (Clean p)" using assms(1) by (simp add: Clean_def path_of_def rooted_def)
  then have root: "rooted p" by simp
  let ?d = "path_comps d" and ?p = "path_comps p"
  have nd: "normal_comps True ?d" and np: "normal_comps True ?p"
    using normal_path_comps [of d] normal_path_comps [of p] assms(1) root by simp_all
  have eq: "join_with ''/'' ?p = join_with ''/'' ?d @ ''/'' @ r"
    using r root assms(1) by (simp add: Clean_def path_of_def)
  then have "?p \<noteq> []" by auto
  then have "?p = split_on CHR ''/'' (join_with ''/'' ?p)"
    using split_join [of ?p "CHR ''/''"] normal_no_slash [OF np] by simp
  also have "\<dots> = split_on CHR ''/'' (join_with ''/'' ?d) @ split_on CHR ''/'' r"
    unfolding eq by (simp add: split_on_append)
  also have "split_on CHR ''/'' (join_with ''/'' ?d) = ?d"
    using split_join [of ?d "CHR ''/''"] normal_no_slash [OF nd] assms(2) by simp
  finally have "?p = ?d @ split_on CHR ''/'' r" .
  moreover from this have "list_all proper (split_on CHR ''/'' r)"
    using np by (metis list_all_append normal_rooted)
  ultimately show ?thesis
    unfolding inside_iff using root assms(1) by (metis split_on_ne)
qed

lemma clean_comps_skip: "clean_comps r acc (cs @ [[]]) = clean_comps r acc cs"
  by (induction cs arbitrary: acc) (auto split: list.split)

lemma path_comps_slash: "p \<noteq> [] \<Longrightarrow> path_comps (p @ ''/'') = path_comps p"
proof -
  assume "p \<noteq> []"
  then have "rooted (p @ ''/'') = rooted p" by (cases p) (simp_all add: rooted_def)
  moreover have "split_on CHR ''/'' (p @ ''/'') = split_on CHR ''/'' p @ [[]]"
    by (simp add: split_on_append)
  ultimately show ?thesis by (simp add: path_comps_def clean_comps_skip)
qed

lemma join_snoc: "join_with sep (bs @ [b]) = (if bs = [] then b else join_with sep bs @ sep @ b)"
proof (induction bs)
  case Nil
  then show ?case by simp
next
  case (Cons c cs)
  then show ?case by (cases cs) auto
qed

lemma Dir_path_of:
  assumes "normal_comps True (bs @ [b])"
  shows "Dir (path_of True (bs @ [b])) = path_of True bs"
proof -
  have b: "CHR ''/'' \<notin> set b" and bs: "normal_comps True bs"
    using assms normal_no_slash [OF assms, of b] by (simp_all add: normal_append)
  have drop: "rev (dropWhile (\<lambda>c. c \<noteq> CHR ''/'') (rev (x @ CHR ''/'' # b))) = x @ ''/''" for x
  proof -
    have "dropWhile (\<lambda>c. c \<noteq> CHR ''/'') (rev b @ ys) = dropWhile (\<lambda>c. c \<noteq> CHR ''/'') ys" for ys
      by (rule dropWhile_append2) (use b in auto)
    then show ?thesis by simp
  qed
  have "Clean (path_of True bs @ ''/'') = path_of True bs"
    using path_comps_slash [of "path_of True bs"] path_of_comps [OF bs]
    by (simp add: Clean_def) (simp add: path_of_def rooted_def)
  moreover have "Clean ''/'' = path_of True []"
    by (simp add: Clean_def path_comps_def rooted_def)
  ultimately show ?thesis
    using drop [of "[]"] drop [of "path_of True bs"] path_of_comps [OF bs]
    by (auto simp: Dir_def path_of_def join_snoc)
qed

section \<open>Files and directories\<close>

record fs =
  fs_files :: "(string, bytes) gomap"
  fs_dirs :: "string list"
  fs_clock :: nat

record os_env =
  os_fault :: "nat \<Rightarrow> error option"

definition os_call :: "os_env \<Rightarrow> (fs, 'a result) prog \<Rightarrow> (fs, 'a result) prog" where
  "os_call E op s =
     (let s' = s\<lparr>fs_clock := Suc (fs_clock s)\<rparr> in
      case os_fault E (fs_clock s) of Some err \<Rightarrow> (Ret (Inl err), s') | None \<Rightarrow> op s')"

definition not_exist :: error where
  "not_exist = ErrMsg ''no such file or directory''"

definition dir_exists :: "fs \<Rightarrow> string \<Rightarrow> bool" where
  "dir_exists s d \<longleftrightarrow> d = ''/'' \<or> d = ''.'' \<or> d \<in> set (fs_dirs s)"

text \<open>A directory and the directories above it.\<close>

definition dir_chain :: "string \<Rightarrow> string list" where
  "dir_chain p = map (\<lambda>k. path_of (rooted p) (take (Suc k) (path_comps p))) [0..<length (path_comps p)]"

definition os_MkdirAll :: "os_env \<Rightarrow> string \<Rightarrow> (fs, unit result) prog" where
  "os_MkdirAll E p = os_call E (\<lambda>s.
     if \<exists>q \<in> set (dir_chain p). gm_get (fs_files s) q \<noteq> None then (Ret (Inl (ErrMsg ''not a directory'')), s)
     else (Ret (Inr ()), s\<lparr>fs_dirs := fs_dirs s @ dir_chain p\<rparr>))"

definition os_Mkdir :: "os_env \<Rightarrow> string \<Rightarrow> (fs, unit result) prog" where
  "os_Mkdir E p = os_call E (\<lambda>s.
     if dir_exists s (Clean p) \<or> gm_get (fs_files s) (Clean p) \<noteq> None then (Ret (Inl (ErrMsg ''file exists'')), s)
     else if \<not> dir_exists s (Dir (Clean p)) then (Ret (Inl not_exist), s)
     else (Ret (Inr ()), s\<lparr>fs_dirs := fs_dirs s @ [Clean p]\<rparr>))"

text \<open>Creating or truncating a file and writing to it; \<open>failed\<close> is a failure after that.\<close>

definition os_WriteData :: "os_env \<Rightarrow> string \<Rightarrow> bytes \<Rightarrow> error option \<Rightarrow> (fs, unit result) prog" where
  "os_WriteData E p data failed = os_call E (\<lambda>s.
     if dir_exists s (Clean p) then (Ret (Inl (ErrMsg ''is a directory'')), s)
     else if \<not> dir_exists s (Dir (Clean p)) then (Ret (Inl not_exist), s)
     else (Ret (case failed of Some err \<Rightarrow> Inl err | None \<Rightarrow> Inr ()),
           s\<lparr>fs_files := gm_put (Clean p) data (fs_files s)\<rparr>))"

definition os_WriteFile :: "os_env \<Rightarrow> string \<Rightarrow> bytes \<Rightarrow> (fs, unit result) prog" where
  "os_WriteFile E p data = os_WriteData E p data None"

definition os_ReadFile :: "os_env \<Rightarrow> string \<Rightarrow> (fs, bytes result) prog" where
  "os_ReadFile E p = os_call E (\<lambda>s.
     case gm_get (fs_files s) (Clean p) of None \<Rightarrow> (Ret (Inl not_exist), s) | Some d \<Rightarrow> (Ret (Inr d), s))"

text \<open>\<^verbatim>\<open>os.Stat\<close>, of which the callers look at the error only.\<close>

definition os_Stat :: "os_env \<Rightarrow> string \<Rightarrow> (fs, unit result) prog" where
  "os_Stat E p = os_call E (\<lambda>s.
     if gm_get (fs_files s) (Clean p) \<noteq> None \<or> dir_exists s (Clean p) then (Ret (Inr ()), s)
     else (Ret (Inl not_exist), s))"

definition os_present :: "fs \<Rightarrow> string \<Rightarrow> bool" where
  "os_present s p \<longleftrightarrow> gm_get (fs_files s) (Clean p) \<noteq> None \<or> dir_exists s (Clean p)"

definition os_RemoveAll :: "os_env \<Rightarrow> string \<Rightarrow> (fs, unit result) prog" where
  "os_RemoveAll E p = os_call E (\<lambda>s.
     let gone = (\<lambda>q. q = Clean p \<or> HasPrefix q (Clean p @ ''/'')) in
     (Ret (Inr ()), s\<lparr>fs_files := filter (\<lambda>(q, d). \<not> gone q) (fs_files s),
                     fs_dirs := filter (\<lambda>q. \<not> gone q) (fs_dirs s)\<rparr>))"

lemmas os_defs =
  os_call_def os_MkdirAll_def os_Mkdir_def os_WriteData_def os_WriteFile_def os_ReadFile_def os_Stat_def
  os_RemoveAll_def

end
