(* ===== verification/Base64.thy ===== *)
theory Base64
  imports Go_Strings
begin

text \<open>
  Go's \<^verbatim>\<open>encoding/base64\<close> in the two variants the sources use,
  \<^verbatim>\<open>StdEncoding\<close> and \<^verbatim>\<open>URLEncoding\<close>: padded, not strict about the unused
  bits of the last digit, and decoding skips line breaks.  Decoding an encoded text gives the
  bytes back.
\<close>

datatype alphabet = StdEncoding | URLEncoding

definition b64_char :: "alphabet \<Rightarrow> nat \<Rightarrow> char" where
  "b64_char alph n =
     (if n < 26 then char_of (65 + n)
      else if n < 52 then char_of (71 + n)
      else if n < 62 then char_of (n - 4)
      else if n = 62 then (case alph of StdEncoding \<Rightarrow> CHR ''+'' | URLEncoding \<Rightarrow> CHR ''-'')
      else (case alph of StdEncoding \<Rightarrow> CHR ''/'' | URLEncoding \<Rightarrow> CHR ''_''))"

definition b64_val :: "alphabet \<Rightarrow> char \<Rightarrow> nat option" where
  "b64_val alph c =
     (let b = of_char c :: nat in
      if 65 \<le> b \<and> b \<le> 90 then Some (b - 65)
      else if 97 \<le> b \<and> b \<le> 122 then Some (b - 71)
      else if 48 \<le> b \<and> b \<le> 57 then Some (b + 4)
      else if c = (case alph of StdEncoding \<Rightarrow> CHR ''+'' | URLEncoding \<Rightarrow> CHR ''-'') then Some 62
      else if c = (case alph of StdEncoding \<Rightarrow> CHR ''/'' | URLEncoding \<Rightarrow> CHR ''_'') then Some 63
      else None)"

fun b64_encode :: "alphabet \<Rightarrow> bytes \<Rightarrow> string" where
  "b64_encode alph [] = []"
| "b64_encode alph [a] =
     (let x = of_char a :: nat in
      [b64_char alph (x div 4), b64_char alph (x mod 4 * 16), CHR ''='', CHR ''=''])"
| "b64_encode alph [a, b] =
     (let x = of_char a :: nat; y = of_char b :: nat in
      [b64_char alph (x div 4), b64_char alph (x mod 4 * 16 + y div 16),
       b64_char alph (y mod 16 * 4), CHR ''=''])"
| "b64_encode alph (a # b # c # r) =
     (let x = of_char a :: nat; y = of_char b :: nat; z = of_char c :: nat in
      [b64_char alph (x div 4), b64_char alph (x mod 4 * 16 + y div 16),
       b64_char alph (y mod 16 * 4 + z div 64), b64_char alph (z mod 64)] @ b64_encode alph r)"

fun b64_groups :: "alphabet \<Rightarrow> string \<Rightarrow> bytes option" where
  "b64_groups alph [] = Some []"
| "b64_groups alph (a # b # c # d # r) =
     (case (b64_val alph a, b64_val alph b) of
        (Some x, Some y) \<Rightarrow>
          (let c0 = char_of (x * 4 + y div 16) in
           case b64_val alph c of
             None \<Rightarrow> if c = CHR ''='' \<and> d = CHR ''='' \<and> r = [] then Some [c0] else None
           | Some z \<Rightarrow>
               (let c1 = char_of (y mod 16 * 16 + z div 4) in
                case b64_val alph d of
                  None \<Rightarrow> if d = CHR ''='' \<and> r = [] then Some [c0, c1] else None
                | Some w \<Rightarrow>
                    map_option (\<lambda>s. c0 # c1 # char_of (z mod 4 * 64 + w) # s) (b64_groups alph r)))
      | _ \<Rightarrow> None)"
| "b64_groups alph _ = None"

definition b64_decode :: "alphabet \<Rightarrow> string \<Rightarrow> bytes result" where
  "b64_decode alph s =
     (case b64_groups alph (filter (\<lambda>c. c \<noteq> CHR 0x0A \<and> c \<noteq> CHR 0x0D) s) of
        None \<Rightarrow> Inl (ErrMsg ''illegal base64 data'')
      | Some d \<Rightarrow> Inr d)"

lemma b64_val_char [simp]: "n < 64 \<Longrightarrow> b64_val alph (b64_char alph n) = Some n"
  by (cases alph) (auto simp: b64_val_def b64_char_def Let_def)

lemma b64_val_pad [simp]: "b64_val alph CHR ''='' = None"
  by (cases alph) (simp_all add: b64_val_def)

lemma b64_val_newline [simp]: "b64_val alph CHR 0x0A = None" "b64_val alph CHR 0x0D = None"
  by (cases alph; simp add: b64_val_def)+

lemma b64_char_not_newline: "n < 64 \<Longrightarrow> b64_char alph n \<noteq> CHR 0x0A \<and> b64_char alph n \<noteq> CHR 0x0D"
  by (metis b64_val_char b64_val_newline option.distinct(1))

lemma of_char_lt_256: "(of_char c :: nat) < 256"
  by (simp add: of_char_def)

text \<open>The bit fields of three bytes, cut into four digits and put together again.\<close>

lemma sextets:
  fixes x y z :: nat
  assumes "x < 256" and "y < 256" and "z < 256"
  shows "x div 4 < 64" "x mod 4 * 16 + y div 16 < 64" "y mod 16 * 4 + z div 64 < 64" "z mod 64 < 64"
    "x mod 4 * 16 < 64" "y mod 16 * 4 < 64"
    "x div 4 * 4 + (x mod 4 * 16 + y div 16) div 16 = x"
    "(x mod 4 * 16 + y div 16) mod 16 * 16 + (y mod 16 * 4 + z div 64) div 4 = y"
    "(y mod 16 * 4 + z div 64) mod 4 * 64 + z mod 64 = z"
    "(x mod 4 * 16 + y div 16) mod 16 * 16 + (y mod 16 * 4) div 4 = y"
    "x div 4 * 4 + (x mod 4 * 16) div 16 = x"
proof -
  have y: "y div 16 < 16" and z: "z div 64 < 4" using assms by auto
  show "x div 4 < 64" "x mod 4 * 16 + y div 16 < 64" "y mod 16 * 4 + z div 64 < 64" "z mod 64 < 64"
    "x mod 4 * 16 < 64" "y mod 16 * 4 < 64"
    using assms by auto
  have x1: "(x mod 4 * 16 + y div 16) div 16 = x mod 4" using y by simp
  have x2: "(x mod 4 * 16 + y div 16) mod 16 = y div 16" using y by simp
  have y1: "(y mod 16 * 4 + z div 64) div 4 = y mod 16" using z by simp
  have y2: "(y mod 16 * 4 + z div 64) mod 4 = z div 64" using z by simp
  show "x div 4 * 4 + (x mod 4 * 16 + y div 16) div 16 = x"
    by (simp only: x1 div_mult_mod_eq)
  show "(x mod 4 * 16 + y div 16) mod 16 * 16 + (y mod 16 * 4 + z div 64) div 4 = y"
    by (simp only: x2 y1 div_mult_mod_eq)
  show "(y mod 16 * 4 + z div 64) mod 4 * 64 + z mod 64 = z"
    by (simp only: y2 div_mult_mod_eq)
  show "(x mod 4 * 16 + y div 16) mod 16 * 16 + (y mod 16 * 4) div 4 = y"
    by (simp only: x2) simp
  show "x div 4 * 4 + (x mod 4 * 16) div 16 = x" by simp
qed

lemma b64_groups_encode: "b64_groups alph (b64_encode alph s) = Some s"
proof (induction alph s rule: b64_encode.induct)
  case (2 alph a)
  show ?case
    using sextets(1,5,11) [OF of_char_lt_256 [of a] of_char_lt_256 [of a] of_char_lt_256 [of a]] by (simp add: Let_def del: mod_mult_self3)
next
  case (3 alph a b)
  show ?case
    using sextets(1,2,6,7,10) [OF of_char_lt_256 [of a] of_char_lt_256 [of b] of_char_lt_256 [of a]] by (simp only: b64_encode.simps b64_groups.simps Let_def
      b64_val_char b64_val_pad option.case prod.case list.simps simp_thms if_True char_of_char)
next
  case (4 alph a b c r)
  show ?case
    using sextets(1,2,3,4,7,8,9) [OF of_char_lt_256 [of a] of_char_lt_256 [of b] of_char_lt_256 [of c]] "4.IH"
    by (simp only: b64_encode.simps b64_groups.simps Let_def append.simps
      b64_val_char option.case prod.case option.map char_of_char)
qed simp

lemma b64_encode_no_newline: "c \<in> set (b64_encode alph s) \<Longrightarrow> c \<noteq> CHR 0x0A \<and> c \<noteq> CHR 0x0D"
proof (induction alph s rule: b64_encode.induct)
  case (2 alph a)
  then show ?case using sextets(1,5) [OF of_char_lt_256 [of a] of_char_lt_256 [of a] of_char_lt_256 [of a]] b64_char_not_newline by (auto simp: Let_def)
next
  case (3 alph a b)
  then show ?case using sextets(1,2,6) [OF of_char_lt_256 [of a] of_char_lt_256 [of b] of_char_lt_256 [of a]] b64_char_not_newline
    by (auto simp: Let_def)
next
  case (4 alph a b c r)
  then show ?case using sextets(1,2,3,4) [OF of_char_lt_256 [of a] of_char_lt_256 [of b] of_char_lt_256 [of c]] b64_char_not_newline
    by (auto simp: Let_def)
qed simp

lemma b64_decode_encode: "b64_decode alph (b64_encode alph s) = Inr s"
proof -
  have "filter (\<lambda>c. c \<noteq> CHR 0x0A \<and> c \<noteq> CHR 0x0D) (b64_encode alph s) = b64_encode alph s"
    using b64_encode_no_newline by (intro filter_True) blast
  then show ?thesis by (simp add: b64_decode_def b64_groups_encode)
qed

end
