(* ===== verification/Archive.thy ===== *)
theory Archive
  imports Filesystem Base64
begin

text \<open>
  The archive helpers of \<^verbatim>\<open>utils/archive.go\<close>: extracting zip and tar archives and
  recognising a base64-encoded gzip file.  The decoders of the archive formats are the
  parameter \<open>archive_lib\<close>: they turn the bytes of an archive into its entries, possibly
  followed by an error.  The main result is that extraction never touches anything outside the
  destination directory, whatever the archive holds.
\<close>

record archive_entry =
  ae_Name :: string
  ae_IsDir :: bool
  ae_Data :: bytes
  ae_Err :: "error option"

text \<open>
  \<open>ae_Err\<close> is the error that ends the copying of the entry, after the bytes
  \<open>ae_Data\<close> were written.  A tar stream is a list of entries and the error, if any, that
  \<^verbatim>\<open>Next\<close> returns after them.
\<close>

type_synonym tar_stream = "archive_entry list \<times> error option"

record archive_lib =
  zip_OpenReader :: "bytes \<Rightarrow> archive_entry list result"
  gzip_NewReader :: "bytes \<Rightarrow> unit result"
  tar_gz_stream :: "bytes \<Rightarrow> tar_stream"

section \<open>Extraction\<close>

definition extract_entry :: "os_env \<Rightarrow> string \<Rightarrow> archive_entry \<Rightarrow> (fs, unit result) prog" where
  "extract_entry E dest e =
     (let fPath = Join [dest, ae_Name e] in
      if \<not> HasPrefix (Clean fPath) (Clean dest @ ''/'')
      then retP (Inl (ErrMsg (''illegal file path: '' @ fPath)))
      else if ae_IsDir e then os_MkdirAll E fPath
      else bindP (os_MkdirAll E (Dir fPath)) (\<lambda>r.
        case r of Inl err \<Rightarrow> retP (Inl err) | Inr _ \<Rightarrow> os_WriteData E fPath (ae_Data e) (ae_Err e)))"

fun unzip_entries :: "os_env \<Rightarrow> string \<Rightarrow> archive_entry list \<Rightarrow> (fs, unit result) prog" where
  "unzip_entries E dest [] = retP (Inr ())"
| "unzip_entries E dest (f # fs) =
     bindP (extract_entry E dest f) (\<lambda>r.
       case r of Inl err \<Rightarrow> retP (Inl err) | Inr _ \<Rightarrow> unzip_entries E dest fs)"

definition UnzipFile :: "os_env \<Rightarrow> archive_lib \<Rightarrow> string \<Rightarrow> string \<Rightarrow> (fs, unit result) prog" where
  "UnzipFile E L zipFile dest =
     bindP (os_ReadFile E zipFile) (\<lambda>r.
       case r of
         Inl err \<Rightarrow> retP (Inl err)
       | Inr data \<Rightarrow>
           (case zip_OpenReader L data of
              Inl err \<Rightarrow> retP (Inl err)
            | Inr files \<Rightarrow> unzip_entries E dest files))"

fun untar_entries :: "os_env \<Rightarrow> string \<Rightarrow> archive_entry list \<Rightarrow> error option \<Rightarrow> (fs, unit result) prog" where
  "untar_entries E dest [] err = retP (case err of Some e \<Rightarrow> Inl e | None \<Rightarrow> Inr ())"
| "untar_entries E dest (h # hs) err =
     bindP (extract_entry E dest h) (\<lambda>r.
       case r of Inl e \<Rightarrow> retP (Inl e) | Inr _ \<Rightarrow> untar_entries E dest hs err)"

definition Untar :: "os_env \<Rightarrow> tar_stream \<Rightarrow> string \<Rightarrow> (fs, unit result) prog" where
  "Untar E r dest = untar_entries E dest (fst r) (snd r)"

definition UntarGz :: "os_env \<Rightarrow> archive_lib \<Rightarrow> string \<Rightarrow> string \<Rightarrow> (fs, unit result) prog" where
  "UntarGz E L tarGzFile dest =
     bindP (os_ReadFile E tarGzFile) (\<lambda>r.
       case r of
         Inl err \<Rightarrow> retP (Inl err)
       | Inr data \<Rightarrow>
           (case gzip_NewReader L data of
              Inl err \<Rightarrow> retP (Inl err)
            | Inr _ \<Rightarrow> Untar E (tar_gz_stream L data) dest))"

section \<open>Recognising a query pack\<close>

definition IsBase64Gzip :: "bytes \<Rightarrow> bool" where
  "IsBase64Gzip val =
     (if length val \<ge> 4 then
        (case b64_decode StdEncoding (take 4 val) of
           Inl err \<Rightarrow> False
         | Inr d \<Rightarrow> take 2 (d @ replicate (3 - length d) (CHR 0x00)) = [CHR 0x1F, CHR 0x8B])
      else False)"

text \<open>On the encoding of any bytes it decides whether they start with the gzip magic number.\<close>

lemma IsBase64Gzip_encode:
  "IsBase64Gzip (b64_encode StdEncoding d) \<longleftrightarrow> take 2 d = [CHR 0x1F, CHR 0x8B]"
proof -
  note enc = b64_decode_encode [of StdEncoding]
  consider "d = []" | a where "d = [a]" | a b where "d = [a, b]" | a b c r where "d = a # b # c # r"
    by (metis list.exhaust)
  then show ?thesis
  proof cases
    case 1
    then show ?thesis by (simp add: IsBase64Gzip_def)
  next
    case (2 a)
    then show ?thesis using enc [of "[a]"] by (simp add: IsBase64Gzip_def Let_def)
  next
    case (3 a b)
    then show ?thesis using enc [of "[a, b]"] by (simp add: IsBase64Gzip_def Let_def)
  next
    case (4 a b c r)
    have "take 4 (b64_encode StdEncoding d) = b64_encode StdEncoding [a, b, c]"
      "4 \<le> length (b64_encode StdEncoding d)"
      using 4 by (simp_all add: Let_def)
    then show ?thesis using 4 enc [of "[a, b, c]"] by (simp add: IsBase64Gzip_def del: b64_encode.simps)
  qed
qed

section \<open>Extraction stays inside its destination\<close>

text \<open>
  \<open>only_inside\<close> relates two file systems that agree outside a directory: no file outside
  changed, and the only new directories outside are those above the directory itself.
\<close>

definition only_inside :: "string \<Rightarrow> fs \<Rightarrow> fs \<Rightarrow> bool" where
  "only_inside d s t \<longleftrightarrow>
     (\<forall>q. \<not> inside d q \<longrightarrow> gm_get (fs_files t) (Clean q) = gm_get (fs_files s) (Clean q)) \<and>
     (\<forall>q \<in> set (fs_dirs t). q \<in> set (fs_dirs s) \<or> q \<in> set (dir_chain d) \<or> inside d q)"

lemma only_inside_refl [simp]: "only_inside d s s"
  by (simp add: only_inside_def)

lemma only_inside_trans: "only_inside d s t \<Longrightarrow> only_inside d t u \<Longrightarrow> only_inside d s u"
  unfolding only_inside_def by (metis (no_types))

lemma only_inside_clock [simp]:
  "only_inside d (s\<lparr>fs_clock := n\<rparr>) t = only_inside d s t" "only_inside d s (t\<lparr>fs_clock := n\<rparr>) = only_inside d s t"
  by (simp_all add: only_inside_def)

lemma inside_Clean [simp]: "inside d (Clean p) = inside d p"
  by (simp add: inside_def)

lemma only_inside_write: "inside d p \<Longrightarrow> only_inside d s (snd (os_WriteData E p data failed s))"
  unfolding only_inside_def os_WriteData_def os_call_def Let_def
  by (auto split: option.splits) (metis inside_Clean)+

lemma dir_chain_inside:
  assumes "list_all proper rest" and "rooted p = rooted d" and "path_comps p = path_comps d @ rest"
    and "q \<in> set (dir_chain p)"
  shows "q \<in> set (dir_chain d) \<or> inside d q"
proof -
  obtain k where k: "k < length (path_comps p)" "q = path_of (rooted p) (take (Suc k) (path_comps p))"
    using assms(4) by (auto simp: dir_chain_def)
  show ?thesis
  proof (cases "k < length (path_comps d)")
    case True
    then have "q = path_of (rooted d) (take (Suc k) (path_comps d))" using k(2) assms(2,3) by simp
    with True show ?thesis by (auto simp: dir_chain_def)
  next
    case False
    let ?r = "take (Suc k - length (path_comps d)) rest"
    have q: "take (Suc k) (path_comps p) = path_comps d @ ?r" "?r \<noteq> []"
      using False k(1) assms(3) by auto
    have "list_all proper ?r" using assms(1) by (auto simp: list_all_iff dest: in_set_takeD)
    moreover have "normal_comps (rooted p) (take (Suc k) (path_comps p))"
      using normal_path_comps [of p] normal_append
      by (metis append_take_drop_id)
    ultimately show ?thesis
      using q k(2) assms(2) path_of_comps [of "rooted p" "take (Suc k) (path_comps p)"] unfolding inside_iff by auto
  qed
qed

lemma only_inside_mkdir:
  assumes "list_all proper rest" and "rooted p = rooted d" and "path_comps p = path_comps d @ rest"
  shows "only_inside d s (snd (os_MkdirAll E p s))"
  unfolding only_inside_def os_MkdirAll_def os_call_def Let_def
  using dir_chain_inside [OF assms] by (auto split: option.splits)

text \<open>One entry: a path that passes the test leads inside, and so does its directory or it is the destination.\<close>

lemma extract_entry_inside:
  assumes "rooted d" and "path_comps d \<noteq> []"
  shows "only_inside d s (snd (extract_entry E d e s))"
proof -
  define p where "p = Join [d, ae_Name e]"
  have "d \<noteq> []" using assms(1) by (auto simp: rooted_def)
  then have clean: "Clean p = p" by (simp add: p_def)
  show ?thesis
  proof (cases "HasPrefix (Clean p) (Clean d @ ''/'')")
    case False
    then show ?thesis unfolding extract_entry_def Let_def p_def [symmetric] by simp
  next
    case True
    then have ins: "inside d p" using HasPrefix_inside assms by blast
    then obtain rest where rest: "rooted p" "rest \<noteq> []" "path_comps p = path_comps d @ rest" "list_all proper rest"
      using assms(1) unfolding inside_iff by auto
    obtain us u where u: "rest = us @ [u]" using rest(2) by (cases rest rule: rev_cases) auto
    have n: "normal_comps True ((path_comps d @ us) @ [u])"
      using normal_path_comps [of p] rest(1,3) u by simp
    have "Dir p = path_of True (path_comps d @ us)"
      using Dir_path_of [OF n] Clean_def [of p] clean rest(1,3) u by simp
    then have dir: "rooted (Dir p)" "path_comps (Dir p) = path_comps d @ us"
      using path_of_comps [of True "path_comps d @ us"] n by (simp_all add: normal_rooted)
    have us: "list_all proper us" using rest(4) u by simp
    have mk: "only_inside d s (snd (os_MkdirAll E (Dir p) s))" for s
      by (rule only_inside_mkdir [OF us]) (use dir assms(1) in simp_all)
    have mk': "only_inside d s (snd (os_MkdirAll E p s))" for s
      by (rule only_inside_mkdir [OF rest(4)]) (use rest assms(1) in simp_all)
    obtain r t where t: "os_MkdirAll E (Dir p) s = (r, t)" by fastforce
    then have st: "only_inside d s t" using mk [of s] by simp
    show ?thesis
      using True mk' [of s] t st only_inside_trans [OF st only_inside_write [OF ins, of t E "ae_Data e" "ae_Err e"]]
      unfolding extract_entry_def Let_def p_def [symmetric]
      by (cases r) (auto simp: bindP_def split: sum.split)
  qed
qed

lemma bindP_inside:
  assumes "only_inside d s (snd (m s))" and "\<And>a t. only_inside d t (snd (k a t))"
  shows "only_inside d s (snd (bindP m k s))"
  using assms(1) assms(2) only_inside_trans
  by (auto simp: bindP_def split: prod.splits go.splits)

lemma unzip_entries_inside:
  assumes "rooted d" and "path_comps d \<noteq> []"
  shows "only_inside d s (snd (unzip_entries E d es s))"
proof (induction es arbitrary: s)
  case Nil
  then show ?case by simp
next
  case (Cons e es)
  show ?case
    unfolding unzip_entries.simps
    by (rule bindP_inside [OF extract_entry_inside [OF assms]]) (auto simp: Cons.IH split: sum.splits)
qed

lemma untar_entries_inside:
  assumes "rooted d" and "path_comps d \<noteq> []"
  shows "only_inside d s (snd (untar_entries E d es err s))"
proof (induction es arbitrary: s)
  case Nil
  then show ?case by simp
next
  case (Cons e es)
  show ?case
    unfolding untar_entries.simps
    by (rule bindP_inside [OF extract_entry_inside [OF assms]]) (auto simp: Cons.IH split: sum.splits)
qed

lemma os_ReadFile_inside: "only_inside d s (snd (os_ReadFile E p s))"
  by (simp add: os_ReadFile_def os_call_def Let_def split: option.splits)

text \<open>
  C7. ZipSlip safety: extracting a zip archive or a gzipped tar archive into an absolute
  directory other than the root changes no file outside this directory and creates no
  directory outside it but those above it, for every archive, every behaviour of the decoders
  and of the operating system, and also when the extraction fails half way.
\<close>

theorem extraction_stays_inside:
  assumes "rooted dest" and "path_comps dest \<noteq> []"
  shows "only_inside dest s (snd (UnzipFile E L zipFile dest s)) \<and>
         only_inside dest s (snd (UntarGz E L tarGzFile dest s))"
  unfolding UnzipFile_def UntarGz_def
  by (intro conjI; rule bindP_inside [OF os_ReadFile_inside])
    (auto simp: Untar_def unzip_entries_inside [OF assms] untar_entries_inside [OF assms] split: sum.split)

definition evil_entry :: archive_entry where
  "evil_entry = \<lparr>ae_Name = ''../../etc/passwd'', ae_IsDir = False, ae_Data = ''root'', ae_Err = None\<rparr>"

definition evil_lib :: archive_lib where
  "evil_lib = \<lparr>zip_OpenReader = (\<lambda>_. Inr [evil_entry]), gzip_NewReader = (\<lambda>_. Inr ()),
     tar_gz_stream = (\<lambda>_. ([evil_entry], None))\<rparr>"

theorem extraction_stays_inside_witness:
  "only_inside ''/tmp/x'' \<lparr>fs_files = [(''/tmp/a'', ''z'')], fs_dirs = [''/tmp''], fs_clock = 0\<rparr>
     (snd (UnzipFile \<lparr>os_fault = \<lambda>_. None\<rparr> evil_lib ''/tmp/a'' ''/tmp/x''
        \<lparr>fs_files = [(''/tmp/a'', ''z'')], fs_dirs = [''/tmp''], fs_clock = 0\<rparr>)) \<and>
   only_inside ''/tmp/x'' \<lparr>fs_files = [(''/tmp/a'', ''z'')], fs_dirs = [''/tmp''], fs_clock = 0\<rparr>
     (snd (UntarGz \<lparr>os_fault = \<lambda>_. None\<rparr> evil_lib ''/tmp/a'' ''/tmp/x''
        \<lparr>fs_files = [(''/tmp/a'', ''z'')], fs_dirs = [''/tmp''], fs_clock = 0\<rparr>))"
  by (rule extraction_stays_inside) (simp_all add: rooted_def path_comps_def)

text \<open>
  C21. What passes as a query pack: the encoding of some bytes is accepted exactly when the
  bytes start with the magic number of gzip.
\<close>

theorem IsBase64Gzip_decides:
  "IsBase64Gzip (b64_encode StdEncoding d) \<longleftrightarrow> take 2 d = [CHR 0x1F, CHR 0x8B]"
  by (rule IsBase64Gzip_encode)

end
