(* ===== verification/Common_Types.thy ===== *)
theory Common_Types
  imports Go_Strings
begin

text \<open>
  The shared data of the system: package \<^verbatim>\<open>pkg/common\<close> (\<^verbatim>\<open>types.go\<close> and
  \<^verbatim>\<open>extapi.go\<close>), the messages of \<^verbatim>\<open>pkg/queue/types.go\<close> and the artifact
  locations of \<^verbatim>\<open>pkg/artifactstore/common.go\<close>.  Every struct is a record with the
  fields of the source in their order, each field prefixed with a short name of its struct.
\<close>

section \<open>Repositories and jobs\<close>

record NameWithOwner =
  Owner :: string
  Repo :: string

record JobSpec =
  SessionID :: int
  NWO :: NameWithOwner

text \<open>
  The verbs \<open>%s\<close> and \<open>%v\<close> print a struct as its fields in braces, separated by
  blanks.
\<close>

definition fmt_nwo :: "NameWithOwner \<Rightarrow> string" where
  "fmt_nwo n = ''{'' @ Owner n @ '' '' @ Repo n @ ''}''"

definition fmt_JobSpec :: "JobSpec \<Rightarrow> string" where
  "fmt_JobSpec js = ''{'' @ Itoa (SessionID js) @ '' '' @ fmt_nwo (NWO js) @ ''}''"

text \<open>\<^verbatim>\<open>fmt.Sprintf("%s/%s", repo.Owner, repo.Repo)\<close>, the full name of a repository.\<close>

definition full_name :: "NameWithOwner \<Rightarrow> string" where
  "full_name n = Owner n @ ''/'' @ Repo n"

text \<open>
  The struct \<open>{Owner Repo}\<close> determines its fields as long as the owner has no blank, and
  the full name determines them as long as the owner has no slash.
\<close>

lemma fmt_nwo_inject:
  assumes "CHR '' '' \<notin> set (Owner a)" and "CHR '' '' \<notin> set (Owner b)"
  shows "fmt_nwo a = fmt_nwo b \<longleftrightarrow> a = b"
  using assms append_sep_cancel [OF assms] by (auto simp: fmt_nwo_def)

lemma full_name_inject:
  assumes "CHR ''/'' \<notin> set (Owner a)" and "CHR ''/'' \<notin> set (Owner b)"
  shows "full_name a = full_name b \<longleftrightarrow> a = b"
  using assms append_sep_cancel [OF assms] by (auto simp: full_name_def)

section \<open>Job status\<close>

text \<open>
  \<^verbatim>\<open>type Status int\<close>: a value that comes from the database or from a message may be any
  integer, so the type is not a closed enumeration.
\<close>

type_synonym Status = int

definition StatusPending :: Status where [status_defs]: "StatusPending = 0"
definition StatusInProgress :: Status where [status_defs]: "StatusInProgress = 1"
definition StatusSucceeded :: Status where [status_defs]: "StatusSucceeded = 2"
definition StatusFailed :: Status where [status_defs]: "StatusFailed = 3"
definition StatusCanceled :: Status where [status_defs]: "StatusCanceled = 4"
definition StatusTimedOut :: Status where [status_defs]: "StatusTimedOut = 5"

definition ToExternalString :: "Status \<Rightarrow> string" where
  "ToExternalString s =
     (if s = StatusPending then ''pending''
      else if s = StatusInProgress then ''inProgress''
      else if s = StatusSucceeded then ''succeeded''
      else if s = StatusFailed then ''failed''
      else if s = StatusCanceled then ''canceled''
      else if s = StatusTimedOut then ''timedOut''
      else ''unknown'')"

record StatusSummary =
  Overall :: Status
  Counts :: "(Status, int) gomap"

definition known_status :: "Status \<Rightarrow> bool" where
  "known_status s \<longleftrightarrow> 0 \<le> s \<and> s \<le> 5"

lemma known_status_iff:
  "known_status s \<longleftrightarrow> s \<in> {StatusPending, StatusInProgress, StatusSucceeded, StatusFailed,
     StatusCanceled, StatusTimedOut}"
  by (auto simp: known_status_def status_defs)

section \<open>Artifact locations and queue messages\<close>

record ArtifactLocation =
  loc_Key :: string
  loc_Bucket :: string

definition ArtifactLocation0 :: ArtifactLocation where
  "ArtifactLocation0 = \<lparr>loc_Key = [], loc_Bucket = []\<rparr>"

type_synonym QueryLanguage = string

record AnalyzeJob =
  job_Spec :: JobSpec
  job_QueryPackLocation :: ArtifactLocation
  job_QueryLanguage :: QueryLanguage

record AnalyzeResult =
  res_Spec :: JobSpec
  res_Status :: Status
  res_ResultCount :: int
  res_ResultLocation :: ArtifactLocation
  res_SourceLocationPrefix :: string
  res_DatabaseSHA :: string

section \<open>The external API\<close>

text \<open>
  The structs of \<^verbatim>\<open>extapi.go\<close>.  \<open>Actor0\<close> and \<open>ControllerRepo0\<close> are the zero
  values \<^verbatim>\<open>common.Actor{}\<close> and \<^verbatim>\<open>common.ControllerRepo{}\<close>, the only values
  of these structs that the server ever sends.
\<close>

record Repository =
  repo_ID :: int
  repo_Name :: string
  repo_FullName :: string
  repo_Private :: bool
  repo_StargazersCount :: int
  repo_UpdatedAt :: string

record AccessMismatchRepos =
  amr_RepositoryCount :: int
  amr_Repositories :: "Repository list"

record NotFoundRepos =
  nfr_RepositoryCount :: int
  nfr_RepositoryFullNames :: "string list"

record NoCodeqlDBRepos =
  ndr_RepositoryCount :: int
  ndr_Repositories :: "Repository list"

record OverLimitRepos =
  olr_RepositoryCount :: int
  olr_Repositories :: "Repository list"

record SkippedRepositories =
  skip_AccessMismatchRepos :: AccessMismatchRepos
  skip_NotFoundRepos :: NotFoundRepos
  skip_NoCodeqlDBRepos :: NoCodeqlDBRepos
  skip_OverLimitRepos :: OverLimitRepos

record JobInfo =
  ji_QueryLanguage :: string
  ji_CreatedAt :: string
  ji_UpdatedAt :: string
  ji_SkippedRepositories :: SkippedRepositories

record Actor =
  actor_Login :: string
  actor_ID :: int
  actor_NodeID :: string
  actor_AvatarURL :: string
  actor_GravatarID :: string
  actor_URL :: string
  actor_HTMLURL :: string
  actor_FollowersURL :: string
  actor_FollowingURL :: string
  actor_GistsURL :: string
  actor_StarredURL :: string
  actor_SubscriptionsURL :: string
  actor_OrganizationsURL :: string
  actor_ReposURL :: string
  actor_EventsURL :: string
  actor_ReceivedEventsURL :: string
  actor_Type :: string
  actor_SiteAdmin :: bool

definition Actor0 :: Actor where
  "Actor0 = \<lparr>actor_Login = [],
     actor_ID = 0,
     actor_NodeID = [],
     actor_AvatarURL = [],
     actor_GravatarID = [],
     actor_URL = [],
     actor_HTMLURL = [],
     actor_FollowersURL = [],
     actor_FollowingURL = [],
     actor_GistsURL = [],
     actor_StarredURL = [],
     actor_SubscriptionsURL = [],
     actor_OrganizationsURL = [],
     actor_ReposURL = [],
     actor_EventsURL = [],
     actor_ReceivedEventsURL = [],
     actor_Type = [],
     actor_SiteAdmin = False\<rparr>"

record ControllerRepo =
  cr_ID :: int
  cr_NodeID :: string
  cr_Name :: string
  cr_FullName :: string
  cr_Private :: bool
  cr_Owner :: unit
  cr_HTMLURL :: string
  cr_Description :: string
  cr_Fork :: bool
  cr_ForksURL :: string
  cr_KeysURL :: string
  cr_CollaboratorsURL :: string
  cr_TeamsURL :: string
  cr_HooksURL :: string
  cr_IssueEventsURL :: string
  cr_EventsURL :: string
  cr_AssigneesURL :: string
  cr_BranchesURL :: string
  cr_TagsURL :: string
  cr_BlobsURL :: string
  cr_GitTagsURL :: string
  cr_GitRefsURL :: string
  cr_TreesURL :: string
  cr_StatusesURL :: string
  cr_LanguagesURL :: string
  cr_StargazersURL :: string
  cr_ContributorsURL :: string
  cr_SubscribersURL :: string
  cr_SubscriptionURL :: string
  cr_CommitsURL :: string
  cr_GitCommitsURL :: string
  cr_CommentsURL :: string
  cr_IssueCommentURL :: string
  cr_ContentsURL :: string
  cr_CompareURL :: string
  cr_MergesURL :: string
  cr_ArchiveURL :: string
  cr_DownloadsURL :: string
  cr_IssuesURL :: string
  cr_PullsURL :: string
  cr_MilestonesURL :: string
  cr_NotificationsURL :: string
  cr_LabelsURL :: string
  cr_ReleasesURL :: string
  cr_DeploymentsURL :: string

definition ControllerRepo0 :: ControllerRepo where
  "ControllerRepo0 = \<lparr>cr_ID = 0,
     cr_NodeID = [],
     cr_Name = [],
     cr_FullName = [],
     cr_Private = False,
     cr_Owner = (),
     cr_HTMLURL = [],
     cr_Description = [],
     cr_Fork = False,
     cr_ForksURL = [],
     cr_KeysURL = [],
     cr_CollaboratorsURL = [],
     cr_TeamsURL = [],
     cr_HooksURL = [],
     cr_IssueEventsURL = [],
     cr_EventsURL = [],
     cr_AssigneesURL = [],
     cr_BranchesURL = [],
     cr_TagsURL = [],
     cr_BlobsURL = [],
     cr_GitTagsURL = [],
     cr_GitRefsURL = [],
     cr_TreesURL = [],
     cr_StatusesURL = [],
     cr_LanguagesURL = [],
     cr_StargazersURL = [],
     cr_ContributorsURL = [],
     cr_SubscribersURL = [],
     cr_SubscriptionURL = [],
     cr_CommitsURL = [],
     cr_GitCommitsURL = [],
     cr_CommentsURL = [],
     cr_IssueCommentURL = [],
     cr_ContentsURL = [],
     cr_CompareURL = [],
     cr_MergesURL = [],
     cr_ArchiveURL = [],
     cr_DownloadsURL = [],
     cr_IssuesURL = [],
     cr_PullsURL = [],
     cr_MilestonesURL = [],
     cr_NotificationsURL = [],
     cr_LabelsURL = [],
     cr_ReleasesURL = [],
     cr_DeploymentsURL = []\<rparr>"

record ScannedRepo =
  scan_Repository :: Repository
  scan_AnalysisStatus :: string
  scan_ResultCount :: int
  scan_ArtifactSizeBytes :: int

record StatusResponse =
  sr_SessionId :: int
  sr_ControllerRepo :: ControllerRepo
  sr_Actor :: Actor
  sr_QueryLanguage :: string
  sr_QueryPackURL :: string
  sr_CreatedAt :: string
  sr_UpdatedAt :: string
  sr_ActionsWorkflowRunID :: int
  sr_Status :: string
  sr_ScannedRepositories :: "ScannedRepo list"
  sr_SkippedRepositories :: SkippedRepositories

record DownloadRepo =
  dr_ID :: int
  dr_NodeID :: string
  dr_Name :: string
  dr_FullName :: string
  dr_Private :: bool
  dr_Owner :: Actor
  dr_HTMLURL :: string
  dr_Description :: string
  dr_Fork :: bool
  dr_ForksURL :: string
  dr_KeysURL :: string
  dr_CollaboratorsURL :: string
  dr_TeamsURL :: string
  dr_HooksURL :: string
  dr_IssueEventsURL :: string
  dr_EventsURL :: string
  dr_AssigneesURL :: string
  dr_BranchesURL :: string
  dr_TagsURL :: string
  dr_BlobsURL :: string
  dr_GitTagsURL :: string
  dr_GitRefsURL :: string
  dr_TreesURL :: string
  dr_StatusesURL :: string
  dr_LanguagesURL :: string
  dr_StargazersURL :: string
  dr_ContributorsURL :: string
  dr_SubscribersURL :: string
  dr_SubscriptionURL :: string
  dr_CommitsURL :: string
  dr_GitCommitsURL :: string
  dr_CommentsURL :: string
  dr_IssueCommentURL :: string
  dr_ContentsURL :: string
  dr_CompareURL :: string
  dr_MergesURL :: string
  dr_ArchiveURL :: string
  dr_DownloadsURL :: string
  dr_IssuesURL :: string
  dr_PullsURL :: string
  dr_MilestonesURL :: string
  dr_NotificationsURL :: string
  dr_LabelsURL :: string
  dr_ReleasesURL :: string
  dr_DeploymentsURL :: string

record DownloadResponse =
  dl_Repository :: DownloadRepo
  dl_AnalysisStatus :: string
  dl_ResultCount :: int
  dl_ArtifactSizeBytes :: int
  dl_DatabaseCommitSha :: string
  dl_SourceLocationPrefix :: string
  dl_ArtifactURL :: string

record SubmitResponse =
  sub_ID :: int
  sub_ControllerRepo :: ControllerRepo
  sub_Actor :: Actor
  sub_QueryLanguage :: string
  sub_QueryPackURL :: string
  sub_CreatedAt :: string
  sub_UpdatedAt :: string
  sub_Status :: string
  sub_SkippedRepositories :: SkippedRepositories

record SubmitMsg =
  msg_ActionRepoRef :: string
  msg_Language :: string
  msg_QueryPack :: string
  msg_Repositories :: "string list"

end
