(* ===== verification/Server_State.thy ===== *)
theory Server_State
  imports Common_Types "HOL-Library.Multiset"
begin

text \<open>
  The interface \<^verbatim>\<open>state.ServerState\<close> (\<^verbatim>\<open>pkg/state/interfaces.go\<close>) as a record
  of its methods, the aggregation of job statuses into a session status that both
  implementations share, and the contract \<open>job_state\<close> that they promise to the server: what
  a client has stored is what it reads, per job, and a session status reflects the statuses of
  its jobs.
\<close>

section \<open>The interface\<close>

record 's JobState =
  ss_NextID :: "('s, int) prog"
  ss_GetResult :: "JobSpec \<Rightarrow> ('s, AnalyzeResult result) prog"
  ss_GetJobSpecByRepoId :: "int \<Rightarrow> int \<Rightarrow> ('s, JobSpec result) prog"
  ss_SetResult :: "JobSpec \<Rightarrow> AnalyzeResult \<Rightarrow> ('s, unit) prog"
  ss_GetJobList :: "int \<Rightarrow> ('s, AnalyzeJob list result) prog"
  ss_GetJobInfo :: "JobSpec \<Rightarrow> ('s, JobInfo result) prog"
  ss_SetJobInfo :: "JobSpec \<Rightarrow> JobInfo \<Rightarrow> ('s, unit) prog"
  ss_GetStatus :: "JobSpec \<Rightarrow> ('s, Status result) prog"
  ss_GetSessionStatus :: "int \<Rightarrow> ('s, StatusSummary result) prog"
  ss_SetStatus :: "JobSpec \<Rightarrow> Status \<Rightarrow> ('s, unit) prog"
  ss_AddJob :: "AnalyzeJob \<Rightarrow> ('s, unit) prog"

text \<open>
  The interface has one more method, \<^verbatim>\<open>GetRepoId\<close>.  The in-memory implementation
  does not define it, so only the PostgreSQL implementation is a \<^verbatim>\<open>ServerState\<close>;
  the methods that both define are the record \<open>JobState\<close>.
\<close>

record 's ServerState = "'s JobState" +
  ss_GetRepoId :: "NameWithOwner \<Rightarrow> ('s, int) prog"

text \<open>
  What the server does to its state for one submitted job, after the job was handed to the
  queue, and for one result that the queue delivers.
\<close>

definition submit_job :: "('s, 'z) JobState_scheme \<Rightarrow> AnalyzeJob \<Rightarrow> ('s, unit) prog" where
  "submit_job S info = seqP (ss_SetStatus S (job_Spec info) StatusPending) (ss_AddJob S info)"

definition consume_result :: "('s, 'z) JobState_scheme \<Rightarrow> AnalyzeResult \<Rightarrow> ('s, unit) prog" where
  "consume_result S r =
     seqP (ss_SetResult S (res_Spec r) r) (ss_SetStatus S (res_Spec r) (res_Status r))"

section \<open>Aggregating job statuses\<close>

definition init_counts :: "(Status, int) gomap" where
  "init_counts = [(StatusPending, 0), (StatusInProgress, 0), (StatusSucceeded, 0),
                  (StatusFailed, 0), (StatusCanceled, 0), (StatusTimedOut, 0)]"

fun count_statuses :: "Status list \<Rightarrow> (Status, int) gomap \<Rightarrow> int \<Rightarrow> (Status, int) gomap \<times> int" where
  "count_statuses [] counts tot = (counts, tot)"
| "count_statuses (st # sts) counts tot =
     count_statuses sts (gm_put st (gm_get0 0 counts st + 1) counts) (tot + 1)"

text \<open>The rules by which the counts determine the overall status, in the order of the switch.\<close>

definition overall_of :: "(Status, int) gomap \<Rightarrow> int \<Rightarrow> Status" where
  "overall_of counts tot =
     (if gm_get0 0 counts StatusSucceeded = tot then StatusSucceeded
      else if gm_get0 0 counts StatusFailed = tot then StatusFailed
      else if gm_get0 0 counts StatusCanceled = tot then StatusCanceled
      else if gm_get0 0 counts StatusTimedOut = tot then StatusFailed
      else if gm_get0 0 counts StatusInProgress > 0 then StatusPending
      else if gm_get0 0 counts StatusPending > 0 \<and> gm_get0 0 counts StatusInProgress = 0 then StatusPending
      else if gm_get0 0 counts StatusPending = 0 \<and> gm_get0 0 counts StatusInProgress = 0 then StatusSucceeded
      else StatusPending)"

definition summarize :: "Status list \<Rightarrow> StatusSummary" where
  "summarize sts =
     (case count_statuses sts init_counts 0 of
        (counts, tot) \<Rightarrow> \<lparr>Overall = overall_of counts tot, Counts = counts\<rparr>)"

text \<open>The same as a property of the set of statuses alone.\<close>

definition overall_spec :: "Status set \<Rightarrow> Status" where
  "overall_spec S =
     (if S \<subseteq> {StatusSucceeded} then StatusSucceeded
      else if S = {StatusFailed} \<or> S = {StatusTimedOut} then StatusFailed
      else if S = {StatusCanceled} then StatusCanceled
      else if StatusPending \<in> S \<or> StatusInProgress \<in> S then StatusPending
      else StatusSucceeded)"

lemma count_statuses_total: "snd (count_statuses sts c t) = t + int (length sts)"
  by (induction sts arbitrary: c t) auto

lemma count_statuses_count:
  "gm_get0 0 (fst (count_statuses sts c t)) st = gm_get0 0 c st + int (count_list sts st)"
  by (induction sts arbitrary: c t) auto

lemma gm_get0_init_counts [simp]: "gm_get0 0 init_counts st = 0"
  by (simp add: gm_get0_def init_counts_def split: option.splits)

lemma count_list_length_iff: "count_list xs x = length xs \<longleftrightarrow> set xs \<subseteq> {x}"
proof (induction xs)
  case Nil
  then show ?case by simp
next
  case (Cons y ys)
  have "count_list ys x \<le> length ys" by (rule count_le_length)
  with Cons show ?case by auto
qed

lemma count_list_pos_iff: "0 < count_list xs x \<longleftrightarrow> x \<in> set xs"
  by (metis count_list_0_iff neq0_conv)

lemma summarize_counts: "gm_get0 0 (Counts (summarize sts)) st = int (count_list sts st)"
  using count_statuses_count [of sts init_counts 0 st]
  by (simp add: summarize_def case_prod_beta)

lemma status_distinct [simp]:
  "StatusPending \<noteq> StatusInProgress" "StatusPending \<noteq> StatusSucceeded" "StatusPending \<noteq> StatusFailed"
  "StatusPending \<noteq> StatusCanceled" "StatusPending \<noteq> StatusTimedOut" "StatusInProgress \<noteq> StatusSucceeded"
  "StatusInProgress \<noteq> StatusFailed" "StatusInProgress \<noteq> StatusCanceled" "StatusInProgress \<noteq> StatusTimedOut"
  "StatusSucceeded \<noteq> StatusFailed" "StatusSucceeded \<noteq> StatusCanceled" "StatusSucceeded \<noteq> StatusTimedOut"
  "StatusFailed \<noteq> StatusCanceled" "StatusFailed \<noteq> StatusTimedOut" "StatusCanceled \<noteq> StatusTimedOut"
  by (simp_all add: status_defs)

lemma overall_of_counts:
  assumes "\<And>st. gm_get0 0 counts st = int (count_list sts st)" and "tot = int (length sts)"
  shows "overall_of counts tot = overall_spec (set sts)"
proof -
  have all: "gm_get0 0 counts st = tot \<longleftrightarrow> set sts \<subseteq> {st}" for st
    using assms count_list_length_iff [of sts st] by simp
  have some: "gm_get0 0 counts st > 0 \<longleftrightarrow> st \<in> set sts" "gm_get0 0 counts st = 0 \<longleftrightarrow> st \<notin> set sts" for st
    using assms(1) count_list_pos_iff [of sts st] count_list_0_iff [of sts st] by auto
  show ?thesis
    unfolding overall_of_def overall_spec_def all some
    by (auto simp: subset_singleton_iff)
qed

text \<open>The aggregation computes its specification, in whatever order the statuses are visited.\<close>

lemma summarize_overall: "Overall (summarize sts) = overall_spec (set sts)"
proof -
  obtain c t where ct: "count_statuses sts init_counts 0 = (c, t)" by fastforce
  then have "overall_of c t = overall_spec (set sts)"
    using overall_of_counts [of c sts t] count_statuses_count [of sts init_counts 0]
      count_statuses_total [of sts init_counts 0] by simp
  with ct show ?thesis by (simp add: summarize_def)
qed

lemma summarize_order:
  assumes "mset sts = mset sts'"
  shows "Overall (summarize sts) = Overall (summarize sts')"
    and "gm_get0 0 (Counts (summarize sts)) st = gm_get0 0 (Counts (summarize sts')) st"
  using assms mset_eq_setD [OF assms]
  by (simp_all add: summarize_overall summarize_counts flip: count_mset)

section \<open>The contract\<close>

text \<open>What a client can observe of a state.\<close>

record job_view =
  jv_status :: "JobSpec \<Rightarrow> Status option"
  jv_result :: "JobSpec \<Rightarrow> AnalyzeResult option"
  jv_info :: "JobSpec \<Rightarrow> JobInfo option"
  jv_specs :: "int \<Rightarrow> JobSpec set"

definition session_statuses :: "job_view \<Rightarrow> int \<Rightarrow> Status set" where
  "session_statuses v sid = {st. \<exists>js. SessionID js = sid \<and> jv_status v js = Some st}"

text \<open>
  \<open>issued s sid\<close>: the session number was handed out by \<^verbatim>\<open>NextID\<close>.  \<open>room s\<close>:
  another one can be handed out.  \<open>fits s n\<close>: there is room for \<open>n\<close> more jobs.  The predicates \<open>adm_\<dots>\<close> say which values the
  implementation can store.
\<close>

locale job_state =
  fixes S :: "('s, 'z) JobState_scheme"
    and ok :: "'s \<Rightarrow> bool"
    and view :: "'s \<Rightarrow> job_view"
    and issued :: "'s \<Rightarrow> int \<Rightarrow> bool"
    and room :: "'s \<Rightarrow> bool"
    and fits :: "'s \<Rightarrow> nat \<Rightarrow> bool"
    and adm_spec :: "JobSpec \<Rightarrow> bool"
    and adm_job :: "AnalyzeJob \<Rightarrow> bool"
    and adm_result :: "AnalyzeResult \<Rightarrow> bool"
    and adm_info :: "JobInfo \<Rightarrow> bool"
  assumes next_id: "ok s \<Longrightarrow> room s \<Longrightarrow>
      \<exists>i t. ss_NextID S s = (Ret i, t) \<and> ok t \<and> view t = view s \<and> \<not> issued s i
        \<and> issued t = (issued s)(i := True) \<and> fits t = fits s \<and> jv_specs (view s) i = {} \<and> session_statuses (view s) i = {}"
    and set_status: "ok s \<Longrightarrow> issued s (SessionID js) \<Longrightarrow> adm_spec js \<Longrightarrow> known_status st \<Longrightarrow>
      \<exists>t. ss_SetStatus S js st s = (Ret (), t) \<and> ok t \<and> issued t = issued s \<and> fits t = fits s
        \<and> view t = (view s)\<lparr>jv_status := (jv_status (view s))(js \<mapsto> st)\<rparr>"
    and get_status: "ok s \<Longrightarrow> adm_spec js \<Longrightarrow>
      \<exists>r t. ss_GetStatus S js s = (Ret r, t) \<and> ok t \<and> issued t = issued s \<and> fits t = fits s \<and> view t = view s
        \<and> (case jv_status (view s) js of Some st \<Rightarrow> r = Inr st | None \<Rightarrow> isl r)"
    and set_result: "ok s \<Longrightarrow> issued s (SessionID js) \<Longrightarrow> adm_spec js \<Longrightarrow> adm_result r \<Longrightarrow> res_Spec r = js \<Longrightarrow>
      \<exists>t. ss_SetResult S js r s = (Ret (), t) \<and> ok t \<and> issued t = issued s \<and> fits t = fits s
        \<and> view t = (view s)\<lparr>jv_result := (jv_result (view s))(js \<mapsto> r)\<rparr>"
    and get_result: "ok s \<Longrightarrow> adm_spec js \<Longrightarrow>
      \<exists>r t. ss_GetResult S js s = (Ret r, t) \<and> ok t \<and> issued t = issued s \<and> fits t = fits s \<and> view t = view s
        \<and> (case jv_result (view s) js of Some x \<Rightarrow> r = Inr x | None \<Rightarrow> isl r)"
    and set_info: "ok s \<Longrightarrow> issued s (SessionID js) \<Longrightarrow> adm_spec js \<Longrightarrow> adm_info i \<Longrightarrow>
      \<exists>t. ss_SetJobInfo S js i s = (Ret (), t) \<and> ok t \<and> issued t = issued s \<and> fits t = fits s
        \<and> view t = (view s)\<lparr>jv_info := (jv_info (view s))(js \<mapsto> i)\<rparr>"
    and get_info: "ok s \<Longrightarrow> adm_spec js \<Longrightarrow>
      \<exists>r t. ss_GetJobInfo S js s = (Ret r, t) \<and> ok t \<and> issued t = issued s \<and> fits t = fits s \<and> view t = view s
        \<and> (case jv_info (view s) js of Some x \<Rightarrow> r = Inr x | None \<Rightarrow> isl r)"
    and add_job: "ok s \<Longrightarrow> issued s (SessionID (job_Spec j)) \<Longrightarrow> adm_spec (job_Spec j) \<Longrightarrow> adm_job j \<Longrightarrow>
      fits s (Suc n) \<Longrightarrow>
      \<exists>t. ss_AddJob S j s = (Ret (), t) \<and> ok t \<and> issued t = issued s \<and> fits t n
        \<and> view t = (view s)\<lparr>jv_specs := (jv_specs (view s))
            (SessionID (job_Spec j) := insert (job_Spec j) (jv_specs (view s) (SessionID (job_Spec j))))\<rparr>"
    and get_jobs: "ok s \<Longrightarrow> issued s sid \<Longrightarrow>
      \<exists>js t. ss_GetJobList S sid s = (Ret (Inr js), t) \<and> ok t \<and> issued t = issued s \<and> fits t = fits s \<and> view t = view s
        \<and> job_Spec ` set js = jv_specs (view s) sid"
    and get_session: "ok s \<Longrightarrow> issued s sid \<Longrightarrow> session_statuses (view s) sid \<noteq> {} \<Longrightarrow>
      \<exists>x t. ss_GetSessionStatus S sid s = (Ret (Inr x), t) \<and> ok t \<and> issued t = issued s \<and> fits t = fits s \<and> view t = view s
        \<and> Overall x = overall_spec (session_statuses (view s) sid)"
begin

definition adm :: "AnalyzeJob \<Rightarrow> bool" where
  "adm j \<longleftrightarrow> adm_spec (job_Spec j) \<and> adm_job j"

lemma submit_job_effect:
  assumes "ok s" and "issued s (SessionID (job_Spec j))" and "adm j" and "fits s (Suc n)"
  shows "\<exists>t. submit_job S j s = (Ret (), t) \<and> ok t \<and> issued t = issued s \<and> fits t n
    \<and> view t = (view s)\<lparr>jv_status := (jv_status (view s))(job_Spec j \<mapsto> StatusPending),
        jv_specs := (jv_specs (view s))(SessionID (job_Spec j) :=
          insert (job_Spec j) (jv_specs (view s) (SessionID (job_Spec j))))\<rparr>"
proof -
  have "known_status StatusPending" by (simp add: known_status_iff)
  then obtain t where t: "ss_SetStatus S (job_Spec j) StatusPending s = (Ret (), t)" "ok t" "issued t = issued s"
    "fits t = fits s"
    "view t = (view s)\<lparr>jv_status := (jv_status (view s))(job_Spec j \<mapsto> StatusPending)\<rparr>"
    using set_status [OF assms(1,2)] assms(3) unfolding adm_def by blast
  obtain u where "ss_AddJob S j t = (Ret (), u)" "ok u" "issued u = issued t" "fits u n"
    "view u = (view t)\<lparr>jv_specs := (jv_specs (view t))
       (SessionID (job_Spec j) := insert (job_Spec j) (jv_specs (view t) (SessionID (job_Spec j))))\<rparr>"
    using add_job [OF t(2), of j n] assms(2-4) t(3,4) unfolding adm_def by auto
  with t show ?thesis by (simp add: submit_job_def)
qed

text \<open>
  Submitting the jobs of a session registers each of them, marks each as pending and leaves
  every other job alone.
\<close>

lemma submit_jobs_effect:
  assumes "ok s" and "issued s sid" and "\<forall>j\<in>set js. adm j \<and> SessionID (job_Spec j) = sid"
    and "fits s (length js + n)"
  shows "\<exists>t. forP js (submit_job S) s = (Ret (), t) \<and> ok t \<and> issued t = issued s \<and> fits t n
    \<and> jv_status (view t) = (\<lambda>x. if x \<in> job_Spec ` set js then Some StatusPending else jv_status (view s) x)
    \<and> jv_specs (view t) = (jv_specs (view s))(sid := jv_specs (view s) sid \<union> job_Spec ` set js)
    \<and> jv_result (view t) = jv_result (view s) \<and> jv_info (view t) = jv_info (view s)"
  using assms
proof (induction js arbitrary: s)
  case Nil
  then show ?case by (auto simp: fun_eq_iff)
next
  case (Cons j js)
  from Cons.prems have j: "issued s (SessionID (job_Spec j))" "adm j" "SessionID (job_Spec j) = sid" by auto
  obtain t where t: "submit_job S j s = (Ret (), t)" "ok t" "issued t = issued s" "fits t (length js + n)"
    "view t = (view s)\<lparr>jv_status := (jv_status (view s))(job_Spec j \<mapsto> StatusPending),
        jv_specs := (jv_specs (view s))(sid := insert (job_Spec j) (jv_specs (view s) sid))\<rparr>"
    using submit_job_effect [OF Cons.prems(1) j(1,2), of "length js + n"] Cons.prems(4) unfolding j(3) by auto
  have "issued t sid" "\<forall>j\<in>set js. adm j \<and> SessionID (job_Spec j) = sid"
    using Cons.prems t(3) by simp_all
  from Cons.IH [OF t(2) this t(4)] obtain u where
    "forP js (submit_job S) t = (Ret (), u)" "ok u" "issued u = issued t" "fits u n"
    "jv_status (view u) = (\<lambda>x. if x \<in> job_Spec ` set js then Some StatusPending else jv_status (view t) x)"
    "jv_specs (view u) = (jv_specs (view t))(sid := jv_specs (view t) sid \<union> job_Spec ` set js)"
    "jv_result (view u) = jv_result (view t)" "jv_info (view u) = jv_info (view t)"
    by blast
  with t show ?case by (auto simp: fun_eq_iff)
qed

lemma consume_result_effect:
  assumes "ok s" and "issued s (SessionID (res_Spec r))" and "adm_spec (res_Spec r)" and "adm_result r"
    and "known_status (res_Status r)"
  shows "\<exists>t. consume_result S r s = (Ret (), t) \<and> ok t \<and> issued t = issued s \<and> fits t = fits s
    \<and> view t = (view s)\<lparr>jv_result := (jv_result (view s))(res_Spec r \<mapsto> r),
        jv_status := (jv_status (view s))(res_Spec r \<mapsto> res_Status r)\<rparr>"
proof -
  obtain t where t: "ss_SetResult S (res_Spec r) r s = (Ret (), t)" "ok t" "issued t = issued s" "fits t = fits s"
    "view t = (view s)\<lparr>jv_result := (jv_result (view s))(res_Spec r \<mapsto> r)\<rparr>"
    using set_result [OF assms(1-4) refl] by blast
  obtain u where "ss_SetStatus S (res_Spec r) (res_Status r) t = (Ret (), u)" "ok u" "issued u = issued t"
    "fits u = fits t"
    "view u = (view t)\<lparr>jv_status := (jv_status (view t))(res_Spec r \<mapsto> res_Status r)\<rparr>"
    using set_status [OF t(2), of "res_Spec r"] assms t(3) by auto
  with t show ?thesis by (simp add: consume_result_def)
qed

text \<open>Consuming results stores each of them and makes its status the status of its job.\<close>

definition consumable :: "AnalyzeResult \<Rightarrow> bool" where
  "consumable r \<longleftrightarrow> adm_spec (res_Spec r) \<and> adm_result r \<and> known_status (res_Status r)"

lemma consume_results_effect:
  assumes "ok s" and "\<forall>r\<in>set rs. consumable r \<and> issued s (SessionID (res_Spec r))"
    and "distinct (map res_Spec rs)"
  shows "\<exists>t. forP rs (consume_result S) s = (Ret (), t) \<and> ok t \<and> issued t = issued s \<and> fits t = fits s
    \<and> jv_specs (view t) = jv_specs (view s)
    \<and> (\<forall>r\<in>set rs. jv_status (view t) (res_Spec r) = Some (res_Status r) \<and> jv_result (view t) (res_Spec r) = Some r)
    \<and> (\<forall>js. js \<notin> res_Spec ` set rs \<longrightarrow>
          jv_status (view t) js = jv_status (view s) js \<and> jv_result (view t) js = jv_result (view s) js)"
  using assms
proof (induction rs arbitrary: s)
  case Nil
  then show ?case by simp
next
  case (Cons r rs)
  from Cons.prems(2) have r: "issued s (SessionID (res_Spec r))" "adm_spec (res_Spec r)" "adm_result r"
    "known_status (res_Status r)" by (auto simp: consumable_def)
  obtain t where t: "consume_result S r s = (Ret (), t)" "ok t" "issued t = issued s" "fits t = fits s"
    "view t = (view s)\<lparr>jv_result := (jv_result (view s))(res_Spec r \<mapsto> r),
        jv_status := (jv_status (view s))(res_Spec r \<mapsto> res_Status r)\<rparr>"
    using consume_result_effect [OF Cons.prems(1) r] by blast
  have "\<forall>r\<in>set rs. consumable r \<and> issued t (SessionID (res_Spec r))" "distinct (map res_Spec rs)"
    using Cons.prems(2,3) t(3) by simp_all
  from Cons.IH [OF t(2) this] obtain u where u: "forP rs (consume_result S) t = (Ret (), u)" "ok u"
    "issued u = issued t" "fits u = fits t" "jv_specs (view u) = jv_specs (view t)"
    "\<forall>r\<in>set rs. jv_status (view u) (res_Spec r) = Some (res_Status r) \<and> jv_result (view u) (res_Spec r) = Some r"
    "\<forall>js. js \<notin> res_Spec ` set rs \<longrightarrow>
       jv_status (view u) js = jv_status (view t) js \<and> jv_result (view u) js = jv_result (view t) js"
    by blast
  moreover have "res_Spec r \<notin> res_Spec ` set rs" using Cons.prems(3) by simp
  ultimately show ?case using t by simp
qed

text \<open>
  The life of a session: a fresh session number, its jobs submitted, and the results of all of
  them consumed.  In between the session is reported as pending; at the end as the aggregate of
  the statuses in the results, and every result can be read.
\<close>

lemma session_pending_after_submit:
  assumes "ok s" and "issued s sid" and "session_statuses (view s) sid = {}"
    and "\<forall>j\<in>set js. adm j \<and> SessionID (job_Spec j) = sid" and "js \<noteq> []"
    and "fits s (length js)"
    and "forP js (submit_job S) s = (Ret (), t)"
  shows "\<exists>x u. ss_GetSessionStatus S sid t = (Ret (Inr x), u) \<and> Overall x = StatusPending"
proof -
  from submit_jobs_effect [OF assms(1,2,4), of 0] assms(6,7)
  have t: "ok t" "issued t sid"
    "jv_status (view t) = (\<lambda>x. if x \<in> job_Spec ` set js then Some StatusPending else jv_status (view s) x)"
    using assms(2) by auto
  have "session_statuses (view t) sid = {StatusPending}"
    using assms(3-5) t(3) by (auto simp: session_statuses_def neq_Nil_conv split: if_splits)
  then show ?thesis using get_session [OF t(1,2)] by (auto simp: overall_spec_def)
qed

lemma session_complete:
  assumes s: "ok s" "issued s sid" "session_statuses (view s) sid = {}"
    and js: "\<forall>j\<in>set js. adm j \<and> SessionID (job_Spec j) = sid" "js \<noteq> []"
    and fit: "fits s (length js)"
    and submit: "forP js (submit_job S) s = (Ret (), t)"
    and rs: "\<forall>r\<in>set rs. consumable r" "distinct (map res_Spec rs)" "res_Spec ` set rs = job_Spec ` set js"
    and consume: "forP rs (consume_result S) t = (Ret (), u)"
  shows "\<exists>x v. ss_GetSessionStatus S sid u = (Ret (Inr x), v)
      \<and> Overall x = overall_spec (res_Status ` set rs)"
    and "r \<in> set rs \<Longrightarrow> fst (ss_GetResult S (res_Spec r) u) = Ret (Inr r)"
proof -
  from submit_jobs_effect [OF s(1,2) js(1), of 0] fit submit
  have t: "ok t" "issued t = issued s"
    "jv_status (view t) = (\<lambda>x. if x \<in> job_Spec ` set js then Some StatusPending else jv_status (view s) x)"
    by auto
  have "\<forall>r\<in>set rs. SessionID (res_Spec r) = sid" using rs(3) js(1) by (metis (full_types) image_iff)
  then have "\<forall>r\<in>set rs. consumable r \<and> issued t (SessionID (res_Spec r))" using rs(1) t(2) s(2) by simp
  from consume_results_effect [OF t(1) this rs(2)] consume
  have u: "ok u" "issued u = issued t"
    "\<forall>r\<in>set rs. jv_status (view u) (res_Spec r) = Some (res_Status r) \<and> jv_result (view u) (res_Spec r) = Some r"
    "\<forall>js. js \<notin> res_Spec ` set rs \<longrightarrow> jv_status (view u) js = jv_status (view t) js"
    by auto
  have status_u: "jv_status (view u) x = Some st \<longleftrightarrow> (\<exists>r\<in>set rs. res_Spec r = x \<and> res_Status r = st)"
    if "SessionID x = sid" for x st
  proof (cases "x \<in> res_Spec ` set rs")
    case True
    then show ?thesis using u(3) rs(2) by (auto simp: distinct_map inj_on_def)
  next
    case False
    moreover have "jv_status (view s) x = None"
      using s(3) that by (cases "jv_status (view s) x") (auto simp: session_statuses_def)
    ultimately show ?thesis using u(4) t(3) rs(3) by auto
  qed
  have "session_statuses (view u) sid = res_Status ` set rs"
  proof (intro set_eqI iffI)
    fix st
    assume "st \<in> session_statuses (view u) sid"
    then obtain x where "SessionID x = sid" "jv_status (view u) x = Some st"
      unfolding session_statuses_def by blast
    with status_u [OF this(1), of st] show "st \<in> res_Status ` set rs" by blast
  next
    fix st
    assume "st \<in> res_Status ` set rs"
    then obtain r where r: "r \<in> set rs" "st = res_Status r" by blast
    with u(3) have "jv_status (view u) (res_Spec r) = Some st" by simp
    moreover have "SessionID (res_Spec r) = sid"
      using r(1) \<open>\<forall>r\<in>set rs. SessionID (res_Spec r) = sid\<close> by simp
    ultimately show "st \<in> session_statuses (view u) sid"
      unfolding session_statuses_def by blast
  qed
  moreover have "rs \<noteq> []" using rs(3) js(2) by (metis image_is_empty set_empty)
  then have "res_Status ` set rs \<noteq> {}" by simp
  ultimately show "\<exists>x v. ss_GetSessionStatus S sid u = (Ret (Inr x), v)
      \<and> Overall x = overall_spec (res_Status ` set rs)"
    using get_session [OF u(1), of sid] u(2) t(2) s(2) by auto
  show "fst (ss_GetResult S (res_Spec r) u) = Ret (Inr r)" if "r \<in> set rs"
    using get_result [OF u(1), of "res_Spec r"] u(3) rs(1) that by (auto simp: consumable_def)
qed

end

text \<open>
  The full interface: the identifier of a repository can be asked for at any time.  Asking
  may use up a number, like adding a job.  An identifier that was given out keeps its meaning
  whatever method is called.
\<close>

definition keeps_ids :: "('s \<Rightarrow> int \<Rightarrow> NameWithOwner option) \<Rightarrow> ('s, 'a) prog \<Rightarrow> bool" where
  "keeps_ids ids m \<longleftrightarrow> (\<forall>s i n. ids s i = Some n \<longrightarrow> ids (snd (m s)) i = Some n)"

lemma keeps_idsD: "keeps_ids ids m \<Longrightarrow> m s = (r, t) \<Longrightarrow> ids s i = Some n \<Longrightarrow> ids t i = Some n"
  unfolding keeps_ids_def by (metis snd_conv)

lemma keeps_ids_retP [simp]: "keeps_ids ids (retP a)" "keeps_ids ids (panicP e)"
  by (simp_all add: keeps_ids_def)

lemma keeps_ids_bindP_post:
  assumes "keeps_ids ids m" and "\<And>a s t. m s = (Ret a, t) \<Longrightarrow> keeps_ids ids (k a)"
  shows "keeps_ids ids (bindP m k)"
  unfolding keeps_ids_def
proof (intro allI impI)
  fix s i n
  assume "ids s i = Some n"
  obtain r t where rt: "m s = (r, t)" by fastforce
  then have "ids t i = Some n" using keeps_idsD [OF assms(1)] \<open>ids s i = Some n\<close> by blast
  then show "ids (snd (bindP m k s)) i = Some n"
    using rt assms(2) [of s _ t] by (cases r) (auto simp: keeps_ids_def)
qed

lemma keeps_ids_bindP: "keeps_ids ids m \<Longrightarrow> (\<And>a. keeps_ids ids (k a)) \<Longrightarrow> keeps_ids ids (bindP m k)"
  by (rule keeps_ids_bindP_post)

locale server_state = job_state S ok view issued room fits adm_spec adm_job adm_result adm_info
  for S :: "'s ServerState"
    and ok view issued room fits adm_spec adm_job adm_result adm_info +
  fixes repo_ids :: "'s \<Rightarrow> int \<Rightarrow> NameWithOwner option"
  assumes get_repo_id: "ok s \<Longrightarrow> adm_spec js \<Longrightarrow> fits s (Suc n) \<Longrightarrow>
      \<exists>i t. ss_GetRepoId S (NWO js) s = (Ret i, t) \<and> ok t \<and> issued t = issued s \<and> fits t n \<and> view t = view s
        \<and> repo_ids t i = Some (NWO js)"
    and spec_by_repo_id: "ok s \<Longrightarrow> repo_ids s i = Some nwo \<Longrightarrow>
      \<exists>t. ss_GetJobSpecByRepoId S sid i s = (Ret (Inr \<lparr>SessionID = sid, NWO = nwo\<rparr>), t) \<and> ok t
        \<and> issued t = issued s \<and> fits t = fits s \<and> view t = view s"
    and jobs_distinct: "ok s \<Longrightarrow> issued s sid \<Longrightarrow> ss_GetJobList S sid s = (Ret (Inr xs), t) \<Longrightarrow> distinct (map job_Spec xs)"
    and ids_kept: "keeps_ids repo_ids (ss_NextID S)" "keeps_ids repo_ids (ss_GetResult S js)"
      "keeps_ids repo_ids (ss_GetJobSpecByRepoId S sid i)" "keeps_ids repo_ids (ss_SetResult S js r)"
      "keeps_ids repo_ids (ss_GetJobList S sid)" "keeps_ids repo_ids (ss_GetJobInfo S js)"
      "keeps_ids repo_ids (ss_SetJobInfo S js ji)" "keeps_ids repo_ids (ss_GetStatus S js)"
      "keeps_ids repo_ids (ss_GetSessionStatus S sid)" "keeps_ids repo_ids (ss_SetStatus S js st)"
      "keeps_ids repo_ids (ss_AddJob S job)" "keeps_ids repo_ids (ss_GetRepoId S nwo)"

end
