(* ===== verification/Local_State.thy ===== *)
theory Local_State
  imports Server_State
begin

text \<open>
  The in-memory server state, \<^verbatim>\<open>pkg/state/state_local.go\<close>.  Every method takes the
  mutex; a method that panics while it holds the mutex leaves it locked, and from then on
  every call waits forever.  The invariant \<open>ls_inv\<close> ties the two indexes of a session, its
  job list and its map from job number to job specification, to each other; every method keeps
  it, and under it no method panics or hangs.
\<close>

record LocalState =
  ls_jobs :: "(int, AnalyzeJob list) gomap"
  ls_info :: "(JobSpec, JobInfo) gomap"
  ls_status :: "(JobSpec, Status) gomap"
  ls_result :: "(JobSpec, AnalyzeResult) gomap"
  ls_sessionToJobIdToSpec :: "(int, (int, JobSpec) gomap) gomap"
  ls_mutex :: bool
  ls_currentID :: int

definition NewLocalState :: "int \<Rightarrow> LocalState" where
  "NewLocalState startingID =
     \<lparr>ls_jobs = gm_put startingID [] [], ls_info = [], ls_status = [], ls_result = [],
      ls_sessionToJobIdToSpec = gm_put startingID [] [], ls_mutex = False, ls_currentID = startingID\<rparr>"

text \<open>A method body between \<^verbatim>\<open>Lock\<close> and \<^verbatim>\<open>Unlock\<close>.\<close>

definition with_lock :: "(LocalState, 'a) prog \<Rightarrow> (LocalState, 'a) prog" where
  "with_lock body s = (if ls_mutex s then (Hang, s) else body s)"

definition ls_NextID :: "(LocalState, int) prog" where
  "ls_NextID = with_lock (\<lambda>s.
     let i = wrap64 (ls_currentID s + 1)
     in (Ret i, s\<lparr>ls_currentID := i, ls_jobs := gm_put i [] (ls_jobs s)\<rparr>))"

definition ls_GetResult :: "JobSpec \<Rightarrow> (LocalState, AnalyzeResult result) prog" where
  "ls_GetResult js = with_lock (\<lambda>s.
     case gm_get (ls_result s) js of
       None \<Rightarrow> (Ret (Inl (ErrMsg (''result not found for job spec '' @ fmt_JobSpec js))), s)
     | Some r \<Rightarrow> (Ret (Inr r), s))"

definition ls_GetJobSpecByRepoId :: "int \<Rightarrow> int \<Rightarrow> (LocalState, JobSpec result) prog" where
  "ls_GetJobSpecByRepoId sessionId jobRepoId = with_lock (\<lambda>s.
     case gm_get (ls_sessionToJobIdToSpec s) sessionId of
       None \<Rightarrow> (Ret (Inl (ErrMsg (''job ids not found for session '' @ Itoa sessionId))), s)
     | Some idToSpec \<Rightarrow>
         (case gm_get idToSpec jobRepoId of
            None \<Rightarrow> (Ret (Inl (ErrMsg (''job spec not found for job repo id '' @ Itoa jobRepoId))), s)
          | Some spec \<Rightarrow> (Ret (Inr spec), s)))"

definition ls_SetResult :: "JobSpec \<Rightarrow> AnalyzeResult \<Rightarrow> (LocalState, unit) prog" where
  "ls_SetResult js analyzeResult = with_lock (\<lambda>s.
     (Ret (), s\<lparr>ls_result := gm_put js analyzeResult (ls_result s)\<rparr>))"

definition ls_GetJobList :: "int \<Rightarrow> (LocalState, AnalyzeJob list result) prog" where
  "ls_GetJobList sessionID = with_lock (\<lambda>s.
     case gm_get (ls_jobs s) sessionID of
       None \<Rightarrow> (Ret (Inl (ErrMsg (''job list not found for session '' @ Itoa sessionID))), s)
     | Some js \<Rightarrow> (Ret (Inr js), s))"

definition ls_GetJobInfo :: "JobSpec \<Rightarrow> (LocalState, JobInfo result) prog" where
  "ls_GetJobInfo js = with_lock (\<lambda>s.
     case gm_get (ls_info s) js of
       None \<Rightarrow> (Ret (Inl (ErrMsg (''job info not found for job spec '' @ fmt_JobSpec js))), s)
     | Some i \<Rightarrow> (Ret (Inr i), s))"

definition ls_SetJobInfo :: "JobSpec \<Rightarrow> JobInfo \<Rightarrow> (LocalState, unit) prog" where
  "ls_SetJobInfo js ji = with_lock (\<lambda>s. (Ret (), s\<lparr>ls_info := gm_put js ji (ls_info s)\<rparr>))"

definition ls_GetStatus :: "JobSpec \<Rightarrow> (LocalState, Status result) prog" where
  "ls_GetStatus js = with_lock (\<lambda>s.
     case gm_get (ls_status s) js of
       None \<Rightarrow> (Ret (Inl (ErrMsg (''status not found for job spec '' @ fmt_JobSpec js))), s)
     | Some st \<Rightarrow> (Ret (Inr st), s))"

text \<open>The statuses of a session, in the order in which the map is visited.\<close>

definition ls_session_statuses :: "LocalState \<Rightarrow> int \<Rightarrow> Status list" where
  "ls_session_statuses s sessionID = map snd (filter (\<lambda>(js, st). SessionID js = sessionID) (ls_status s))"

definition ls_GetSessionStatus :: "int \<Rightarrow> (LocalState, StatusSummary result) prog" where
  "ls_GetSessionStatus sessionID = with_lock (\<lambda>s.
     let sts = ls_session_statuses s sessionID in
     case count_statuses sts init_counts 0 of
       (counts, tot) \<Rightarrow>
         if tot = 0 then (Ret (Inl (ErrMsg (''no jobs found for session '' @ Itoa sessionID))), s)
         else (Ret (Inr \<lparr>Overall = overall_of counts tot, Counts = counts\<rparr>), s))"

definition ls_SetStatus :: "JobSpec \<Rightarrow> Status \<Rightarrow> (LocalState, unit) prog" where
  "ls_SetStatus js st = with_lock (\<lambda>s. (Ret (), s\<lparr>ls_status := gm_put js st (ls_status s)\<rparr>))"

text \<open>\<^verbatim>\<open>AddJob\<close> unlocks at its end only, so its panic keeps the mutex.\<close>

definition ls_AddJob :: "AnalyzeJob \<Rightarrow> (LocalState, unit) prog" where
  "ls_AddJob job = with_lock (\<lambda>s.
     let sid = SessionID (job_Spec job);
         jobs = gm_put sid (gm_get0 [] (ls_jobs s) sid @ [job]) (ls_jobs s);
         m0 = (case gm_get (ls_sessionToJobIdToSpec s) sid of
                 None \<Rightarrow> gm_put sid [] (ls_sessionToJobIdToSpec s)
               | Some _ \<Rightarrow> ls_sessionToJobIdToSpec s);
         ids = gm_get0 [] m0 sid;
         m1 = gm_put sid (gm_put (int (length ids)) (job_Spec job) ids) m0;
         s' = s\<lparr>ls_jobs := jobs, ls_sessionToJobIdToSpec := m1\<rparr>
     in if length (gm_get0 [] jobs sid) \<noteq> length (gm_get0 [] m1 sid)
        then (Panic (''Unequal job list and job id map length. Session ID: '' @ Itoa sid), s'\<lparr>ls_mutex := True\<rparr>)
        else (Ret (), s'))"

definition Local_JobState :: "LocalState JobState" where
  "Local_JobState =
     \<lparr>ss_NextID = ls_NextID, ss_GetResult = ls_GetResult, ss_GetJobSpecByRepoId = ls_GetJobSpecByRepoId,
      ss_SetResult = ls_SetResult, ss_GetJobList = ls_GetJobList, ss_GetJobInfo = ls_GetJobInfo,
      ss_SetJobInfo = ls_SetJobInfo, ss_GetStatus = ls_GetStatus, ss_GetSessionStatus = ls_GetSessionStatus,
      ss_SetStatus = ls_SetStatus, ss_AddJob = ls_AddJob\<rparr>"

section \<open>The invariant\<close>

text \<open>The numbering of the jobs of one session: job \<open>i\<close> of the list has number \<open>i\<close>.\<close>

definition numbered :: "AnalyzeJob list \<Rightarrow> (int, JobSpec) gomap \<Rightarrow> bool" where
  "numbered js ids \<longleftrightarrow> length ids = length js \<and>
     (\<forall>k. gm_get ids k = (if 0 \<le> k \<and> k < int (length js) then Some (job_Spec (js ! nat k)) else None))"

definition ls_inv :: "LocalState \<Rightarrow> bool" where
  "ls_inv s \<longleftrightarrow> \<not> ls_mutex s \<and> gm_wf (ls_status s) \<and>
     - (2 ^ 63) \<le> ls_currentID s \<and> ls_currentID s \<le> max_int64 \<and>
     (\<forall>sid. numbered (gm_get0 [] (ls_jobs s) sid) (gm_get0 [] (ls_sessionToJobIdToSpec s) sid)) \<and>
     (\<forall>sid. ls_currentID s < sid \<longrightarrow> gm_get (ls_jobs s) sid = None) \<and>
     (\<forall>js. ls_currentID s < SessionID js \<longrightarrow> gm_get (ls_status s) js = None) \<and>
     (\<forall>sid js. js \<in> set (gm_get0 [] (ls_jobs s) sid) \<longrightarrow> SessionID (job_Spec js) = sid)"

lemma numbered_Nil [simp]: "numbered [] []"
  by (simp add: numbered_def)

lemma numbered_snoc:
  "numbered js ids \<Longrightarrow> numbered (js @ [j]) (gm_put (int (length ids)) (job_Spec j) ids)"
  by (auto simp: numbered_def nth_append nat_less_iff le_less)

lemma ls_inv_new: "- (2 ^ 63) \<le> n \<Longrightarrow> n \<le> max_int64 \<Longrightarrow> ls_inv (NewLocalState n)"
  by (auto simp: ls_inv_def NewLocalState_def gm_get0_def)

lemma ls_inv_unlocked [simp]: "ls_inv s \<Longrightarrow> with_lock body s = body s"
  by (simp add: ls_inv_def with_lock_def)

lemma ls_NextID_run:
  "ls_inv s \<Longrightarrow> ls_currentID s < max_int64 \<Longrightarrow>
     ls_NextID s = (Ret (ls_currentID s + 1),
       s\<lparr>ls_currentID := ls_currentID s + 1, ls_jobs := gm_put (ls_currentID s + 1) [] (ls_jobs s)\<rparr>)"
  by (simp add: ls_NextID_def wrap64_id ls_inv_def with_lock_def Let_def)

lemma ls_inv_NextID:
  assumes "ls_inv s" and "ls_currentID s < max_int64"
  shows "ls_inv (snd (ls_NextID s))"
proof -
  let ?i = "ls_currentID s + 1"
  have none: "gm_get (ls_jobs s) ?i = None" using assms(1) by (simp add: ls_inv_def)
  have "numbered (gm_get0 [] (ls_jobs s) ?i) (gm_get0 [] (ls_sessionToJobIdToSpec s) ?i)"
    using assms(1) by (simp add: ls_inv_def)
  with none have "numbered [] (gm_get0 [] (ls_sessionToJobIdToSpec s) ?i)"
    by (simp add: gm_get0_def)
  with assms show ?thesis
    unfolding ls_NextID_run [OF assms] ls_inv_def by auto
qed

lemma ls_AddJob_run:
  assumes "ls_inv s"
  shows "\<exists>t. ls_AddJob j s = (Ret (), t)
    \<and> ls_jobs t = gm_put (SessionID (job_Spec j)) (gm_get0 [] (ls_jobs s) (SessionID (job_Spec j)) @ [j]) (ls_jobs s)
    \<and> (\<forall>sid. gm_get0 [] (ls_sessionToJobIdToSpec t) sid =
         (if sid = SessionID (job_Spec j)
          then gm_put (int (length (gm_get0 [] (ls_sessionToJobIdToSpec s) sid))) (job_Spec j)
                 (gm_get0 [] (ls_sessionToJobIdToSpec s) sid)
          else gm_get0 [] (ls_sessionToJobIdToSpec s) sid))
    \<and> ls_info t = ls_info s \<and> ls_status t = ls_status s \<and> ls_result t = ls_result s
    \<and> ls_mutex t = ls_mutex s \<and> ls_currentID t = ls_currentID s"
proof -
  let ?sid = "SessionID (job_Spec j)"
  let ?ids = "gm_get0 [] (ls_sessionToJobIdToSpec s) ?sid"
  have num: "numbered (gm_get0 [] (ls_jobs s) ?sid) ?ids"
    using assms by (simp add: ls_inv_def)
  then have len: "length ?ids = length (gm_get0 [] (ls_jobs s) ?sid)" by (simp add: numbered_def)
  have "length (gm_put (int (length ?ids)) (job_Spec j) ?ids) = Suc (length ?ids)"
    using num by (simp add: numbered_def)
  with len show ?thesis
    using assms by (cases "gm_get (ls_sessionToJobIdToSpec s) ?sid")
      (auto simp: ls_AddJob_def Let_def gm_get0_def)
qed

lemma ls_inv_AddJob:
  assumes "ls_inv s" and "SessionID (job_Spec j) \<le> ls_currentID s"
  shows "ls_inv (snd (ls_AddJob j s))"
proof -
  obtain t where t: "ls_AddJob j s = (Ret (), t)"
    "ls_jobs t = gm_put (SessionID (job_Spec j)) (gm_get0 [] (ls_jobs s) (SessionID (job_Spec j)) @ [j]) (ls_jobs s)"
    "\<forall>sid. gm_get0 [] (ls_sessionToJobIdToSpec t) sid =
         (if sid = SessionID (job_Spec j)
          then gm_put (int (length (gm_get0 [] (ls_sessionToJobIdToSpec s) sid))) (job_Spec j)
                 (gm_get0 [] (ls_sessionToJobIdToSpec s) sid)
          else gm_get0 [] (ls_sessionToJobIdToSpec s) sid)"
    "ls_status t = ls_status s" "ls_mutex t = ls_mutex s" "ls_currentID t = ls_currentID s"
    using ls_AddJob_run [OF assms(1)] by blast
  have "ls_inv t"
    unfolding ls_inv_def t(2,4-6) using assms t(3) by (auto simp: ls_inv_def intro: numbered_snoc)
  with t(1) show ?thesis by simp
qed

lemma ls_inv_setters:
  "ls_inv s \<Longrightarrow> ls_inv (snd (ls_SetResult js r s))"
  "ls_inv s \<Longrightarrow> ls_inv (snd (ls_SetJobInfo js i s))"
  "ls_inv s \<Longrightarrow> SessionID js \<le> ls_currentID s \<Longrightarrow> ls_inv (snd (ls_SetStatus js st s))"
  by (simp_all add: ls_SetResult_def ls_SetJobInfo_def ls_SetStatus_def) (auto simp: ls_inv_def)

lemma ls_getters_pure:
  "snd (ls_GetResult js s) = s" "snd (ls_GetJobSpecByRepoId a b s) = s" "snd (ls_GetJobList a s) = s"
  "snd (ls_GetJobInfo js s) = s" "snd (ls_GetStatus js s) = s" "snd (ls_GetSessionStatus a s) = s"
  by (auto simp: ls_GetResult_def ls_GetJobSpecByRepoId_def ls_GetJobList_def ls_GetJobInfo_def
      ls_GetStatus_def ls_GetSessionStatus_def with_lock_def Let_def split: option.splits prod.splits)

section \<open>The contract\<close>

definition ls_view :: "LocalState \<Rightarrow> job_view" where
  "ls_view s =
     \<lparr>jv_status = gm_get (ls_status s), jv_result = gm_get (ls_result s), jv_info = gm_get (ls_info s),
      jv_specs = (\<lambda>sid. job_Spec ` set (gm_get0 [] (ls_jobs s) sid))\<rparr>"

definition ls_issued :: "LocalState \<Rightarrow> int \<Rightarrow> bool" where
  "ls_issued s sid \<longleftrightarrow> gm_get (ls_jobs s) sid \<noteq> None"

lemma ls_issued_le: "ls_inv s \<Longrightarrow> ls_issued s sid \<Longrightarrow> sid \<le> ls_currentID s"
  by (auto simp: ls_inv_def ls_issued_def not_le [symmetric])

lemma set_ls_session_statuses:
  assumes "ls_inv s"
  shows "set (ls_session_statuses s sid) = session_statuses (ls_view s) sid"
proof -
  have "gm_wf (ls_status s)" using assms by (simp add: ls_inv_def)
  then show ?thesis
    by (force simp: ls_session_statuses_def session_statuses_def ls_view_def gm_in_set_iff)
qed

lemma ls_GetSessionStatus_run:
  "ls_inv s \<Longrightarrow> ls_GetSessionStatus sid s =
     (if ls_session_statuses s sid = []
      then (Ret (Inl (ErrMsg (''no jobs found for session '' @ Itoa sid))), s)
      else (Ret (Inr (summarize (ls_session_statuses s sid))), s))"
  using count_statuses_total [of "ls_session_statuses s sid" init_counts 0]
  by (auto simp: ls_GetSessionStatus_def Let_def summarize_def split: prod.splits)

interpretation ls: job_state Local_JobState ls_inv ls_view ls_issued "\<lambda>s. ls_currentID s < max_int64"
  "\<lambda>_ _. True" "\<lambda>_. True" "\<lambda>_. True" "\<lambda>_. True" "\<lambda>_. True"
proof (unfold_locales, goal_cases)
  case (1 s)
  let ?i = "ls_currentID s + 1"
  have fresh: "gm_get (ls_jobs s) ?i = None" "\<And>js. SessionID js = ?i \<Longrightarrow> gm_get (ls_status s) js = None"
    using 1(1) by (simp_all add: ls_inv_def)
  have empty: "gm_get0 [] (ls_jobs s) ?i = []" using fresh(1) by (simp add: gm_get0_def)
  then have "ls_view (snd (ls_NextID s)) = ls_view s"
    unfolding ls_NextID_run [OF 1] by (simp add: ls_view_def fun_eq_iff)
  moreover have "ls_issued (snd (ls_NextID s)) = (ls_issued s)(?i := True)"
    unfolding ls_NextID_run [OF 1] by (auto simp: ls_issued_def fun_eq_iff)
  ultimately show ?case
    using ls_inv_NextID [OF 1] fresh empty ls_NextID_run [OF 1]
    by (auto simp: Local_JobState_def ls_issued_def ls_view_def session_statuses_def)
next
  case (2 s js st)
  then show ?case
    using ls_inv_setters(3) [of s js st] ls_issued_le [of s "SessionID js"]
    by (auto simp: Local_JobState_def ls_SetStatus_def ls_view_def ls_issued_def fun_eq_iff)
next
  case (3 s js)
  then show ?case
    by (auto simp: Local_JobState_def ls_GetStatus_def ls_view_def split: option.splits)
next
  case (4 s js r)
  then show ?case
    using ls_inv_setters(1) [of s js r]
    by (auto simp: Local_JobState_def ls_SetResult_def ls_view_def ls_issued_def fun_eq_iff)
next
  case (5 s js)
  then show ?case
    by (auto simp: Local_JobState_def ls_GetResult_def ls_view_def split: option.splits)
next
  case (6 s js i)
  then show ?case
    using ls_inv_setters(2) [of s js i]
    by (auto simp: Local_JobState_def ls_SetJobInfo_def ls_view_def ls_issued_def fun_eq_iff)
next
  case (7 s js)
  then show ?case
    by (auto simp: Local_JobState_def ls_GetJobInfo_def ls_view_def split: option.splits)
next
  case (8 s j n)
  obtain t where "ls_AddJob j s = (Ret (), t)"
    "ls_jobs t = gm_put (SessionID (job_Spec j)) (gm_get0 [] (ls_jobs s) (SessionID (job_Spec j)) @ [j]) (ls_jobs s)"
    "ls_info t = ls_info s" "ls_status t = ls_status s" "ls_result t = ls_result s"
    using ls_AddJob_run [OF 8(1)] by blast
  moreover from this have "ls_inv t"
    using ls_inv_AddJob [OF 8(1) ls_issued_le [OF 8(1,2)]] by simp
  ultimately show ?case
    using 8(2) by (auto simp: Local_JobState_def ls_view_def ls_issued_def fun_eq_iff)
next
  case (9 s sid)
  then show ?case
    by (auto simp: Local_JobState_def ls_GetJobList_def ls_issued_def ls_view_def gm_get0_def)
next
  case (10 s sid)
  then have "ls_session_statuses s sid \<noteq> []"
    using set_ls_session_statuses [OF 10(1), of sid] by auto
  then show ?case
    using 10(1) set_ls_session_statuses [OF 10(1), of sid]
    by (auto simp: Local_JobState_def ls_GetSessionStatus_run summarize_overall)
qed

end
