(* ===== verification/Artifact_Store.thy ===== *)
theory Artifact_Store
  imports Common_Types
begin

text \<open>
  The artifact stores, package \<^verbatim>\<open>pkg/artifactstore\<close>.  An interface value
  \<^verbatim>\<open>artifactstore.Store\<close> is a record of its methods over some store state.  The two
  implementations are modelled: the in-memory store and the store on a MinIO server.  The
  MinIO client library is a parameter, a record of the client calls that the code makes.

  The locale \<open>artifact_store\<close> states what the rest of the system relies on: what was
  saved can be read back, under a key that depends on the session or the job only, and
  saving under one key leaves every other artifact alone.  The in-memory store satisfies it
  outright; the MinIO store satisfies it for every client whose objects behave like a map.
\<close>

section \<open>The interface\<close>

record 's Store =
  GetQueryPack :: "ArtifactLocation \<Rightarrow> ('s, bytes result) prog"
  SaveQueryPack :: "int \<Rightarrow> bytes \<Rightarrow> ('s, ArtifactLocation result) prog"
  GetResult :: "ArtifactLocation \<Rightarrow> ('s, bytes result) prog"
  GetResultSize :: "ArtifactLocation \<Rightarrow> ('s, int result) prog"
  SaveResult :: "JobSpec \<Rightarrow> bytes \<Rightarrow> ('s, ArtifactLocation result) prog"

text \<open>The package variables \<^verbatim>\<open>AF_BUCKETNAME_RESULTS\<close> and \<^verbatim>\<open>AF_BUCKETNAME_PACKS\<close>.\<close>

record BucketNames =
  AF_BUCKETNAME_RESULTS :: string
  AF_BUCKETNAME_PACKS :: string

definition AF_BUCKETNAMES :: BucketNames where
  "AF_BUCKETNAMES = \<lparr>AF_BUCKETNAME_RESULTS = ''mrvabucket'', AF_BUCKETNAME_PACKS = ''mrvabucket''\<rparr>"

definition pack_key :: "int \<Rightarrow> string" where
  "pack_key sessionId = Itoa sessionId @ ''-packs''"

definition result_key :: "JobSpec \<Rightarrow> string" where
  "result_key js = Itoa (SessionID js) @ ''-results-'' @ fmt_nwo (NWO js)"

section \<open>The in-memory store\<close>

record InMemoryArtifactStore =
  mem_packs :: "(string, bytes) gomap"
  mem_results :: "(string, bytes) gomap"

definition NewInMemoryArtifactStore :: InMemoryArtifactStore where
  "NewInMemoryArtifactStore = \<lparr>mem_packs = [], mem_results = []\<rparr>"

definition mem_GetQueryPack :: "ArtifactLocation \<Rightarrow> (InMemoryArtifactStore, bytes result) prog" where
  "mem_GetQueryPack location store =
     (let key = loc_Key location in
      case gm_get (mem_packs store) key of
        None \<Rightarrow> (Ret (Inl (ErrMsg (''query pack not found: '' @ key))), store)
      | Some data \<Rightarrow> (Ret (Inr data), store))"

definition mem_SaveQueryPack ::
  "BucketNames \<Rightarrow> int \<Rightarrow> bytes \<Rightarrow> (InMemoryArtifactStore, ArtifactLocation result) prog" where
  "mem_SaveQueryPack bkt sessionId data store =
     (let key = pack_key sessionId;
          store' = store\<lparr>mem_packs := gm_put key data (mem_packs store)\<rparr>;
          location = \<lparr>loc_Key = key, loc_Bucket = AF_BUCKETNAME_PACKS bkt\<rparr>
      in (Ret (Inr location), store'))"

definition mem_GetResult :: "ArtifactLocation \<Rightarrow> (InMemoryArtifactStore, bytes result) prog" where
  "mem_GetResult location store =
     (let key = loc_Key location in
      case gm_get (mem_results store) key of
        None \<Rightarrow> (Ret (Inl (ErrMsg (''result not found: '' @ key))), store)
      | Some data \<Rightarrow> (Ret (Inr data), store))"

definition mem_GetResultSize :: "ArtifactLocation \<Rightarrow> (InMemoryArtifactStore, int result) prog" where
  "mem_GetResultSize location store =
     (let key = loc_Key location in
      case gm_get (mem_results store) key of
        None \<Rightarrow> (Ret (Inl (ErrMsg (''result not found: '' @ key))), store)
      | Some data \<Rightarrow> (Ret (Inr (int (length data))), store))"

definition mem_SaveResult ::
  "BucketNames \<Rightarrow> JobSpec \<Rightarrow> bytes \<Rightarrow> (InMemoryArtifactStore, ArtifactLocation result) prog" where
  "mem_SaveResult bkt jobSpec data store =
     (let key = result_key jobSpec;
          store' = store\<lparr>mem_results := gm_put key data (mem_results store)\<rparr>;
          location = \<lparr>loc_Key = key, loc_Bucket = AF_BUCKETNAME_RESULTS bkt\<rparr>
      in (Ret (Inr location), store'))"

definition InMemory_Store :: "BucketNames \<Rightarrow> InMemoryArtifactStore Store" where
  "InMemory_Store bkt =
     \<lparr>GetQueryPack = mem_GetQueryPack, SaveQueryPack = mem_SaveQueryPack bkt,
      GetResult = mem_GetResult, GetResultSize = mem_GetResultSize,
      SaveResult = mem_SaveResult bkt\<rparr>"

lemmas mem_store_defs =
  mem_GetQueryPack_def mem_SaveQueryPack_def mem_GetResult_def mem_GetResultSize_def
  mem_SaveResult_def InMemory_Store_def

section \<open>The MinIO store\<close>

text \<open>
  The client calls the code makes.  \<open>GetObject\<close> returns an error or the object, and
  reading the object to its end returns an error or its bytes.  \<open>MakeBucket\<close> fails with
  an \<^verbatim>\<open>ErrorResponse\<close>, of which the code reads the field \<^verbatim>\<open>Code\<close>.
\<close>

record 'm minio_client =
  BucketExists :: "string \<Rightarrow> ('m, bool result) prog"
  MakeBucket :: "string \<Rightarrow> ('m, string option) prog"
  GetObject_ReadAll :: "string \<Rightarrow> string \<Rightarrow> ('m, bytes result result) prog"
  StatObject_Size :: "string \<Rightarrow> string \<Rightarrow> ('m, int result) prog"
  PutObject :: "string \<Rightarrow> string \<Rightarrow> bytes \<Rightarrow> string \<Rightarrow> ('m, unit result) prog"

definition CreateMinIOBucketIfNotExists :: "'m minio_client \<Rightarrow> string \<Rightarrow> ('m, unit result) prog" where
  "CreateMinIOBucketIfNotExists client bucketName =
     bindP (BucketExists client bucketName) (\<lambda>r.
       case r of
         Inl err \<Rightarrow> retP (Inl err)
       | Inr exists \<Rightarrow>
           if \<not> exists then
             bindP (MakeBucket client bucketName) (\<lambda>e.
               case e of
                 Some code \<Rightarrow>
                   if code = ''BucketAlreadyOwnedByYou'' then retP (Inr ())
                   else retP (Inl (ExtError code))
               | None \<Rightarrow> retP (Inr ()))
           else retP (Inr ()))"

definition getArtifact :: "'m minio_client \<Rightarrow> ArtifactLocation \<Rightarrow> ('m, bytes result) prog" where
  "getArtifact client location =
     bindP (GetObject_ReadAll client (loc_Bucket location) (loc_Key location)) (\<lambda>r.
       case r of
         Inl err \<Rightarrow> retP (Inl err)
       | Inr (Inl err) \<Rightarrow> retP (Inl err)
       | Inr (Inr data) \<Rightarrow> retP (Inr data))"

text \<open>
  \<^verbatim>\<open>saveArtifact\<close> only logs when the bucket is missing or cannot be looked up, and
  goes on to write.
\<close>

definition saveArtifact ::
  "'m minio_client \<Rightarrow> string \<Rightarrow> string \<Rightarrow> bytes \<Rightarrow> string \<Rightarrow> ('m, ArtifactLocation result) prog" where
  "saveArtifact client bucket key data contentType =
     bindP (BucketExists client bucket) (\<lambda>_.
     bindP (PutObject client bucket key data contentType) (\<lambda>r.
       case r of
         Inl err \<Rightarrow> retP (Inl err)
       | Inr _ \<Rightarrow> retP (Inr \<lparr>loc_Key = key, loc_Bucket = bucket\<rparr>)))"

definition minio_GetQueryPack :: "'m minio_client \<Rightarrow> ArtifactLocation \<Rightarrow> ('m, bytes result) prog" where
  "minio_GetQueryPack client location = getArtifact client location"

definition minio_SaveQueryPack ::
  "BucketNames \<Rightarrow> 'm minio_client \<Rightarrow> int \<Rightarrow> bytes \<Rightarrow> ('m, ArtifactLocation result) prog" where
  "minio_SaveQueryPack bkt client jobId data =
     saveArtifact client (AF_BUCKETNAME_PACKS bkt) (pack_key jobId) data ''application/gzip''"

definition minio_GetResult :: "'m minio_client \<Rightarrow> ArtifactLocation \<Rightarrow> ('m, bytes result) prog" where
  "minio_GetResult client location = getArtifact client location"

definition minio_GetResultSize :: "'m minio_client \<Rightarrow> ArtifactLocation \<Rightarrow> ('m, int result) prog" where
  "minio_GetResultSize client location =
     bindP (StatObject_Size client (loc_Bucket location) (loc_Key location)) (\<lambda>r.
       case r of
         Inl err \<Rightarrow> retP (Inl err)
       | Inr sz \<Rightarrow>
           if sz > max_int32
           then retP (Inl (ErrMsg (''object size '' @ Itoa sz @ '' exceeds max int size'')))
           else retP (Inr sz))"

definition minio_SaveResult ::
  "BucketNames \<Rightarrow> 'm minio_client \<Rightarrow> JobSpec \<Rightarrow> bytes \<Rightarrow> ('m, ArtifactLocation result) prog" where
  "minio_SaveResult bkt client jobSpec data =
     saveArtifact client (AF_BUCKETNAME_RESULTS bkt) (result_key jobSpec) data ''application/zip''"

definition MinIO_Store :: "BucketNames \<Rightarrow> 'm minio_client \<Rightarrow> 'm Store" where
  "MinIO_Store bkt client =
     \<lparr>GetQueryPack = minio_GetQueryPack client, SaveQueryPack = minio_SaveQueryPack bkt client,
      GetResult = minio_GetResult client, GetResultSize = minio_GetResultSize client,
      SaveResult = minio_SaveResult bkt client\<rparr>"

lemmas minio_store_defs =
  getArtifact_def saveArtifact_def minio_GetQueryPack_def minio_SaveQueryPack_def
  minio_GetResult_def minio_GetResultSize_def minio_SaveResult_def MinIO_Store_def

section \<open>Keys\<close>

lemma pack_key_inject [simp]: "pack_key i = pack_key j \<longleftrightarrow> i = j"
  by (simp add: pack_key_def Itoa_inject)

lemma pack_key_not_result_key [simp]: "pack_key i \<noteq> result_key js"
  by (simp add: pack_key_def result_key_def Itoa_dash_cancel)

lemma result_key_not_pack_key [simp]: "result_key js \<noteq> pack_key i"
  by (metis pack_key_not_result_key)

lemma result_key_inject_fmt:
  "result_key a = result_key b \<longleftrightarrow> SessionID a = SessionID b \<and> fmt_nwo (NWO a) = fmt_nwo (NWO b)"
  by (simp add: result_key_def Itoa_dash_cancel)

definition blank_free_owner :: "JobSpec \<Rightarrow> bool" where
  "blank_free_owner js \<longleftrightarrow> CHR '' '' \<notin> set (Owner (NWO js))"

lemma result_key_inject:
  assumes "blank_free_owner a" and "blank_free_owner b"
  shows "result_key a = result_key b \<longleftrightarrow> a = b"
  using assms fmt_nwo_inject [of "NWO a" "NWO b"]
  by (auto simp: result_key_inject_fmt blank_free_owner_def)

section \<open>The contract\<close>

definition bucket_of :: "BucketNames \<Rightarrow> string \<Rightarrow> bool" where
  "bucket_of bkt b \<longleftrightarrow> b = AF_BUCKETNAME_RESULTS bkt \<or> b = AF_BUCKETNAME_PACKS bkt"

text \<open>
  \<open>pack_at\<close> and \<open>result_at\<close> are the artifacts a client can observe.  Two views are the
  same when every location holds the same bytes.  \<open>bucket_ok\<close> holds of the buckets that the
  store uses.
\<close>

fun save_results :: "'s Store \<Rightarrow> (JobSpec \<times> bytes) list \<Rightarrow> 's \<Rightarrow> 's" where
  "save_results S [] s = s"
| "save_results S ((js, d) # rs) s = save_results S rs (snd (SaveResult S js d s))"

locale artifact_store =
  fixes S :: "'s Store"
    and ok :: "'s \<Rightarrow> bool"
    and pack_at :: "'s \<Rightarrow> ArtifactLocation \<Rightarrow> bytes option"
    and result_at :: "'s \<Rightarrow> ArtifactLocation \<Rightarrow> bytes option"
    and bucket_ok :: "string \<Rightarrow> bool"
  assumes get_pack_Some: "ok s \<Longrightarrow> pack_at s l = Some d \<Longrightarrow>
      \<exists>t. GetQueryPack S l s = (Ret (Inr d), t) \<and> ok t \<and> pack_at t = pack_at s \<and> result_at t = result_at s"
    and get_pack_None: "ok s \<Longrightarrow> pack_at s l = None \<Longrightarrow>
      \<exists>e t. GetQueryPack S l s = (Ret (Inl e), t) \<and> ok t \<and> pack_at t = pack_at s \<and> result_at t = result_at s"
    and get_result_Some: "ok s \<Longrightarrow> result_at s l = Some d \<Longrightarrow>
      \<exists>t. GetResult S l s = (Ret (Inr d), t) \<and> ok t \<and> pack_at t = pack_at s \<and> result_at t = result_at s"
    and get_result_None: "ok s \<Longrightarrow> result_at s l = None \<Longrightarrow>
      \<exists>e t. GetResult S l s = (Ret (Inl e), t) \<and> ok t \<and> pack_at t = pack_at s \<and> result_at t = result_at s"
    and get_size_Some: "ok s \<Longrightarrow> result_at s l = Some d \<Longrightarrow> int (length d) \<le> max_int32 \<Longrightarrow>
      \<exists>t. GetResultSize S l s = (Ret (Inr (int (length d))), t) \<and> ok t \<and> pack_at t = pack_at s
          \<and> result_at t = result_at s"
    and get_size_None: "ok s \<Longrightarrow> result_at s l = None \<Longrightarrow>
      \<exists>e t. GetResultSize S l s = (Ret (Inl e), t) \<and> ok t \<and> pack_at t = pack_at s
          \<and> result_at t = result_at s"
    and save_pack: "ok s \<Longrightarrow>
      \<exists>l t. SaveQueryPack S i d s = (Ret (Inr l), t) \<and> ok t \<and> loc_Key l = pack_key i
          \<and> bucket_ok (loc_Bucket l) \<and> pack_at t l = Some d
          \<and> (\<forall>l'. loc_Key l' \<noteq> pack_key i \<longrightarrow> pack_at t l' = pack_at s l' \<and> result_at t l' = result_at s l')
          \<and> dom (pack_at s) \<subseteq> dom (pack_at t) \<and> dom (result_at s) \<subseteq> dom (result_at t)"
    and save_result: "ok s \<Longrightarrow>
      \<exists>l t. SaveResult S js d s = (Ret (Inr l), t) \<and> ok t \<and> loc_Key l = result_key js
          \<and> bucket_ok (loc_Bucket l) \<and> result_at t l = Some d
          \<and> (\<forall>l'. loc_Key l' \<noteq> result_key js \<longrightarrow> pack_at t l' = pack_at s l' \<and> result_at t l' = result_at s l')
          \<and> dom (pack_at s) \<subseteq> dom (pack_at t) \<and> dom (result_at s) \<subseteq> dom (result_at t)"
begin

lemma save_results_frame:
  "ok s \<Longrightarrow> ok (save_results S rs s) \<and>
     (\<forall>l. (\<forall>js\<in>fst ` set rs. loc_Key l \<noteq> result_key js) \<longrightarrow>
        pack_at (save_results S rs s) l = pack_at s l \<and> result_at (save_results S rs s) l = result_at s l)"
proof (induction rs arbitrary: s)
  case Nil
  then show ?case by simp
next
  case (Cons p rs)
  obtain js d where p: "p = (js, d)" by (cases p)
  obtain l t where t: "SaveResult S js d s = (Ret (Inr l), t)" "ok t"
    "\<forall>l'. loc_Key l' \<noteq> result_key js \<longrightarrow> pack_at t l' = pack_at s l' \<and> result_at t l' = result_at s l'"
    using save_result [OF Cons.prems, of js d] by blast
  from Cons.IH [OF t(2)] t show ?case by (simp add: p)
qed

text \<open>A saved query pack is read back, also after the results of any jobs are saved.\<close>

lemma pack_survives_results:
  assumes "ok s" and "SaveQueryPack S i d s = (Ret (Inr l), t)"
  shows "fst (GetQueryPack S l (save_results S rs t)) = Ret (Inr d)"
proof -
  from save_pack [OF assms(1), of i d] assms(2)
  have "ok t" and key: "loc_Key l = pack_key i" and at: "pack_at t l = Some d" by auto
  from save_results_frame [OF \<open>ok t\<close>, of rs] key at
  have "ok (save_results S rs t)" and "pack_at (save_results S rs t) l = Some d" by simp_all
  from get_pack_Some [OF this] show ?thesis by auto
qed

text \<open>
  A saved result is kept while the results of other jobs are saved, provided that no owner name
  holds a blank.
\<close>

lemma result_kept:
  assumes "ok s" and "SaveResult S js d s = (Ret (Inr l), t)"
    and "blank_free_owner js" and "\<forall>js'\<in>fst ` set rs. js' \<noteq> js \<and> blank_free_owner js'"
  shows "ok (save_results S rs t)" and "result_at (save_results S rs t) l = Some d"
proof -
  from save_result [OF assms(1), of js d] assms(2)
  have "ok t" and key: "loc_Key l = result_key js" and at: "result_at t l = Some d" by auto
  from assms(3,4) have "\<forall>js'\<in>fst ` set rs. loc_Key l \<noteq> result_key js'"
    using key result_key_inject by metis
  with save_results_frame [OF \<open>ok t\<close>, of rs] at
  show "ok (save_results S rs t)" and "result_at (save_results S rs t) l = Some d" by simp_all
qed

end

section \<open>The implementations satisfy the contract\<close>

interpretation mem: artifact_store "InMemory_Store bkt" "\<lambda>_. True"
  "\<lambda>s l. gm_get (mem_packs s) (loc_Key l)" "\<lambda>s l. gm_get (mem_results s) (loc_Key l)"
  "bucket_of bkt"
  by unfold_locales (auto simp: mem_store_defs bucket_of_def Let_def dom_def)

text \<open>
  What the code relies on of an object store in which the buckets of the store exist: as long
  as it is healthy, an object that was put into one of these buckets can be read and has its
  length as size, a read of a missing object fails while it is opened or read, and calls
  leave the other objects alone.  Nothing is said about putting an object into another bucket.
\<close>

definition minio_laws ::
  "BucketNames \<Rightarrow> 'm minio_client \<Rightarrow> ('m \<Rightarrow> bool) \<Rightarrow> ('m \<Rightarrow> string \<Rightarrow> string \<Rightarrow> bytes option) \<Rightarrow> bool" where
  "minio_laws bkt C healthy obj \<longleftrightarrow>
     (\<forall>m b. healthy m \<and> bucket_of bkt b \<longrightarrow>
        (\<exists>m'. BucketExists C b m = (Ret (Inr True), m') \<and> healthy m' \<and> obj m' = obj m)) \<and>
     (\<forall>m b k d ct. healthy m \<and> bucket_of bkt b \<longrightarrow> (\<exists>m'. PutObject C b k d ct m = (Ret (Inr ()), m') \<and> healthy m' \<and>
        obj m' b k = Some d \<and> (\<forall>b' k'. (b', k') \<noteq> (b, k) \<longrightarrow> obj m' b' k' = obj m b' k'))) \<and>
     (\<forall>m b k d. healthy m \<and> obj m b k = Some d \<longrightarrow>
        (\<exists>m'. GetObject_ReadAll C b k m = (Ret (Inr (Inr d)), m') \<and> healthy m' \<and> obj m' = obj m)) \<and>
     (\<forall>m b k. healthy m \<and> obj m b k = None \<longrightarrow>
        (\<exists>e m'. GetObject_ReadAll C b k m \<in> {(Ret (Inl e), m'), (Ret (Inr (Inl e)), m')} \<and> healthy m'
           \<and> obj m' = obj m)) \<and>
     (\<forall>m b k d. healthy m \<and> obj m b k = Some d \<longrightarrow>
        (\<exists>m'. StatObject_Size C b k m = (Ret (Inr (int (length d))), m') \<and> healthy m' \<and> obj m' = obj m)) \<and>
     (\<forall>m b k. healthy m \<and> obj m b k = None \<longrightarrow>
        (\<exists>e m'. StatObject_Size C b k m = (Ret (Inl e), m') \<and> healthy m' \<and> obj m' = obj m))"

lemma minio_lawsD:
  assumes "minio_laws bkt C healthy obj" and "healthy m"
  shows "bucket_of bkt b \<Longrightarrow> \<exists>m'. BucketExists C b m = (Ret (Inr True), m') \<and> healthy m' \<and> obj m' = obj m"
    and "bucket_of bkt b \<Longrightarrow> \<exists>m'. PutObject C b k d ct m = (Ret (Inr ()), m') \<and> healthy m' \<and>
        obj m' b k = Some d \<and> (\<forall>b' k'. (b', k') \<noteq> (b, k) \<longrightarrow> obj m' b' k' = obj m b' k')"
    and "obj m b k = Some d \<Longrightarrow>
        \<exists>m'. GetObject_ReadAll C b k m = (Ret (Inr (Inr d)), m') \<and> healthy m' \<and> obj m' = obj m"
    and "obj m b k = None \<Longrightarrow>
        \<exists>e m'. GetObject_ReadAll C b k m \<in> {(Ret (Inl e), m'), (Ret (Inr (Inl e)), m')} \<and> healthy m'
           \<and> obj m' = obj m"
    and "obj m b k = Some d \<Longrightarrow>
        \<exists>m'. StatObject_Size C b k m = (Ret (Inr (int (length d))), m') \<and> healthy m' \<and> obj m' = obj m"
    and "obj m b k = None \<Longrightarrow>
        \<exists>e m'. StatObject_Size C b k m = (Ret (Inl e), m') \<and> healthy m' \<and> obj m' = obj m"
  using assms unfolding minio_laws_def by meson+

lemma minio_save:
  assumes L: "minio_laws bkt C healthy obj" and h: "healthy m" and b: "bucket_of bkt b"
  shows "\<exists>m'. saveArtifact C b k d ct m = (Ret (Inr \<lparr>loc_Key = k, loc_Bucket = b\<rparr>), m') \<and> healthy m' \<and>
     obj m' b k = Some d \<and> (\<forall>b' k'. k' \<noteq> k \<longrightarrow> obj m' b' k' = obj m b' k') \<and>
     dom (\<lambda>l. obj m (loc_Bucket l) (loc_Key l)) \<subseteq> dom (\<lambda>l. obj m' (loc_Bucket l) (loc_Key l))"
proof -
  obtain m1 where m1: "BucketExists C b m = (Ret (Inr True), m1)" "healthy m1" "obj m1 = obj m"
    using minio_lawsD(1) [OF L h b] by blast
  obtain m2 where m2: "PutObject C b k d ct m1 = (Ret (Inr ()), m2)" "healthy m2" "obj m2 b k = Some d"
    "\<forall>b' k'. (b', k') \<noteq> (b, k) \<longrightarrow> obj m2 b' k' = obj m1 b' k'"
    using minio_lawsD(2) [OF L m1(2) b] by blast
  have "obj m2 b' k' \<noteq> None" if "obj m1 b' k' \<noteq> None" for b' k'
    using m2(3,4) that by (cases "(b', k') = (b, k)") auto
  with m1 m2 show ?thesis by (auto simp: saveArtifact_def)
qed

lemma minio_get:
  assumes L: "minio_laws bkt C healthy obj" and h: "healthy m"
  shows "obj m (loc_Bucket l) (loc_Key l) = Some d \<Longrightarrow>
      \<exists>t. getArtifact C l m = (Ret (Inr d), t) \<and> healthy t \<and> obj t = obj m"
    and "obj m (loc_Bucket l) (loc_Key l) = None \<Longrightarrow>
      \<exists>e t. getArtifact C l m = (Ret (Inl e), t) \<and> healthy t \<and> obj t = obj m"
  using minio_lawsD(3) [OF L h, of "loc_Bucket l" "loc_Key l" d]
    minio_lawsD(4) [OF L h, of "loc_Bucket l" "loc_Key l"]
  by (fastforce simp: getArtifact_def)+

lemma minio_artifact_store:
  assumes L: "minio_laws bkt C healthy obj"
  shows "artifact_store (MinIO_Store bkt C) healthy
     (\<lambda>m l. obj m (loc_Bucket l) (loc_Key l)) (\<lambda>m l. obj m (loc_Bucket l) (loc_Key l))
     (bucket_of bkt)"
proof (unfold_locales, goal_cases)
  case (1 s l d)
  show ?case using minio_get(1) [OF L 1] by (auto simp: minio_GetQueryPack_def MinIO_Store_def)
next
  case (2 s l)
  show ?case using minio_get(2) [OF L 2] by (auto simp: minio_GetQueryPack_def MinIO_Store_def)
next
  case (3 s l d)
  show ?case using minio_get(1) [OF L 3] by (auto simp: minio_GetResult_def MinIO_Store_def)
next
  case (4 s l)
  show ?case using minio_get(2) [OF L 4] by (auto simp: minio_GetResult_def MinIO_Store_def)
next
  case (5 s l d)
  then show ?case using minio_lawsD(5) [OF L 5(1) 5(2)] by (auto simp: minio_GetResultSize_def MinIO_Store_def)
next
  case (6 s l)
  then show ?case using minio_lawsD(6) [OF L 6(1) 6(2)] by (auto simp: minio_GetResultSize_def MinIO_Store_def)
next
  case (7 s i d)
  then show ?case
    using minio_save [OF L, of s "AF_BUCKETNAME_PACKS bkt" "pack_key i" d "''application/gzip''"]
    by (fastforce simp: minio_SaveQueryPack_def MinIO_Store_def bucket_of_def)
next
  case (8 s js d)
  then show ?case
    using minio_save [OF L, of s "AF_BUCKETNAME_RESULTS bkt" "result_key js" d "''application/zip''"]
    by (fastforce simp: minio_SaveResult_def MinIO_Store_def bucket_of_def)
qed

section \<open>Properties\<close>

text \<open>An object store in memory satisfies the laws.\<close>

definition list_minio :: "(string \<times> string, bytes) gomap minio_client" where
  "list_minio =
     \<lparr>BucketExists = (\<lambda>_. retP (Inr True)), MakeBucket = (\<lambda>_. retP None),
      GetObject_ReadAll = (\<lambda>b k m. (Ret (Inr (case gm_get m (b, k) of None \<Rightarrow> Inl (ExtError ''NoSuchKey'') | Some d \<Rightarrow> Inr d)), m)),
      StatObject_Size = (\<lambda>b k m. (Ret (case gm_get m (b, k) of None \<Rightarrow> Inl (ExtError ''NoSuchKey'') | Some d \<Rightarrow> Inr (int (length d))), m)),
      PutObject = (\<lambda>b k d ct m. (Ret (Inr ()), gm_put (b, k) d m))\<rparr>"

lemma list_minio_laws: "minio_laws bkt list_minio (\<lambda>_. True) (\<lambda>m b k. gm_get m (b, k))"
  by (auto simp: minio_laws_def list_minio_def fun_eq_iff)

interpretation minio: artifact_store "MinIO_Store bkt list_minio" "\<lambda>_. True"
  "\<lambda>m l. gm_get m (loc_Bucket l, loc_Key l)" "\<lambda>m l. gm_get m (loc_Bucket l, loc_Key l)" "bucket_of bkt"
  by (rule minio_artifact_store [OF list_minio_laws])

text \<open>
  C15. Artifacts are kept, for repositories whose owners have no blank in their names.  On an
  object store that works and in which the store's buckets exist, a query pack and the result of
  a job that were saved are read back unchanged after the results of any other such jobs were saved;
  the size of a result of at most 2147483647 bytes is reported as its length, and that of a larger one
  is refused.
\<close>

theorem artifacts_kept:
  assumes "minio_laws bkt C healthy obj" and "healthy m"
    and "blank_free_owner js" and "\<forall>js' \<in> fst ` set rs. js' \<noteq> js \<and> blank_free_owner js'"
  shows "\<exists>p m1 l m2. minio_SaveQueryPack bkt C sid pack m = (Ret (Inr p), m1) \<and> minio_SaveResult bkt C js d m1 = (Ret (Inr l), m2)
    \<and> fst (minio_GetQueryPack C p (save_results (MinIO_Store bkt C) rs m2)) = Ret (Inr pack)
    \<and> fst (minio_GetResult C l (save_results (MinIO_Store bkt C) rs m2)) = Ret (Inr d)
    \<and> fst (minio_GetResultSize C l (save_results (MinIO_Store bkt C) rs m2)) =
        Ret (if int (length d) \<le> max_int32 then Inr (int (length d))
             else Inl (ErrMsg (''object size '' @ Itoa (int (length d)) @ '' exceeds max int size'')))"
proof -
  note S = minio_artifact_store [OF assms(1)]
  obtain p m1 where p: "SaveQueryPack (MinIO_Store bkt C) sid pack m = (Ret (Inr p), m1)" "healthy m1"
    using artifact_store.save_pack [OF S assms(2), of sid pack] by blast
  obtain l m2 where l: "SaveResult (MinIO_Store bkt C) js d m1 = (Ret (Inr l), m2)"
    using artifact_store.save_result [OF S p(2), of js d] by blast
  let ?t = "save_results (MinIO_Store bkt C) rs m2"
  have "?t = save_results (MinIO_Store bkt C) ((js, d) # rs) m1" by (simp add: l)
  then have pack: "fst (GetQueryPack (MinIO_Store bkt C) p ?t) = Ret (Inr pack)"
    using artifact_store.pack_survives_results [OF S assms(2) p(1)] by metis
  have t: "healthy ?t" "obj ?t (loc_Bucket l) (loc_Key l) = Some d"
    using artifact_store.result_kept [OF S p(2) l assms(3,4)] by simp_all
  have "fst (minio_GetResult C l ?t) = Ret (Inr d)"
    using minio_get(1) [OF assms(1) t] by (auto simp: minio_GetResult_def)
  moreover have "fst (minio_GetResultSize C l ?t) = Ret (if int (length d) \<le> max_int32 then Inr (int (length d))
      else Inl (ErrMsg (''object size '' @ Itoa (int (length d)) @ '' exceeds max int size'')))"
    using minio_lawsD(5) [OF assms(1) t] by (auto simp: minio_GetResultSize_def)
  ultimately show ?thesis using p(1) l pack by (simp add: MinIO_Store_def)
qed

theorem artifacts_kept_witness:
  "\<exists>p m1 l m2. minio_SaveQueryPack AF_BUCKETNAMES list_minio 1 ''tgz'' [] = (Ret (Inr p), m1)
    \<and> minio_SaveResult AF_BUCKETNAMES list_minio \<lparr>SessionID = 1, NWO = \<lparr>Owner = ''o'', Repo = ''r''\<rparr>\<rparr> ''zip'' m1 = (Ret (Inr l), m2)
    \<and> fst (minio_GetResult list_minio l (save_results (MinIO_Store AF_BUCKETNAMES list_minio)
        [(\<lparr>SessionID = 1, NWO = \<lparr>Owner = ''o'', Repo = ''q''\<rparr>\<rparr>, ''other'')] m2)) = Ret (Inr ''zip'')"
  using artifacts_kept [OF list_minio_laws TrueI, where m = "[]" and js = "\<lparr>SessionID = 1, NWO = \<lparr>Owner = ''o'', Repo = ''r''\<rparr>\<rparr>"
      and rs = "[(\<lparr>SessionID = 1, NWO = \<lparr>Owner = ''o'', Repo = ''q''\<rparr>\<rparr>, ''other'')]" and d = "''zip''"
      and bkt = AF_BUCKETNAMES and sid = 1 and pack = "''tgz''"]
  by (fastforce simp: blank_free_owner_def)

text \<open>
  C38. The keys of results are not unique when an owner has a blank in its name: for
  instance, the results of the repository \<^verbatim>\<open>b c\<close> of the owner \<^verbatim>\<open>a\<close> and of the
  repository \<^verbatim>\<open>c\<close> of the owner \<^verbatim>\<open>a b\<close> go to the same key, and saving the second
  replaces the first.
\<close>

theorem blank_owner_overwrites:
  assumes "a = \<lparr>SessionID = sid, NWO = \<lparr>Owner = x, Repo = y @ '' '' @ z\<rparr>\<rparr>"
    and "b = \<lparr>SessionID = sid, NWO = \<lparr>Owner = x @ '' '' @ y, Repo = z\<rparr>\<rparr>"
  shows "\<exists>l s1. mem_SaveResult bkt a d s = (Ret (Inr l), s1)
    \<and> fst (mem_GetResult l (snd (mem_SaveResult bkt b d' s1))) = Ret (Inr d')"
  by (simp add: assms mem_store_defs Let_def result_key_def fmt_nwo_def)

theorem blank_owner_overwrites_witness:
  "\<exists>l s1. mem_SaveResult AF_BUCKETNAMES \<lparr>SessionID = 1, NWO = \<lparr>Owner = ''a'', Repo = ''b c''\<rparr>\<rparr> ''mine'' NewInMemoryArtifactStore = (Ret (Inr l), s1)
    \<and> fst (mem_GetResult l (snd (mem_SaveResult AF_BUCKETNAMES \<lparr>SessionID = 1, NWO = \<lparr>Owner = ''a b'', Repo = ''c''\<rparr>\<rparr> ''theirs'' s1))) = Ret (Inr ''theirs'')"
  using blank_owner_overwrites [where x = "''a''" and y = "''b''" and z = "''c''" and sid = 1, OF refl refl] by simp

end
