(* ===== verification/Go_Json.thy ===== *)
theory Go_Json
  imports Go_Strings
begin

text \<open>
  The part of Go's \<^verbatim>\<open>encoding/json\<close> that the sources use: JSON values, their compact
  text as \<^verbatim>\<open>json.Marshal\<close> writes it (with HTML escaping and the replacement of
  invalid UTF-8), the parser behind \<^verbatim>\<open>json.Unmarshal\<close> and
  \<^verbatim>\<open>json.Decoder\<close>, and the decoding of an object into a struct (exact field names
  before case-insensitive ones, \<open>null\<close> leaves a field alone, a type error is reported after
  the remaining fields were decoded).

  The main result is the round trip: the text of a value whose strings are valid UTF-8 parses
  back to that value.  The parser recurses with fuel; the text of a value is always long enough
  to pay for its own parsing.
\<close>

datatype json =
    JNull
  | JBool bool
  | JNum string
  | JStr string
  | JArr "json list"
  | JObj "(string \<times> json) list"

section \<open>UTF-8\<close>

definition utf8_cont :: "char \<Rightarrow> bool" where
  "utf8_cont c \<longleftrightarrow> 128 \<le> (of_char c :: nat) \<and> (of_char c :: nat) \<le> 191"

definition utf8_second :: "nat \<Rightarrow> char \<Rightarrow> bool" where
  "utf8_second b0 c \<longleftrightarrow>
     (if b0 = 224 then 160 else if b0 = 240 then 144 else 128) \<le> (of_char c :: nat) \<and>
     (of_char c :: nat) \<le> (if b0 = 237 then 159 else if b0 = 244 then 143 else 191)"

text \<open>
  The number of bytes of the encoded character that a string starts with, or 0 when it does
  not start with a valid encoding (\<^verbatim>\<open>utf8.DecodeRune\<close> then gives the error rune and
  width 1).
\<close>

fun utf8_width :: "string \<Rightarrow> nat" where
  "utf8_width [] = 0"
| "utf8_width (c # cs) =
     (let b0 = of_char c :: nat in
      if b0 < 128 then 1
      else if 194 \<le> b0 \<and> b0 \<le> 223 then
        (case cs of c1 # _ \<Rightarrow> if utf8_cont c1 then 2 else 0 | _ \<Rightarrow> 0)
      else if 224 \<le> b0 \<and> b0 \<le> 239 then
        (case cs of c1 # c2 # _ \<Rightarrow> if utf8_second b0 c1 \<and> utf8_cont c2 then 3 else 0 | _ \<Rightarrow> 0)
      else if 240 \<le> b0 \<and> b0 \<le> 244 then
        (case cs of c1 # c2 # c3 # _ \<Rightarrow>
           if utf8_second b0 c1 \<and> utf8_cont c2 \<and> utf8_cont c3 then 4 else 0 | _ \<Rightarrow> 0)
      else 0)"

lemma utf8_width_le: "utf8_width s \<le> length s"
  by (cases s) (auto simp: Let_def split: list.splits)

lemma utf8_width_prefix: "utf8_width s = n \<Longrightarrow> 0 < n \<Longrightarrow> utf8_width (take n s @ r) = n"
  by (cases s) (auto simp: Let_def split: list.splits if_splits)

function valid_utf8 :: "string \<Rightarrow> bool" where
  "valid_utf8 s =
     (if s = [] then True
      else if utf8_width s = 0 then False
      else valid_utf8 (drop (utf8_width s) s))"
  by pat_completeness auto
termination
  by (relation "measure length") (auto simp: neq_Nil_conv)

declare valid_utf8.simps [simp del]

lemma valid_utf8_Nil [simp]: "valid_utf8 []"
  by (simp add: valid_utf8.simps)

lemma valid_utf8_ascii: "(\<forall>c \<in> set s. (of_char c :: nat) < 128) \<Longrightarrow> valid_utf8 s"
proof (induction s)
  case Nil
  then show ?case by simp
next
  case (Cons c s)
  then show ?case by (subst valid_utf8.simps) simp
qed

definition utf8_encode :: "nat \<Rightarrow> string" where
  "utf8_encode r =
     (if r < 128 then [char_of r]
      else if r < 2048 then [char_of (192 + r div 64), char_of (128 + r mod 64)]
      else if (55296 \<le> r \<and> r < 57344) \<or> 1114111 < r then [char_of (239::nat), char_of (191::nat), char_of (189::nat)]
      else if r < 65536 then
        [char_of (224 + r div 4096), char_of (128 + r div 64 mod 64), char_of (128 + r mod 64)]
      else
        [char_of (240 + r div 262144), char_of (128 + r div 4096 mod 64),
         char_of (128 + r div 64 mod 64), char_of (128 + r mod 64)])"

definition rune_error :: string where
  "rune_error = [char_of (239::nat), char_of (191::nat), char_of (189::nat)]"

section \<open>Writing\<close>

definition hex_char :: "nat \<Rightarrow> char" where
  "hex_char d = char_of (if d < 10 then 48 + d else 87 + d)"

definition hex_val :: "char \<Rightarrow> nat option" where
  "hex_val c =
     (let b = of_char c :: nat in
      if 48 \<le> b \<and> b \<le> 57 then Some (b - 48)
      else if 97 \<le> b \<and> b \<le> 102 then Some (b - 87)
      else if 65 \<le> b \<and> b \<le> 70 then Some (b - 55)
      else None)"

definition u_escape :: "nat \<Rightarrow> string" where
  "u_escape r = [CHR 0x5C, CHR ''u'', hex_char (r div 4096 mod 16), hex_char (r div 256 mod 16),
                 hex_char (r div 16 mod 16), hex_char (r mod 16)]"

text \<open>One ASCII byte inside a JSON string: copied when it is safe, escaped otherwise.\<close>

definition ascii_escape :: "char \<Rightarrow> string" where
  "ascii_escape c =
     (let b = of_char c :: nat in
      if b = 34 \<or> b = 92 then [CHR 0x5C, c]
      else if b = 8 then [CHR 0x5C, CHR ''b'']
      else if b = 12 then [CHR 0x5C, CHR ''f'']
      else if b = 10 then [CHR 0x5C, CHR ''n'']
      else if b = 13 then [CHR 0x5C, CHR ''r'']
      else if b = 9 then [CHR 0x5C, CHR ''t'']
      else if b < 32 \<or> b = 60 \<or> b = 62 \<or> b = 38 then u_escape b
      else [c])"

function json_escape :: "string \<Rightarrow> string" where
  "json_escape s =
     (case s of
        [] \<Rightarrow> []
      | c # cs \<Rightarrow>
          if (of_char c :: nat) < 128 then ascii_escape c @ json_escape cs
          else if utf8_width s = 0 then u_escape 65533 @ json_escape cs
          else if utf8_width s = 3 \<and> take 2 s = [CHR 0xE2, CHR 0x80] \<and> s ! 2 \<in> {CHR 0xA8, CHR 0xA9}
            then u_escape (if s ! 2 = CHR 0xA8 then 8232 else 8233) @ json_escape (drop 3 s)
          else take (utf8_width s) s @ json_escape (drop (utf8_width s) s))"
  by pat_completeness auto
termination
  by (relation "measure length") auto

declare json_escape.simps [simp del]

definition json_quote :: "string \<Rightarrow> string" where
  "json_quote s = CHR 0x22 # json_escape s @ [CHR 0x22]"

fun json_text :: "json \<Rightarrow> string"
  and json_elems_text :: "json list \<Rightarrow> string"
  and json_members_text :: "(string \<times> json) list \<Rightarrow> string" where
  "json_text JNull = ''null''"
| "json_text (JBool b) = (if b then ''true'' else ''false'')"
| "json_text (JNum n) = n"
| "json_text (JStr s) = json_quote s"
| "json_text (JArr js) = ''['' @ json_elems_text js @ '']''"
| "json_text (JObj ms) = ''{'' @ json_members_text ms @ ''}''"
| "json_elems_text [] = []"
| "json_elems_text (j # js) =
     json_text j @ (if js = [] then [] else '','' @ json_elems_text js)"
| "json_members_text [] = []"
| "json_members_text ((k, j) # ms) =
     json_quote k @ '':'' @ json_text j @ (if ms = [] then [] else '','' @ json_members_text ms)"

section \<open>Reading\<close>

definition is_ws :: "char \<Rightarrow> bool" where
  "is_ws c \<longleftrightarrow> c \<in> {CHR '' '', CHR 0x09, CHR 0x0A, CHR 0x0D}"

definition skip_ws :: "string \<Rightarrow> string" where
  "skip_ws s = dropWhile is_ws s"

definition hex4 :: "string \<Rightarrow> nat option" where
  "hex4 s =
     (case s of
        a # b # c # d # _ \<Rightarrow>
          (case (hex_val a, hex_val b, hex_val c, hex_val d) of
             (Some x, Some y, Some z, Some w) \<Rightarrow> Some (((x * 16 + y) * 16 + z) * 16 + w)
           | _ \<Rightarrow> None)
      | _ \<Rightarrow> None)"

text \<open>
  The character of a \<open>\u\<close> escape and how many further bytes it takes: a high surrogate joins
  with a following escape of a low surrogate; any other surrogate is the error rune.
\<close>

definition u_unescape :: "nat \<Rightarrow> string \<Rightarrow> string \<times> nat" where
  "u_unescape r rest =
     (if 55296 \<le> r \<and> r < 57344 then
        (case (if take 2 rest = [CHR 0x5C, CHR ''u''] then hex4 (drop 2 rest) else None) of
           Some r1 \<Rightarrow>
             if r < 56320 \<and> 56320 \<le> r1 \<and> r1 < 57344
             then (utf8_encode (65536 + (r - 55296) * 1024 + (r1 - 56320)), 6)
             else (rune_error, 0)
         | None \<Rightarrow> (rune_error, 0))
      else (utf8_encode r, 0))"

definition simple_unescape :: "char \<Rightarrow> char option" where
  "simple_unescape c =
     (if c \<in> {CHR 0x22, CHR 0x5C, CHR ''/''} then Some c
      else if c = CHR ''b'' then Some CHR 0x08
      else if c = CHR ''f'' then Some CHR 0x0C
      else if c = CHR ''n'' then Some CHR 0x0A
      else if c = CHR ''r'' then Some CHR 0x0D
      else if c = CHR ''t'' then Some CHR 0x09
      else None)"

definition cons_str :: "string \<Rightarrow> (string \<times> string) option \<Rightarrow> (string \<times> string) option" where
  "cons_str p r = map_option (\<lambda>(s, rest). (p @ s, rest)) r"

text \<open>The rest of a string literal after its opening quote: its value and what follows it.\<close>

function scan_str :: "string \<Rightarrow> (string \<times> string) option" where
  "scan_str s =
     (case s of
        [] \<Rightarrow> None
      | c # cs \<Rightarrow>
          if c = CHR 0x22 then Some ([], cs)
          else if c = CHR 0x5C then
            (case cs of
               [] \<Rightarrow> None
             | e # cs' \<Rightarrow>
                 if e = CHR ''u'' then
                   (case hex4 cs' of
                      None \<Rightarrow> None
                    | Some r \<Rightarrow>
                        cons_str (fst (u_unescape r (drop 4 cs')))
                          (scan_str (drop (4 + snd (u_unescape r (drop 4 cs'))) cs')))
                 else
                   (case simple_unescape e of
                      None \<Rightarrow> None
                    | Some x \<Rightarrow> cons_str [x] (scan_str cs')))
          else if (of_char c :: nat) < 32 then None
          else if (of_char c :: nat) < 128 then cons_str [c] (scan_str cs)
          else if utf8_width s = 0 then cons_str rune_error (scan_str cs)
          else cons_str (take (utf8_width s) s) (scan_str (drop (utf8_width s) s)))"
  by pat_completeness auto
termination
  by (relation "measure length") auto

declare scan_str.simps [simp del]

text \<open>The number grammar: sign, integer part without leading zeros, fraction, exponent.\<close>

definition scan_digits :: "string \<Rightarrow> (string \<times> string) option" where
  "scan_digits s = (if takeWhile is_digit s = [] then None
                    else Some (takeWhile is_digit s, dropWhile is_digit s))"

definition scan_intpart :: "string \<Rightarrow> (string \<times> string) option" where
  "scan_intpart s =
     (case s of
        [] \<Rightarrow> None
      | c # cs \<Rightarrow> if c = CHR ''0'' then Some ([c], cs) else scan_digits s)"

definition scan_frac :: "string \<Rightarrow> (string \<times> string) option" where
  "scan_frac s =
     (case s of
        c # cs \<Rightarrow> if c = CHR ''.'' then cons_str [c] (scan_digits cs) else Some ([], s)
      | [] \<Rightarrow> Some ([], []))"

definition scan_exp :: "string \<Rightarrow> (string \<times> string) option" where
  "scan_exp s =
     (case s of
        c # cs \<Rightarrow>
          if c \<in> {CHR ''e'', CHR ''E''} then
            (case cs of
               d # ds \<Rightarrow>
                 if d \<in> {CHR ''+'', CHR ''-''} then cons_str [c, d] (scan_digits ds)
                 else cons_str [c] (scan_digits cs)
             | [] \<Rightarrow> None)
          else Some ([], s)
      | [] \<Rightarrow> Some ([], []))"

definition scan_unsigned :: "string \<Rightarrow> (string \<times> string) option" where
  "scan_unsigned s =
     (case scan_intpart s of
        None \<Rightarrow> None
      | Some (i, r1) \<Rightarrow>
          (case scan_frac r1 of
             None \<Rightarrow> None
           | Some (f, r2) \<Rightarrow> cons_str (i @ f) (scan_exp r2)))"

definition scan_num :: "string \<Rightarrow> (string \<times> string) option" where
  "scan_num s =
     (case s of
        [] \<Rightarrow> None
      | c # cs \<Rightarrow> if c = CHR ''-'' then cons_str [c] (scan_unsigned cs) else scan_unsigned s)"

definition scan_lit :: "string \<Rightarrow> 'a \<Rightarrow> string \<Rightarrow> ('a \<times> string) option" where
  "scan_lit lit v s = (if HasPrefix s lit then Some (v, drop (length lit) s) else None)"

fun parse_value :: "nat \<Rightarrow> string \<Rightarrow> (json \<times> string) option"
  and parse_elems :: "nat \<Rightarrow> string \<Rightarrow> (json list \<times> string) option"
  and parse_members :: "nat \<Rightarrow> string \<Rightarrow> ((string \<times> json) list \<times> string) option" where
  "parse_value 0 s = None"
| "parse_value (Suc n) s =
     (case skip_ws s of
        [] \<Rightarrow> None
      | c # cs \<Rightarrow>
          if c = CHR ''{'' then
            (case skip_ws cs of
               [] \<Rightarrow> None
             | d # ds \<Rightarrow>
                 if d = CHR ''}'' then Some (JObj [], ds)
                 else map_option (\<lambda>(ms, r). (JObj ms, r)) (parse_members n cs))
          else if c = CHR ''['' then
            (case skip_ws cs of
               [] \<Rightarrow> None
             | d # ds \<Rightarrow>
                 if d = CHR '']'' then Some (JArr [], ds)
                 else map_option (\<lambda>(js, r). (JArr js, r)) (parse_elems n cs))
          else if c = CHR 0x22 then map_option (\<lambda>(x, r). (JStr x, r)) (scan_str cs)
          else if c = CHR ''t'' then scan_lit ''true'' (JBool True) (c # cs)
          else if c = CHR ''f'' then scan_lit ''false'' (JBool False) (c # cs)
          else if c = CHR ''n'' then scan_lit ''null'' JNull (c # cs)
          else map_option (\<lambda>(x, r). (JNum x, r)) (scan_num (c # cs)))"
| "parse_elems 0 s = None"
| "parse_elems (Suc n) s =
     (case parse_value n s of
        None \<Rightarrow> None
      | Some (j, r) \<Rightarrow>
          (case skip_ws r of
             [] \<Rightarrow> None
           | d # ds \<Rightarrow>
               if d = CHR '','' then map_option (\<lambda>(js, q). (j # js, q)) (parse_elems n ds)
               else if d = CHR '']'' then Some ([j], ds)
               else None))"
| "parse_members 0 s = None"
| "parse_members (Suc n) s =
     (case skip_ws s of
        [] \<Rightarrow> None
      | q # cs \<Rightarrow>
          if q \<noteq> CHR 0x22 then None
          else case scan_str cs of
            None \<Rightarrow> None
          | Some (k, r0) \<Rightarrow>
              (case skip_ws r0 of
                 [] \<Rightarrow> None
               | col # vs \<Rightarrow>
                   if col \<noteq> CHR '':'' then None
                   else case parse_value n vs of
                     None \<Rightarrow> None
                   | Some (j, r) \<Rightarrow>
                       (case skip_ws r of
                          [] \<Rightarrow> None
                        | d # ds \<Rightarrow>
                            if d = CHR '','' then map_option (\<lambda>(ms, t). ((k, j) # ms, t)) (parse_members n ds)
                            else if d = CHR ''}'' then Some ([(k, j)], ds)
                            else None)))"

text \<open>Nesting deeper than 10000 levels is refused by Go's scanner.\<close>

fun json_depth :: "json \<Rightarrow> nat"
  and elems_depth :: "json list \<Rightarrow> nat"
  and members_depth :: "(string \<times> json) list \<Rightarrow> nat" where
  "json_depth (JArr js) = Suc (elems_depth js)"
| "json_depth (JObj ms) = Suc (members_depth ms)"
| "json_depth _ = 0"
| "elems_depth [] = 0"
| "elems_depth (j # js) = max (json_depth j) (elems_depth js)"
| "members_depth [] = 0"
| "members_depth ((k, j) # ms) = max (json_depth j) (members_depth ms)"

text \<open>
  \<^verbatim>\<open>json.Unmarshal\<close> takes one value and white space, \<^verbatim>\<open>Decoder.Decode\<close> the
  first value of its input.
\<close>

definition json_decode_first :: "string \<Rightarrow> (json \<times> string) option" where
  "json_decode_first s =
     (case parse_value (Suc (length s)) s of
        Some (j, r) \<Rightarrow> if json_depth j \<le> 10000 then Some (j, r) else None
      | None \<Rightarrow> None)"

definition json_parse :: "string \<Rightarrow> json option" where
  "json_parse s =
     (case json_decode_first s of
        Some (j, r) \<Rightarrow> if skip_ws r = [] then Some j else None
      | None \<Rightarrow> None)"

section \<open>Decoding into structs\<close>

text \<open>
  Field names match exactly or else up to the case folding of
  \<^verbatim>\<open>encoding/json\<close>: ASCII letters without regard to case, the Kelvin sign as K and
  the long s as S.
\<close>

fun json_fold_name :: "string \<Rightarrow> string" where
  "json_fold_name [] = []"
| "json_fold_name (c # cs) =
     (if c = CHR 0xE2 \<and> take 2 cs = [CHR 0x84, CHR 0xAA] then CHR ''K'' # json_fold_name (drop 2 cs)
      else if c = CHR 0xC5 \<and> take 1 cs = [CHR 0xBF] then CHR ''S'' # json_fold_name (drop 1 cs)
      else if 97 \<le> (of_char c :: nat) \<and> (of_char c :: nat) \<le> 122
        then char_of ((of_char c :: nat) - 32) # json_fold_name cs
      else c # json_fold_name cs)"

type_synonym 'a field_dec = "json \<Rightarrow> 'a \<Rightarrow> 'a result"

definition find_field :: "(string \<times> 'f) list \<Rightarrow> string \<Rightarrow> 'f option" where
  "find_field fs k =
     (case map_of fs k of
        Some f \<Rightarrow> Some f
      | None \<Rightarrow> map_of (map (\<lambda>(n, f). (json_fold_name n, f)) fs) (json_fold_name k))"

text \<open>
  Go keeps decoding after a type error and reports the first one at the end; a caller that
  gets an error never looks at the value, so decoding stops here at the first error.
\<close>

fun decode_members ::
  "bool \<Rightarrow> (string \<times> 'a field_dec) list \<Rightarrow> (string \<times> json) list \<Rightarrow> 'a \<Rightarrow> 'a result" where
  "decode_members strict fs [] v = Inr v"
| "decode_members strict fs ((k, j) # ms) v =
     (case find_field fs k of
        None \<Rightarrow> if strict then Inl (ErrMsg (''json: unknown field '' @ json_quote k))
                else decode_members strict fs ms v
      | Some f \<Rightarrow>
          (case f j v of
             Inl e \<Rightarrow> Inl e
           | Inr v' \<Rightarrow> decode_members strict fs ms v'))"

definition dec_int :: "(int \<Rightarrow> 'a \<Rightarrow> 'a) \<Rightarrow> 'a field_dec" where
  "dec_int put j v =
     (case j of
        JNum n \<Rightarrow> (case ParseInt 64 n of Inr i \<Rightarrow> Inr (put i v) | Inl e \<Rightarrow> Inl (ErrMsg ''json: bad int''))
      | JNull \<Rightarrow> Inr v
      | _ \<Rightarrow> Inl (ErrMsg ''json: bad int''))"

definition dec_str :: "(string \<Rightarrow> 'a \<Rightarrow> 'a) \<Rightarrow> 'a field_dec" where
  "dec_str put j v =
     (case j of
        JStr s \<Rightarrow> Inr (put s v)
      | JNull \<Rightarrow> Inr v
      | _ \<Rightarrow> Inl (ErrMsg ''json: bad string''))"

definition dec_bool :: "(bool \<Rightarrow> 'a \<Rightarrow> 'a) \<Rightarrow> 'a field_dec" where
  "dec_bool put j v =
     (case j of
        JBool b \<Rightarrow> Inr (put b v)
      | JNull \<Rightarrow> Inr v
      | _ \<Rightarrow> Inl (ErrMsg ''json: bad bool''))"

definition dec_struct :: "bool \<Rightarrow> (string \<times> 'a field_dec) list \<Rightarrow> 'a field_dec" where
  "dec_struct strict fs j v =
     (case j of
        JObj ms \<Rightarrow> decode_members strict fs ms v
      | JNull \<Rightarrow> Inr v
      | _ \<Rightarrow> Inl (ErrMsg ''json: bad object''))"

definition dec_sub :: "('b \<Rightarrow> 'a) \<Rightarrow> ('a \<Rightarrow> 'b \<Rightarrow> 'b) \<Rightarrow> 'a field_dec \<Rightarrow> 'b field_dec" where
  "dec_sub get put d j v = (case d j (get v) of Inl e \<Rightarrow> Inl e | Inr a \<Rightarrow> Inr (put a v))"

fun dec_elems :: "'a field_dec \<Rightarrow> 'a \<Rightarrow> json list \<Rightarrow> 'a list result" where
  "dec_elems d z [] = Inr []"
| "dec_elems d z (j # js) =
     (case d j z of
        Inl e \<Rightarrow> Inl e
      | Inr a \<Rightarrow> (case dec_elems d z js of Inl e \<Rightarrow> Inl e | Inr as \<Rightarrow> Inr (a # as)))"

definition dec_list :: "'a field_dec \<Rightarrow> 'a \<Rightarrow> ('a list \<Rightarrow> 'b \<Rightarrow> 'b) \<Rightarrow> 'b field_dec" where
  "dec_list d z put j v =
     (case j of
        JArr js \<Rightarrow> (case dec_elems d z js of Inl e \<Rightarrow> Inl e | Inr as \<Rightarrow> Inr (put as v))
      | JNull \<Rightarrow> Inr (put [] v)
      | _ \<Rightarrow> Inl (ErrMsg ''json: bad array''))"

definition json_unmarshal :: "'a field_dec \<Rightarrow> 'a \<Rightarrow> bytes \<Rightarrow> 'a result" where
  "json_unmarshal d z s =
     (case json_parse s of
        None \<Rightarrow> Inl (ErrMsg ''json: syntax error'')
      | Some j \<Rightarrow> d j z)"

lemmas json_dec_defs =
  dec_int_def dec_str_def dec_bool_def dec_struct_def dec_sub_def dec_list_def find_field_def

lemma dec_elems_map: "(\<And>a. a \<in> set as \<Longrightarrow> d (enc a) z = Inr a) \<Longrightarrow> dec_elems d z (map enc as) = Inr as"
  by (induction as) auto

section \<open>The round trip\<close>

subsection \<open>Strings\<close>

lemma hex_val_hex_char [simp]: "d < 16 \<Longrightarrow> hex_val (hex_char d) = Some d"
  by (auto simp: hex_val_def hex_char_def Let_def)

lemma hex4_hex_chars:
  assumes "r < 65536"
  shows "hex4 (hex_char (r div 4096 mod 16) # hex_char (r div 256 mod 16) #
     hex_char (r div 16 mod 16) # hex_char (r mod 16) # t) = Some r"
proof -
  have "r div 4096 mod 16 = r div 256 div 16" and d: "r div 256 = r div 16 div 16"
    using assms by (simp_all add: div_mult2_eq [symmetric])
  then have a: "r div 4096 mod 16 * 16 + r div 256 mod 16 = r div 256"
    by (simp only: div_mult_mod_eq)
  have b: "r div 256 * 16 + r div 16 mod 16 = r div 16"
    by (simp only: d div_mult_mod_eq)
  have "((r div 4096 mod 16 * 16 + r div 256 mod 16) * 16 + r div 16 mod 16) * 16 + r mod 16 = r"
    by (simp only: a b div_mult_mod_eq)
  moreover have "hex_val (hex_char (x mod 16)) = Some (x mod 16)" for x by simp
  ultimately show ?thesis
    by (simp only: hex4_def list.case prod.case option.case)
qed

lemma scan_str_u_escape:
  assumes "r < 65536" and "\<not> (55296 \<le> r \<and> r < 57344)"
  shows "scan_str (u_escape r @ t) = cons_str (utf8_encode r) (scan_str t)"
proof -
  have "u_unescape r t = (utf8_encode r, 0)"
    unfolding u_unescape_def by (rule if_not_P [OF assms(2)])
  then show ?thesis
    using hex4_hex_chars [OF assms(1), of t] by (subst scan_str.simps) (simp add: u_escape_def)
qed

lemma scan_str_simple_escape:
  "simple_unescape e = Some x \<Longrightarrow> e \<noteq> CHR ''u'' \<Longrightarrow>
     scan_str (CHR 0x5C # e # t) = cons_str [x] (scan_str t)"
  by (subst scan_str.simps) simp

lemma scan_str_ascii:
  assumes "(of_char c :: nat) < 128" and "32 \<le> (of_char c :: nat)" and "c \<noteq> CHR 0x22" and "c \<noteq> CHR 0x5C"
  shows "scan_str (c # t) = cons_str [c] (scan_str t)"
  using assms by (subst scan_str.simps) simp

lemma char_eqI: "(of_char c :: nat) = of_char d \<Longrightarrow> c = d"
  by simp

lemma scan_str_ascii_escape:
  assumes "(of_char c :: nat) < 128"
  shows "scan_str (ascii_escape c @ t) = cons_str [c] (scan_str t)"
proof -
  let ?b = "of_char c :: nat"
  consider "?b = 34" | "?b = 92" | "?b = 8" | "?b = 12" | "?b = 10" | "?b = 13" | "?b = 9"
    | "?b \<notin> {34, 92, 8, 12, 10, 13, 9}" by blast
  then show ?thesis
  proof cases
    case 1
    then have "c = CHR 0x22" by (intro char_eqI) simp
    then show ?thesis by (simp add: ascii_escape_def scan_str_simple_escape simple_unescape_def)
  next
    case 2
    then have "c = CHR 0x5C" by (intro char_eqI) simp
    then show ?thesis by (simp add: ascii_escape_def scan_str_simple_escape simple_unescape_def)
  next
    case 3
    then have "c = CHR 0x08" by (intro char_eqI) simp
    then show ?thesis by (simp add: ascii_escape_def scan_str_simple_escape simple_unescape_def)
  next
    case 4
    then have "c = CHR 0x0C" by (intro char_eqI) simp
    then show ?thesis by (simp add: ascii_escape_def scan_str_simple_escape simple_unescape_def)
  next
    case 5
    then have "c = CHR 0x0A" by (intro char_eqI) simp
    then show ?thesis by (simp add: ascii_escape_def scan_str_simple_escape simple_unescape_def)
  next
    case 6
    then have "c = CHR 0x0D" by (intro char_eqI) simp
    then show ?thesis by (simp add: ascii_escape_def scan_str_simple_escape simple_unescape_def)
  next
    case 7
    then have "c = CHR 0x09" by (intro char_eqI) simp
    then show ?thesis by (simp add: ascii_escape_def scan_str_simple_escape simple_unescape_def)
  next
    case 8
    then have ne: "c \<noteq> CHR 0x22" "c \<noteq> CHR 0x5C" by auto
    show ?thesis
    proof (cases "?b < 32 \<or> ?b = 60 \<or> ?b = 62 \<or> ?b = 38")
      case True
      have "utf8_encode ?b = [c]" using assms by (simp add: utf8_encode_def)
      with 8 True assms show ?thesis
        using scan_str_u_escape [of ?b t] by (simp add: ascii_escape_def Let_def)
    next
      case False
      with 8 assms ne show ?thesis
        using scan_str_ascii [of c t] by (simp add: ascii_escape_def Let_def)
    qed
  qed
qed

lemma scan_str_multibyte:
  assumes "utf8_width s = w" and "0 < w" and "\<not> (of_char (hd s) :: nat) < 128"
  shows "scan_str (take w s @ t) = cons_str (take w s) (scan_str t)"
proof -
  from assms(1,2) have ne: "s \<noteq> []" and le: "w \<le> length s" using utf8_width_le [of s] by auto
  then obtain c cs where s: "take w s @ t = c # cs" "c = hd s"
    using assms(2) by (cases s; cases w) auto
  have w: "utf8_width (take w s @ t) = w" using utf8_width_prefix [OF assms(1,2)] by simp
  from assms(3) s(2) have "c \<noteq> CHR 0x22" "c \<noteq> CHR 0x5C" "\<not> (of_char c :: nat) < 32"
    "\<not> (of_char c :: nat) < 128" by auto
  with s(1) w assms(2) have "scan_str (take w s @ t) =
      cons_str (take w (take w s @ t)) (scan_str (drop w (take w s @ t)))"
    by (subst scan_str.simps) (simp del: utf8_width.simps)
  then show ?thesis using le by simp
qed

lemma char_of_literals:
  "char_of (226 :: nat) = CHR 0xE2" "char_of (128 :: nat) = CHR 0x80"
  "char_of (168 :: nat) = CHR 0xA8" "char_of (169 :: nat) = CHR 0xA9"
  by (rule char_eqI, simp)+

lemma utf8_line_separators:
  assumes "utf8_width s = 3" and "take 2 s = [CHR 0xE2, CHR 0x80]" and "s ! 2 \<in> {CHR 0xA8, CHR 0xA9}"
  shows "take 3 s = utf8_encode (if s ! 2 = CHR 0xA8 then 8232 else 8233)"
proof -
  have "3 \<le> length s" using assms(1) utf8_width_le [of s] by simp
  then have "take (Suc 2) s = take 2 s @ [s ! 2]" by (intro take_Suc_conv_app_nth) simp
  then have "take 3 s = take 2 s @ [s ! 2]" by (simp add: numeral_3_eq_3)
  moreover have "utf8_encode 8232 = [CHR 0xE2, CHR 0x80, CHR 0xA8]"
    and "utf8_encode 8233 = [CHR 0xE2, CHR 0x80, CHR 0xA9]"
    by (simp_all add: utf8_encode_def char_of_literals)
  ultimately show ?thesis using assms(2,3) by auto
qed

lemma scan_str_json_escape:
  "valid_utf8 s \<Longrightarrow> scan_str (json_escape s @ CHR 0x22 # r) = Some (s, r)"
proof (induction s rule: json_escape.induct)
  case (1 s)
  show ?case
  proof (cases s)
    case Nil
    then show ?thesis by (simp add: json_escape.simps scan_str.simps)
  next
    case (Cons c cs)
    have valid: "utf8_width s \<noteq> 0" "valid_utf8 (drop (utf8_width s) s)"
      using "1.prems" Cons valid_utf8.simps [of s] by (metis list.distinct(1))+
    show ?thesis
    proof (cases "(of_char c :: nat) < 128")
      case True
      with valid(2) Cons have "valid_utf8 cs" by simp
      then have IH: "scan_str (json_escape cs @ CHR 0x22 # r) = Some (cs, r)"
        using "1.IH"(1) [OF Cons True] by blast
      have "scan_str (json_escape s @ CHR 0x22 # r) =
          cons_str [c] (scan_str (json_escape cs @ CHR 0x22 # r))"
        using Cons True scan_str_ascii_escape [OF True] by (simp add: json_escape.simps [of "c # cs"])
      then show ?thesis by (simp add: IH cons_str_def Cons)
    next
      case False
      let ?w = "utf8_width s"
      let ?sep = "?w = 3 \<and> take 2 s = [CHR 0xE2, CHR 0x80] \<and> s ! 2 \<in> {CHR 0xA8, CHR 0xA9}"
      show ?thesis
      proof (cases ?sep)
        case True
        have IH: "scan_str (json_escape (drop 3 s) @ CHR 0x22 # r) = Some (drop 3 s, r)"
          using "1.IH"(3) [OF Cons False valid(1) True] valid(2) True by simp
        let ?n = "if s ! 2 = CHR 0xA8 then 8232 else 8233 :: nat"
        have "json_escape s = u_escape ?n @ json_escape (drop 3 s)"
          using Cons False valid(1) True
          by (subst json_escape.simps) (simp only: list.case if_False if_True HOL.simp_thms)
        then have "scan_str (json_escape s @ CHR 0x22 # r) =
            cons_str (utf8_encode ?n) (scan_str (json_escape (drop 3 s) @ CHR 0x22 # r))"
          using scan_str_u_escape [of ?n] by simp
        then show ?thesis
          using utf8_line_separators [of s] True append_take_drop_id [of 3 s]
          by (simp add: IH cons_str_def)
      next
        case noSep: False
        have IH: "scan_str (json_escape (drop ?w s) @ CHR 0x22 # r) = Some (drop ?w s, r)"
          using "1.IH"(4) [OF Cons False valid(1) noSep] valid(2) by simp
        have "json_escape s = take ?w s @ json_escape (drop ?w s)"
          using Cons False valid(1) noSep
          by (subst json_escape.simps) (simp only: list.case if_False HOL.simp_thms)
        then have "scan_str (json_escape s @ CHR 0x22 # r) =
            cons_str (take ?w s) (scan_str (json_escape (drop ?w s) @ CHR 0x22 # r))"
          using scan_str_multibyte [OF refl, of s] valid(1) False Cons by simp
        then show ?thesis by (simp add: IH cons_str_def)
      qed
    qed
  qed
qed

subsection \<open>Numbers\<close>

text \<open>What may follow a number without being read as part of it.\<close>

definition num_follow :: "string \<Rightarrow> bool" where
  "num_follow r \<longleftrightarrow> (case r of [] \<Rightarrow> True | c # _ \<Rightarrow> \<not> is_digit c \<and> c \<notin> {CHR ''.'', CHR ''e'', CHR ''E''})"

lemma hd_digits10_zero: "hd (digits10 n) = CHR ''0'' \<longleftrightarrow> n = 0"
proof (induction n rule: digits10.induct)
  case (1 n)
  show ?case
  proof (cases "n < 10")
    case True
    have "digit_char n = CHR ''0'' \<longleftrightarrow> n = 0"
      using of_char_digit_char [OF True] char_eqI [of "digit_char n" "CHR ''0''"] by auto
    with True show ?thesis by (simp add: digits10.simps [of n])
  next
    case False
    then have "hd (digits10 n) = hd (digits10 (n div 10))"
      by (simp add: digits10.simps [of n])
    with "1.IH" [OF False] False show ?thesis by simp
  qed
qed

lemma takeWhile_digits10: "num_follow r \<Longrightarrow> takeWhile is_digit (digits10 n @ r) = digits10 n"
  and dropWhile_digits10: "num_follow r \<Longrightarrow> dropWhile is_digit (digits10 n @ r) = r"
  using digits10_digits [of _ n]
  by (auto simp: takeWhile_append dropWhile_append num_follow_def split: list.splits)

lemma scan_unsigned_digits10:
  assumes "num_follow r"
  shows "scan_unsigned (digits10 n @ r) = Some (digits10 n, r)"
proof -
  have tail: "scan_frac r = Some ([], r)" "scan_exp r = Some ([], r)"
    using assms by (auto simp: scan_frac_def scan_exp_def num_follow_def split: list.splits)
  obtain c cs where d: "digits10 n = c # cs" by (cases "digits10 n") auto
  have "scan_intpart (digits10 n @ r) = Some (digits10 n, r)"
  proof (cases "n = 0")
    case True
    then have "digits10 n = [CHR ''0'']" using hd_digits10_zero [of n] d
      by (simp add: digits10.simps [of 0])
    then show ?thesis by (simp add: scan_intpart_def)
  next
    case False
    with hd_digits10_zero [of n] d have "c \<noteq> CHR ''0''" by simp
    moreover have "scan_digits (digits10 n @ r) = Some (digits10 n, r)"
      using assms by (simp add: scan_digits_def takeWhile_digits10 dropWhile_digits10)
    ultimately show ?thesis by (simp add: scan_intpart_def d)
  qed
  with tail show ?thesis by (simp add: scan_unsigned_def cons_str_def)
qed

lemma scan_num_Itoa: "num_follow r \<Longrightarrow> scan_num (Itoa i @ r) = Some (Itoa i, r)"
proof -
  assume r: "num_follow r"
  obtain c cs where d: "digits10 (nat i) = c # cs" by (cases "digits10 (nat i)") auto
  then have "c \<noteq> CHR ''-''" using digits10_no_minus [of "nat i"] by auto
  then show ?thesis
    using scan_unsigned_digits10 [OF r, of "nat (- i)"] scan_unsigned_digits10 [OF r, of "nat i"] d
    by (auto simp: Itoa_def scan_num_def cons_str_def)
qed

subsection \<open>Values\<close>

fun wf_json :: "json \<Rightarrow> bool"
  and wf_elems :: "json list \<Rightarrow> bool"
  and wf_members :: "(string \<times> json) list \<Rightarrow> bool" where
  "wf_json JNull = True"
| "wf_json (JBool b) = True"
| "wf_json (JNum n) = (\<exists>i. n = Itoa i)"
| "wf_json (JStr s) = valid_utf8 s"
| "wf_json (JArr js) = wf_elems js"
| "wf_json (JObj ms) = wf_members ms"
| "wf_elems [] = True"
| "wf_elems (j # js) = (wf_json j \<and> wf_elems js)"
| "wf_members [] = True"
| "wf_members ((k, j) # ms) = (valid_utf8 k \<and> wf_json j \<and> wf_members ms)"

lemma wf_elems_map [simp]: "wf_elems (map f xs) \<longleftrightarrow> (\<forall>x\<in>set xs. wf_json (f x))"
  by (induction xs) auto

lemma elems_depth_map: "(\<And>x. x \<in> set xs \<Longrightarrow> json_depth (f x) \<le> n) \<Longrightarrow> elems_depth (map f xs) \<le> n"
  by (induction xs) auto

text \<open>The fuel that parsing the text of a value takes.\<close>

fun need :: "json \<Rightarrow> nat"
  and need_elems :: "json list \<Rightarrow> nat"
  and need_members :: "(string \<times> json) list \<Rightarrow> nat" where
  "need (JArr js) = Suc (need_elems js)"
| "need (JObj ms) = Suc (need_members ms)"
| "need _ = 1"
| "need_elems [] = 0"
| "need_elems (j # js) = Suc (max (need j) (need_elems js))"
| "need_members [] = 0"
| "need_members ((k, j) # ms) = Suc (max (need j) (need_members ms))"

lemma need_le_length:
  "wf_json j \<Longrightarrow> need j \<le> length (json_text j)"
  "wf_elems js \<Longrightarrow> need_elems js \<le> Suc (length (json_elems_text js))"
  "wf_members ms \<Longrightarrow> need_members ms \<le> Suc (length (json_members_text ms))"
proof (induction j and js and ms rule: json_text_json_elems_text_json_members_text.induct)
  case (3 n)
  then obtain i where "n = Itoa i" by auto
  moreover have "Itoa i \<noteq> []" by (simp add: Itoa_def)
  ultimately show ?case by (simp add: Suc_le_eq)
qed (auto simp: json_quote_def)

lemma hd_Itoa: "\<exists>c t. Itoa i = c # t \<and> (is_digit c \<or> c = CHR ''-'')"
proof (cases "i < 0")
  case True
  then show ?thesis by (simp add: Itoa_def)
next
  case False
  then show ?thesis using digits10_hd [of "nat i"]
    by (cases "digits10 (nat i)") (auto simp: Itoa_def)
qed

text \<open>The first byte of a text tells its kind and is never white space or a closing bracket.\<close>

lemma hd_json_text:
  "wf_json j \<Longrightarrow> \<exists>c t. json_text j = c # t \<and> \<not> is_ws c \<and> c \<notin> {CHR '']'', CHR ''}''}"
proof (cases j)
  case (JNum n)
  assume "wf_json j"
  with JNum obtain i where n: "n = Itoa i" by auto
  obtain c t where "Itoa i = c # t" "is_digit c \<or> c = CHR ''-''" using hd_Itoa by blast
  with JNum n show ?thesis by (auto simp: is_ws_def is_digit_def)
qed (auto simp: is_ws_def json_quote_def)

lemma skip_ws_Cons [simp]: "\<not> is_ws c \<Longrightarrow> skip_ws (c # cs) = c # cs"
  by (simp add: skip_ws_def)

lemma not_ws [simp]:
  "\<not> is_ws CHR ''{''" "\<not> is_ws CHR ''}''" "\<not> is_ws CHR ''[''" "\<not> is_ws CHR '']''" "\<not> is_ws CHR '',''"
  "\<not> is_ws CHR '':''" "\<not> is_ws CHR 0x22" "\<not> is_ws CHR ''t''" "\<not> is_ws CHR ''f''" "\<not> is_ws CHR ''n''"
  by (simp_all add: is_ws_def)

lemma num_follow_closing [simp]:
  "num_follow []" "num_follow (CHR '','' # r)" "num_follow (CHR '']'' # r)" "num_follow (CHR ''}'' # r)"
  by (simp_all add: num_follow_def is_digit_def)

lemma parse_value_num:
  assumes "num_follow r"
  shows "parse_value (Suc n) (Itoa i @ r) = Some (JNum (Itoa i), r)"
proof -
  obtain c t where c: "Itoa i = c # t" "is_digit c \<or> c = CHR ''-''" using hd_Itoa by blast
  then have "\<not> is_ws c" "c \<notin> {CHR ''{'', CHR ''['', CHR 0x22, CHR ''t'', CHR ''f'', CHR ''n''}"
    by (auto simp: is_ws_def is_digit_def)
  then show ?thesis using scan_num_Itoa [OF assms, of i] c(1) by simp
qed

lemma parse_json_text:
  "wf_json j \<Longrightarrow> need j \<le> n \<Longrightarrow> num_follow r \<Longrightarrow> parse_value n (json_text j @ r) = Some (j, r)"
  "wf_elems js \<Longrightarrow> js \<noteq> [] \<Longrightarrow> need_elems js \<le> n \<Longrightarrow>
     parse_elems n (json_elems_text js @ CHR '']'' # r) = Some (js, r)"
  "wf_members ms \<Longrightarrow> ms \<noteq> [] \<Longrightarrow> need_members ms \<le> n \<Longrightarrow>
     parse_members n (json_members_text ms @ CHR ''}'' # r) = Some (ms, r)"
proof (induction j and js and ms arbitrary: n r and n r and n r
    rule: json_text_json_elems_text_json_members_text.induct)
  case (3 k)
  then obtain i m where "k = Itoa i" "n = Suc m" by (cases n) auto
  with 3 show ?case using parse_value_num by simp
next
  case (4 s)
  then obtain m where "n = Suc m" by (cases n) auto
  with 4 show ?case using scan_str_json_escape [of s r] by (simp add: json_quote_def)
next
  case (5 js)
  then obtain m where n: "n = Suc m" by (cases n) auto
  show ?case
  proof (cases js)
    case Nil
    with n show ?thesis by simp
  next
    case (Cons j js')
    with 5 obtain c t where c: "json_text j = c # t" "\<not> is_ws c" "c \<noteq> CHR '']''"
      using hd_json_text [of j] by auto
    have "parse_elems m (json_elems_text js @ CHR '']'' # r) = Some (js, r)"
      using 5 n Cons by simp
    with n Cons c show ?thesis by simp
  qed
next
  case (6 ms)
  then obtain m where n: "n = Suc m" by (cases n) auto
  show ?case
  proof (cases ms)
    case Nil
    with n show ?thesis by simp
  next
    case (Cons p ms')
    have "parse_members m (json_members_text ms @ CHR ''}'' # r) = Some (ms, r)"
      using 6 n Cons by simp
    with n Cons show ?thesis by (cases p) (simp add: json_quote_def)
  qed
next
  case (8 j js)
  then obtain m where n: "n = Suc m" by (cases n) auto
  show ?case
  proof (cases js)
    case Nil
    with 8 n show ?thesis by simp
  next
    case (Cons j' js')
    then have "json_elems_text (j # js) @ CHR '']'' # r
        = json_text j @ CHR '','' # (json_elems_text js @ CHR '']'' # r)" by simp
    moreover have "parse_value m (json_text j @ CHR '','' # (json_elems_text js @ CHR '']'' # r))
        = Some (j, CHR '','' # (json_elems_text js @ CHR '']'' # r))"
      using 8 n by simp
    moreover have "parse_elems m (json_elems_text js @ CHR '']'' # r) = Some (js, r)"
      using 8 n Cons by simp
    ultimately show ?thesis using n by simp
  qed
next
  case (10 k j ms)
  then obtain m where n: "n = Suc m" by (cases n) auto
  have str: "scan_str (json_escape k @ CHR 0x22 # t) = Some (k, t)" for t
    using 10 scan_str_json_escape by simp
  show ?case
  proof (cases ms)
    case Nil
    with 10 n show ?thesis by (simp add: json_quote_def str)
  next
    case (Cons p ms')
    then have "json_members_text ((k, j) # ms) @ CHR ''}'' # r
        = json_quote k @ CHR '':'' # (json_text j @ CHR '','' # (json_members_text ms @ CHR ''}'' # r))"
      by simp
    moreover have "parse_value m (json_text j @ CHR '','' # (json_members_text ms @ CHR ''}'' # r))
        = Some (j, CHR '','' # (json_members_text ms @ CHR ''}'' # r))"
      using 10 n by simp
    moreover have "parse_members m (json_members_text ms @ CHR ''}'' # r) = Some (ms, r)"
      using 10 n Cons by simp
    ultimately show ?thesis using n by (simp add: json_quote_def str)
  qed
qed (auto simp: scan_lit_def HasPrefix_def elim: Suc_le_D [elim_format])

text \<open>The text of a value parses back to the value, with the fuel the parser is called with.\<close>

lemma json_parse_text:
  assumes "wf_json j" and "json_depth j \<le> 10000"
  shows "json_parse (json_text j) = Some j"
proof -
  have "need j \<le> Suc (length (json_text j))" using need_le_length(1) [OF assms(1)] by simp
  from parse_json_text(1) [OF assms(1) this, of "[]"] assms(2) show ?thesis
    by (simp add: json_parse_def json_decode_first_def skip_ws_def)
qed

end
