(* ===== verification/QLDB_Store.thy ===== *)
theory QLDB_Store
  imports Common_Types Archive Go_Json
begin

text \<open>
  The CodeQL database stores, package \<^verbatim>\<open>pkg/qldbstore\<close>: the interface as a record of
  its methods, the store on the local file system and the store on a HEPC server with its
  metadata cache.  The locale \<open>qldb_store\<close> states what the server relies on: asking which
  databases are available, when it returns, splits the request into two lists and loses nothing.
\<close>

section \<open>The interface\<close>

record 'd QLDBStore =
  FindAvailableDBs :: "NameWithOwner list \<Rightarrow> ('d, NameWithOwner list \<times> NameWithOwner list) prog"
  GetDatabase :: "NameWithOwner \<Rightarrow> ('d, bytes result) prog"

text \<open>The pair is \<^verbatim>\<open>(notFoundRepos, foundRepos)\<close>, in this order, as in the source.\<close>

section \<open>The store on the local file system\<close>

definition db_file_path :: "string \<Rightarrow> NameWithOwner \<Rightarrow> string" where
  "db_file_path basePath repo =
     Join [basePath, Owner repo @ ''/'' @ Repo repo @ ''/'' @ Owner repo @ ''_'' @ Repo repo @ ''_db.zip'']"

fun local_FindAvailableDBs ::
  "os_env \<Rightarrow> string \<Rightarrow> NameWithOwner list \<Rightarrow> (fs, NameWithOwner list \<times> NameWithOwner list) prog" where
  "local_FindAvailableDBs E basePath [] = retP ([], [])"
| "local_FindAvailableDBs E basePath (repo # repos) =
     bindP (os_Stat E (db_file_path basePath repo)) (\<lambda>r.
       bindP (local_FindAvailableDBs E basePath repos) (\<lambda>(notFoundRepos, foundRepos).
         if r = Inl not_exist then retP (repo # notFoundRepos, foundRepos)
         else retP (notFoundRepos, repo # foundRepos)))"

definition local_GetDatabase :: "os_env \<Rightarrow> string \<Rightarrow> NameWithOwner \<Rightarrow> (fs, bytes result) prog" where
  "local_GetDatabase E basePath location =
     (let filePath = db_file_path basePath location in
      bindP (os_Stat E filePath) (\<lambda>r.
        if r = Inl not_exist then retP (Inl (ErrMsg (''database not found for '' @ fmt_nwo location)))
        else bindP (os_ReadFile E filePath) (\<lambda>d.
          case d of Inl err \<Rightarrow> retP (Inl err) | Inr data \<Rightarrow> retP (Inr data))))"

definition Filesystem_DBStore :: "os_env \<Rightarrow> string \<Rightarrow> fs QLDBStore" where
  "Filesystem_DBStore E basePath =
     \<lparr>FindAvailableDBs = local_FindAvailableDBs E basePath, GetDatabase = local_GetDatabase E basePath\<rparr>"

section \<open>The HEPC store\<close>

record HepcResult =
  GitBranch :: string
  GitCommitID :: string
  GitRepo :: string
  IngestionDatetime :: string
  ResultURL :: string
  ToolID :: string
  ToolName :: string
  ToolVersion :: string
  Projname :: string

definition HepcResult0 :: HepcResult where
  "HepcResult0 = \<lparr>GitBranch = [], GitCommitID = [], GitRepo = [], IngestionDatetime = [], ResultURL = [],
     ToolID = [], ToolName = [], ToolVersion = [], Projname = []\<rparr>"

definition HepcResult_dec :: "HepcResult field_dec" where
  "HepcResult_dec = dec_struct False
     [(''git_branch'', dec_str (\<lambda>s v. v\<lparr>GitBranch := s\<rparr>)),
      (''git_commit_id'', dec_str (\<lambda>s v. v\<lparr>GitCommitID := s\<rparr>)),
      (''git_repo'', dec_str (\<lambda>s v. v\<lparr>GitRepo := s\<rparr>)),
      (''ingestion_datetime_utc'', dec_str (\<lambda>s v. v\<lparr>IngestionDatetime := s\<rparr>)),
      (''result_url'', dec_str (\<lambda>s v. v\<lparr>ResultURL := s\<rparr>)),
      (''tool_id'', dec_str (\<lambda>s v. v\<lparr>ToolID := s\<rparr>)),
      (''tool_name'', dec_str (\<lambda>s v. v\<lparr>ToolName := s\<rparr>)),
      (''tool_version'', dec_str (\<lambda>s v. v\<lparr>ToolVersion := s\<rparr>)),
      (''projname'', dec_str (\<lambda>s v. v\<lparr>Projname := s\<rparr>))]"

text \<open>
  The world outside: environment variables, the clock, the HTTP client and the program
  \<^verbatim>\<open>spigot-cli\<close>.  The \<open>n\<close>-th reading of the clock, request or run may have any
  outcome, and \<open>None\<close> is a request that is never answered completely or a run that never ends:
  neither has a time limit.  An HTTP response has a status, a body and possibly an error that ends
  the body; a run of the program writes some bytes and may fail.
\<close>

record http_resp =
  hr_Status :: int
  hr_Body :: bytes
  hr_Err :: "error option"

record hepc_env =
  he_getenv :: "string \<Rightarrow> string"
  he_now :: "nat \<Rightarrow> int"
  he_get :: "nat \<Rightarrow> string \<Rightarrow> http_resp result option"
  he_spigot :: "nat \<Rightarrow> string list \<Rightarrow> (bytes \<times> error option) option"
  he_home :: "string result"
  he_os :: os_env
  he_lib :: archive_lib

text \<open>
  Times are nanoseconds.  \<open>hs_cacheLastUpdated\<close> is \<open>None\<close> for the zero time of a new
  store, which is so long ago that the difference to it is the largest duration.  The two counters
  number the readings of the clock and the requests.
\<close>

record HepcStore =
  hs_Endpoint :: string
  hs_metadataCache :: "HepcResult list"
  hs_cacheLastUpdated :: "int option"
  hs_cacheMutex :: bool
  hs_cacheDuration :: int
  hs_fs :: fs
  hs_clock :: nat
  hs_requests :: nat

abbreviation time_Minute :: int where "time_Minute \<equiv> 60000000000"

abbreviation defaultCacheDurationMinutes :: int where "defaultCacheDurationMinutes \<equiv> 60"

definition getMetaCacheDuration :: "hepc_env \<Rightarrow> int" where
  "getMetaCacheDuration H =
     (let durationStr = he_getenv H ''MRVA_HEPC_CACHE_DURATION'' in
      if durationStr = [] then wrap64 (time_Minute * defaultCacheDurationMinutes)
      else case Atoi durationStr of
        Inl err \<Rightarrow> wrap64 (time_Minute * defaultCacheDurationMinutes)
      | Inr duration \<Rightarrow> wrap64 (time_Minute * duration))"

definition NewHepcStore :: "hepc_env \<Rightarrow> string \<Rightarrow> fs \<Rightarrow> HepcStore" where
  "NewHepcStore H endpoint f =
     \<lparr>hs_Endpoint = endpoint, hs_metadataCache = [], hs_cacheLastUpdated = None, hs_cacheMutex = False,
      hs_cacheDuration = getMetaCacheDuration H, hs_fs = f, hs_clock = 0, hs_requests = 0\<rparr>"

definition time_Now :: "hepc_env \<Rightarrow> (HepcStore, int) prog" where
  "time_Now H h = (Ret (he_now H (hs_clock h)), h\<lparr>hs_clock := Suc (hs_clock h)\<rparr>)"

definition http_Get :: "hepc_env \<Rightarrow> string \<Rightarrow> (HepcStore, http_resp result) prog" where
  "http_Get H url h =
     (case he_get H (hs_requests h) url of
        None \<Rightarrow> (Hang, h\<lparr>hs_requests := Suc (hs_requests h)\<rparr>)
      | Some r \<Rightarrow> (Ret r, h\<lparr>hs_requests := Suc (hs_requests h)\<rparr>))"

definition lift_fs :: "(fs, 'a) prog \<Rightarrow> (HepcStore, 'a) prog" where
  "lift_fs m h = (case m (hs_fs h) of (r, f) \<Rightarrow> (r, h\<lparr>hs_fs := f\<rparr>))"

text \<open>
  The loop that decodes one value after the other until the end of the input; \<open>rerr\<close> is the
  error that reading the input ends with instead of the end of file.  A value takes up at least
  one character.
\<close>

function decode_stream :: "string \<Rightarrow> error option \<Rightarrow> HepcResult list result" where
  "decode_stream s rerr =
     (if skip_ws s = [] then (case rerr of Some err \<Rightarrow> Inl err | None \<Rightarrow> Inr [])
      else case json_decode_first s of
        None \<Rightarrow> Inl (ErrMsg ''json: syntax error'')
      | Some (j, r) \<Rightarrow>
          (case HepcResult_dec j HepcResult0 of
             Inl err \<Rightarrow> Inl err
           | Inr result \<Rightarrow>
               if length r < length s
               then (case decode_stream r rerr of Inl err \<Rightarrow> Inl err | Inr results \<Rightarrow> Inr (result # results))
               else Inl (ErrMsg ''json: syntax error'')))"
  by pat_completeness auto
termination
  by (relation "measure (\<lambda>(s, e). length s)") auto

declare decode_stream.simps [simp del]

definition fetchViaHTTP :: "hepc_env \<Rightarrow> (HepcStore, HepcResult list result) prog" where
  "fetchViaHTTP H = (\<lambda>h.
     bindP (http_Get H (hs_Endpoint h @ ''/index'')) (\<lambda>r.
       case r of
         Inl err \<Rightarrow> retP (Inl (ErrWrap ''error fetching metadata: '' err))
       | Inr resp \<Rightarrow>
           if hr_Status resp \<noteq> 200 then retP (Inl (ErrMsg (''non-OK HTTP status: '' @ Itoa (hr_Status resp))))
           else case decode_stream (hr_Body resp) (hr_Err resp) of
             Inl err \<Rightarrow> retP (Inl (ErrWrap ''error decoding JSON: '' err))
           | Inr results \<Rightarrow> retP (Inr results)) h)"

definition spigot_args :: "string \<Rightarrow> string list" where
  "spigot_args toolName =
     [''spigot-cli'', ''bulk-download-results'', ''--tool-name'', toolName, ''--metadata-only'', ''all'']"

definition missing_vars :: "string \<Rightarrow> string \<Rightarrow> string list" where
  "missing_vars outDir toolName =
     (if outDir = [] then [''MRVA_HEPC_OUTDIR''] else []) @ (if toolName = [] then [''MRVA_HEPC_TOOL''] else [])"

definition run_spigot :: "hepc_env \<Rightarrow> string list \<Rightarrow> (HepcStore, bytes \<times> error option) prog" where
  "run_spigot H args h =
     (case he_spigot H (hs_requests h) args of
        None \<Rightarrow> (Hang, h\<lparr>hs_requests := Suc (hs_requests h)\<rparr>)
      | Some r \<Rightarrow> (Ret r, h\<lparr>hs_requests := Suc (hs_requests h)\<rparr>))"

definition spigot_download :: "hepc_env \<Rightarrow> string \<Rightarrow> string \<Rightarrow> (HepcStore, HepcResult list result) prog" where
  "spigot_download H outDir toolName =
     bindP (lift_fs (os_MkdirAll (he_os H) outDir)) (\<lambda>r.
       case r of
         Inl err \<Rightarrow> retP (Inl err)
       | Inr _ \<Rightarrow>
           (let jsonPath = Join [outDir, ''spigot-results.json''] in
            bindP (lift_fs (os_WriteFile (he_os H) jsonPath [])) (\<lambda>c.
              case c of
                Inl err \<Rightarrow> retP (Inl err)
              | Inr _ \<Rightarrow>
                  bindP (run_spigot H (spigot_args toolName)) (\<lambda>(out, failed).
                    bindP (lift_fs (os_WriteData (he_os H) jsonPath out failed)) (\<lambda>run.
                      case run of
                        Inl err \<Rightarrow> retP (Inl err)
                      | Inr _ \<Rightarrow>
                          bindP (lift_fs (os_ReadFile (he_os H) jsonPath)) (\<lambda>f.
                            case f of
                              Inl err \<Rightarrow> retP (Inl (ErrWrap ''failed to open result file: '' err))
                            | Inr data \<Rightarrow>
                                (case decode_stream data None of
                                   Inl err \<Rightarrow> retP (Inl (ErrWrap ''error decoding CLI JSON: '' err))
                                 | Inr results \<Rightarrow> retP (Inr results))))))))"

definition fetchViaCli :: "hepc_env \<Rightarrow> (HepcStore, HepcResult list result) prog" where
  "fetchViaCli H =
     (let outDir = he_getenv H ''MRVA_HEPC_OUTDIR''; toolName = he_getenv H ''MRVA_HEPC_TOOL'';
          missing = missing_vars outDir toolName in
      if missing \<noteq> []
      then retP (Inl (ErrMsg (''missing required environment variables: '' @ join_with '', '' missing)))
      else if HasPrefix outDir ''~/'' then
        (case he_home H of
           Inl err \<Rightarrow> retP (Inl err)
         | Inr home \<Rightarrow> spigot_download H (Join [home, drop 2 outDir]) toolName)
      else spigot_download H outDir toolName)"

definition fetchMetadata :: "hepc_env \<Rightarrow> (HepcStore, HepcResult list result) prog" where
  "fetchMetadata H =
     (if he_getenv H ''MRVA_HEPC_DATAVIACLI'' = ''1'' then fetchViaCli H else fetchViaHTTP H)"

text \<open>
  \<^verbatim>\<open>time.Since\<close>: the difference of two times, limited to the range of a duration.
\<close>

definition time_Since :: "int option \<Rightarrow> int \<Rightarrow> int" where
  "time_Since t now = (case t of None \<Rightarrow> max_int64 | Some u \<Rightarrow> max (- (2 ^ 63)) (min max_int64 (now - u)))"

text \<open>
  The section under \<^verbatim>\<open>cacheMutex\<close> that both methods begin with.  \<^verbatim>\<open>Lock\<close> waits
  while the mutex is held; it is released on the path of a failed fetch and at the end.
\<close>

definition cacheMutex_Lock :: "(HepcStore, unit) prog" where
  "cacheMutex_Lock h = (if hs_cacheMutex h then (Hang, h) else (Ret (), h\<lparr>hs_cacheMutex := True\<rparr>))"

definition cacheMutex_Unlock :: "(HepcStore, unit) prog" where
  "cacheMutex_Unlock h =
     (if hs_cacheMutex h then (Ret (), h\<lparr>hs_cacheMutex := False\<rparr>)
      else (Panic ''fatal error: sync: unlock of unlocked mutex'', h))"

definition set_cache :: "HepcResult list \<Rightarrow> int \<Rightarrow> (HepcStore, unit) prog" where
  "set_cache results stamp h = (Ret (), h\<lparr>hs_metadataCache := results, hs_cacheLastUpdated := Some stamp\<rparr>)"

definition read_cache :: "(HepcStore, HepcResult list result) prog" where
  "read_cache h = (let cachedResults = hs_metadataCache h in seqP cacheMutex_Unlock (retP (Inr cachedResults)) h)"

definition refresh_cache :: "hepc_env \<Rightarrow> (HepcStore, HepcResult list result) prog" where
  "refresh_cache H =
     seqP cacheMutex_Lock (bindP (time_Now H) (\<lambda>now. (\<lambda>h.
       if time_Since (hs_cacheLastUpdated h) now > hs_cacheDuration h
       then bindP (fetchMetadata H) (\<lambda>r.
              case r of
                Inl err \<Rightarrow> seqP cacheMutex_Unlock (retP (Inl err))
              | Inr results \<Rightarrow>
                  bindP (time_Now H) (\<lambda>stamp. seqP (set_cache results stamp) read_cache)) h
       else read_cache h)))"

definition hepc_FindAvailableDBs ::
  "hepc_env \<Rightarrow> NameWithOwner list \<Rightarrow> (HepcStore, NameWithOwner list \<times> NameWithOwner list) prog" where
  "hepc_FindAvailableDBs H analysisReposRequested =
     bindP (refresh_cache H) (\<lambda>r.
       case r of
         Inl err \<Rightarrow> retP (analysisReposRequested, [])
       | Inr cachedResults \<Rightarrow>
           (let repoSet = set (map Projname cachedResults) in
            retP (filter (\<lambda>reqRepo. full_name reqRepo \<notin> repoSet) analysisReposRequested,
                  filter (\<lambda>reqRepo. full_name reqRepo \<in> repoSet) analysisReposRequested)))"

fun find_tar_entry :: "string \<Rightarrow> archive_entry list \<Rightarrow> error option \<Rightarrow> bytes option result" where
  "find_tar_entry name [] err = (case err of
      Some e \<Rightarrow> Inl (ErrWrap ''failed to read tar entry: '' e) | None \<Rightarrow> Inr None)"
| "find_tar_entry name (hdr # hdrs) err =
     (if ae_Name hdr = name then
        (case ae_Err hdr of
           Some e \<Rightarrow> Inl (ErrWrap ''failed to extract zip from tar: '' e)
         | None \<Rightarrow> Inr (Some (ae_Data hdr)))
      else find_tar_entry name hdrs err)"

text \<open>The results \<open>(data, true)\<close> and \<open>(nil, false)\<close> are \<open>Some data\<close> and \<open>None\<close>.\<close>

definition extractDatabaseFromTar :: "archive_lib \<Rightarrow> bytes \<Rightarrow> bytes option result" where
  "extractDatabaseFromTar L tarStream =
     (case gzip_NewReader L tarStream of
        Inl err \<Rightarrow> Inl (ErrWrap ''failed to open gzip stream: '' err)
      | Inr _ \<Rightarrow>
          (case tar_gz_stream L tarStream of
             (hdrs, err) \<Rightarrow> find_tar_entry ''artifacts/codeql_database.zip'' hdrs err))"

definition replaceHepcURL :: "hepc_env \<Rightarrow> string \<Rightarrow> string" where
  "replaceHepcURL H originalURL =
     (let e = he_getenv H ''MRVA_HEPC_ENDPOINT'';
          hepcEndpoint = (if e = [] then ''http://hepc:8070'' else e)
      in replace_first ''http://hepc'' hepcEndpoint originalURL)"

definition is_gzip :: "bytes \<Rightarrow> bool" where
  "is_gzip d \<longleftrightarrow> take 2 d = [CHR 0x1F, CHR 0x8B]"

definition result_url :: "HepcResult list \<Rightarrow> string \<Rightarrow> string" where
  "result_url cachedResults key =
     (case find (\<lambda>r. Projname r = key) cachedResults of None \<Rightarrow> [] | Some r \<Rightarrow> ResultURL r)"

definition unpack_database :: "hepc_env \<Rightarrow> bytes \<Rightarrow> bytes result" where
  "unpack_database H fullBody =
     (if is_gzip fullBody then
        (case extractDatabaseFromTar (he_lib H) fullBody of
           Inl err \<Rightarrow> Inl err
         | Inr None \<Rightarrow> Inl (ErrMsg ''zip file not found in tar archive'')
         | Inr (Some data) \<Rightarrow> Inr data)
      else Inr fullBody)"

definition hepc_GetDatabase :: "hepc_env \<Rightarrow> NameWithOwner \<Rightarrow> (HepcStore, bytes result) prog" where
  "hepc_GetDatabase H location =
     bindP (refresh_cache H) (\<lambda>r.
       case r of
         Inl err \<Rightarrow> retP (Inl (ErrWrap ''error refreshing metadata cache: '' err))
       | Inr cachedResults \<Rightarrow>
           (let key = full_name location; resultURL = result_url cachedResults key in
            if resultURL = [] then retP (Inl (ErrMsg (''database not found for repository: '' @ key)))
            else bindP (http_Get H (replaceHepcURL H resultURL)) (\<lambda>g.
              case g of
                Inl err \<Rightarrow> retP (Inl (ErrWrap ''error fetching database: '' err))
              | Inr resp \<Rightarrow>
                  if hr_Status resp \<noteq> 200
                  then retP (Inl (ErrMsg (''non-OK HTTP status for database fetch: '' @ Itoa (hr_Status resp))))
                  else case hr_Err resp of
                    Some err \<Rightarrow> retP (Inl (ErrWrap ''error reading database content: '' err))
                  | None \<Rightarrow> retP (unpack_database H (hr_Body resp)))))"

definition Hepc_DBStore :: "hepc_env \<Rightarrow> HepcStore QLDBStore" where
  "Hepc_DBStore H = \<lparr>FindAvailableDBs = hepc_FindAvailableDBs H, GetDatabase = hepc_GetDatabase H\<rparr>"

section \<open>The contract\<close>

text \<open>
  \<open>shuffles nf f\<close> are the lists that interleave the two lists and keep the order of each.
  A method may wait forever for an answer.
\<close>

locale qldb_store =
  fixes S :: "'d QLDBStore"
    and ok :: "'d \<Rightarrow> bool"
  assumes find_dbs: "ok s \<Longrightarrow>
      (\<exists>nf f t. FindAvailableDBs S rs s = (Ret (nf, f), t) \<and> ok t \<and> rs \<in> shuffles nf f)
      \<or> fst (FindAvailableDBs S rs s) = Hang"
    and get_db: "ok s \<Longrightarrow> (\<exists>r t. GetDatabase S n s = (Ret r, t) \<and> ok t) \<or> fst (GetDatabase S n s) = Hang"
begin

text \<open>Every requested repository is reported once: as available or as not found.\<close>

lemma find_dbs_partition:
  assumes "ok s" and "FindAvailableDBs S rs s = (Ret (nf, f), t)"
  shows "set nf \<union> set f = set rs" and "length nf + length f = length rs"
    and "distinct rs \<Longrightarrow> set nf \<inter> set f = {}"
proof -
  have sh: "rs \<in> shuffles nf f" using find_dbs [OF assms(1), of rs] assms(2) by auto
  from set_shuffles [OF sh] show "set nf \<union> set f = set rs" by simp
  from length_shuffles [OF sh] show "length nf + length f = length rs" by simp
  assume "distinct rs"
  then have "card (set nf \<union> set f) = length nf + length f"
    using set_shuffles [OF sh] length_shuffles [OF sh] distinct_card [of rs] by simp
  moreover have "card (set nf) + card (set f) = card (set nf \<union> set f) + card (set nf \<inter> set f)"
    by (rule card_Un_Int) simp_all
  ultimately have "card (set nf \<inter> set f) = 0"
    using card_length [of nf] card_length [of f] by linarith
  then show "set nf \<inter> set f = {}" by simp
qed

end

lemma os_Stat_ret: "\<exists>r t. os_Stat E p s = (Ret r, t)"
  by (auto simp: os_defs Let_def split: option.splits)

lemma os_ReadFile_ret: "\<exists>r t. os_ReadFile E p s = (Ret r, t)"
  by (auto simp: os_defs Let_def split: option.splits)

lemma local_find_shuffles:
  "\<exists>nf f t. local_FindAvailableDBs E basePath rs s = (Ret (nf, f), t) \<and> rs \<in> shuffles nf f"
proof (induction rs arbitrary: s)
  case Nil
  then show ?case by simp
next
  case (Cons r rs)
  obtain x t where x: "os_Stat E (db_file_path basePath r) s = (Ret x, t)" using os_Stat_ret by blast
  obtain nf f u where u: "local_FindAvailableDBs E basePath rs t = (Ret (nf, f), u)" "rs \<in> shuffles nf f"
    using Cons by blast
  then show ?case
    using x by (cases "x = Inl not_exist") (simp_all add: Cons_in_shuffles_leftI Cons_in_shuffles_rightI)
qed

lemma local_get_ret: "\<exists>r t. local_GetDatabase E basePath n s = (Ret r, t)"
proof -
  let ?p = "db_file_path basePath n"
  obtain x t where x: "os_Stat E ?p s = (Ret x, t)" using os_Stat_ret by blast
  obtain d u where "os_ReadFile E ?p t = (Ret d, u)" using os_ReadFile_ret by blast
  with x show ?thesis by (cases d) (auto simp: local_GetDatabase_def Let_def)
qed

interpretation fsdb: qldb_store "Filesystem_DBStore E basePath" "\<lambda>_. True"
  using local_find_shuffles local_get_ret by unfold_locales (simp_all add: Filesystem_DBStore_def)

text \<open>
  A computation of the HEPC store that begins with the mutex free or held returns with it free or
  held again, unless a request or a run of the program is never answered.
\<close>

definition answering :: "hepc_env \<Rightarrow> bool" where
  "answering H \<longleftrightarrow> (\<forall>n url. he_get H n url \<noteq> None) \<and> (\<forall>n args. he_spigot H n args \<noteq> None)"

lemma lift_fs_ret:
  assumes "\<And>f. \<exists>r g. m f = (Ret r, g)"
  shows "\<exists>r t. lift_fs m h = (Ret r, t) \<and> hs_cacheMutex t = hs_cacheMutex h"
  using assms [of "hs_fs h"] by (auto simp: lift_fs_def)

lemma os_ret:
  "\<exists>r t. os_MkdirAll E p s = (Ret r, t)" "\<exists>r t. os_WriteData E p d e s = (Ret r, t)"
  "\<exists>r t. os_WriteFile E p d s = (Ret r, t)" "\<exists>r t. os_ReadFile E p s = (Ret r, t)"
  by (auto simp: os_defs Let_def split: option.splits)

definition settles :: "hepc_env \<Rightarrow> bool \<Rightarrow> (HepcStore, 'a) prog \<Rightarrow> bool" where
  "settles H held m \<longleftrightarrow> (\<forall>h. hs_cacheMutex h = held \<longrightarrow>
     (\<exists>r t. m h = (Ret r, t) \<and> hs_cacheMutex t = held) \<or> (\<not> answering H \<and> fst (m h) = Hang))"

lemma settles_ret [simp]: "settles H held (retP a)"
  by (simp add: settles_def)

lemma settles_bind:
  assumes "settles H held m" and "\<And>a. settles H held (k a)"
  shows "settles H held (bindP m k)"
  unfolding settles_def
proof (intro allI impI)
  fix h :: HepcStore
  assume "hs_cacheMutex h = held"
  with assms(1) consider r t where "m h = (Ret r, t)" "hs_cacheMutex t = held" | "\<not> answering H" "fst (m h) = Hang"
    unfolding settles_def by blast
  then show "(\<exists>r t. bindP m k h = (Ret r, t) \<and> hs_cacheMutex t = held) \<or> (\<not> answering H \<and> fst (bindP m k h) = Hang)"
  proof cases
    case 1
    then show ?thesis using assms(2) [of r] by (simp add: settles_def)
  next
    case 2
    then show ?thesis by (cases "m h") simp
  qed
qed

lemma settles_state: "(\<And>h. settles H held (m h)) \<Longrightarrow> settles H held (\<lambda>h. m h h)"
  by (simp add: settles_def)

lemma settles_lift_fs: "(\<And>f. \<exists>r g. m f = (Ret r, g)) \<Longrightarrow> settles H held (lift_fs m)"
  unfolding settles_def using lift_fs_ret [of m] by metis

lemma settles_basic [simp]:
  "settles H held (lift_fs (os_MkdirAll E p))" "settles H held (lift_fs (os_WriteFile E p d))"
  "settles H held (lift_fs (os_WriteData E p d e))" "settles H held (lift_fs (os_ReadFile E p))"
  by (rule settles_lift_fs, rule os_ret)+

lemma settles_outside [simp]:
  "settles H held (time_Now H)" "settles H held (http_Get H url)" "settles H held (run_spigot H args)"
  by (simp_all add: settles_def time_Now_def http_Get_def run_spigot_def answering_def del: not_None_eq split: option.split) metis+

lemma settles_fetchViaHTTP: "settles H held (fetchViaHTTP H)"
  unfolding fetchViaHTTP_def
  by (rule settles_state) (auto intro!: settles_bind split: sum.split)

lemma settles_spigot: "settles H held (spigot_download H outDir toolName)"
  unfolding spigot_download_def Let_def
  by (auto intro!: settles_bind split: sum.split prod.split)

lemma settles_fetchMetadata: "settles H held (fetchMetadata H)"
  by (auto simp: fetchMetadata_def fetchViaCli_def Let_def settles_fetchViaHTTP settles_spigot split: sum.split)

text \<open>The two ways through the section under the mutex.\<close>

definition cache_valid :: "hepc_env \<Rightarrow> HepcStore \<Rightarrow> bool" where
  "cache_valid H h \<longleftrightarrow> \<not> hs_cacheMutex h \<and>
     time_Since (hs_cacheLastUpdated h) (he_now H (hs_clock h)) \<le> hs_cacheDuration h"

abbreviation ticked :: "HepcStore \<Rightarrow> HepcStore" where
  "ticked h \<equiv> h\<lparr>hs_clock := Suc (hs_clock h)\<rparr>"

lemma refresh_cache_valid:
  "cache_valid H h \<Longrightarrow> refresh_cache H h = (Ret (Inr (hs_metadataCache h)), ticked h)"
  by (simp add: refresh_cache_def cache_valid_def cacheMutex_Lock_def cacheMutex_Unlock_def read_cache_def time_Now_def
      bindP_def seqP_def)

lemma refresh_cache_expired:
  assumes "\<not> hs_cacheMutex h" and "\<not> cache_valid H h"
  shows "refresh_cache H h =
    bindP (fetchMetadata H) (\<lambda>r.
      case r of
        Inl err \<Rightarrow> seqP cacheMutex_Unlock (retP (Inl err))
      | Inr results \<Rightarrow> bindP (time_Now H) (\<lambda>stamp. seqP (set_cache results stamp) read_cache))
    (ticked (h\<lparr>hs_cacheMutex := True\<rparr>))"
  using assms by (simp add: refresh_cache_def cache_valid_def cacheMutex_Lock_def time_Now_def)

lemma fetch_outcome:
  obtains (failed) err t where "fetchMetadata H h = (Ret (Inl err), t)"
    | (fetched) cs t where "fetchMetadata H h = (Ret (Inr cs), t)"
    | (unanswered) t where "\<not> answering H" "fetchMetadata H h = (Hang, t)"
proof -
  have "(\<exists>r t. fetchMetadata H h = (Ret r, t)) \<or> (\<not> answering H \<and> fst (fetchMetadata H h) = Hang)"
    using settles_fetchMetadata [of H "hs_cacheMutex h"] unfolding settles_def by blast
  then show thesis using that by (cases "fetchMetadata H h") (auto elim: sum.exhaust_sel, metis old.sum.exhaust)
qed

text \<open>The fetch does not touch the mutex, however it ends.\<close>

definition mutex_kept :: "(HepcStore, 'a) prog \<Rightarrow> bool" where
  "mutex_kept m \<longleftrightarrow> (\<forall>h. hs_cacheMutex (snd (m h)) = hs_cacheMutex h)"

lemma mutex_kept_ret [simp]: "mutex_kept (retP a)" "mutex_kept (time_Now H)" "mutex_kept (lift_fs m)"
  by (simp_all add: mutex_kept_def time_Now_def lift_fs_def split: prod.split)

lemma mutex_kept_outside [simp]: "mutex_kept (http_Get H url)" "mutex_kept (run_spigot H args)"
  by (simp_all add: mutex_kept_def http_Get_def run_spigot_def split: option.split)

lemma mutex_kept_bind: "mutex_kept m \<Longrightarrow> (\<And>a. mutex_kept (k a)) \<Longrightarrow> mutex_kept (bindP m k)"
  unfolding mutex_kept_def bindP_def by (auto split: prod.split go.split) (metis snd_conv)+

lemma mutex_kept_state: "(\<And>h. mutex_kept (m h)) \<Longrightarrow> mutex_kept (\<lambda>h. m h h)"
  by (simp add: mutex_kept_def)

lemma mutex_kept_fetch: "mutex_kept (fetchMetadata H)"
proof -
  have "mutex_kept (spigot_download H d t)" for d t
    unfolding spigot_download_def Let_def by (auto intro!: mutex_kept_bind split: sum.split prod.split)
  moreover have "mutex_kept (fetchViaHTTP H)"
    unfolding fetchViaHTTP_def by (rule mutex_kept_state) (auto intro!: mutex_kept_bind split: sum.split)
  ultimately show ?thesis
    by (auto simp: fetchMetadata_def fetchViaCli_def Let_def split: sum.split)
qed

lemma fetch_keeps_mutex: "fetchMetadata H h = (r, t) \<Longrightarrow> hs_cacheMutex t = hs_cacheMutex h"
  using mutex_kept_fetch unfolding mutex_kept_def by (metis snd_conv)

lemma refresh_cache_failed:
  assumes "\<not> hs_cacheMutex h" and "\<not> cache_valid H h"
    and "fetchMetadata H (ticked (h\<lparr>hs_cacheMutex := True\<rparr>)) = (Ret (Inl err), t)"
  shows "refresh_cache H h = (Ret (Inl err), t\<lparr>hs_cacheMutex := False\<rparr>)"
proof -
  have "hs_cacheMutex t" using fetch_keeps_mutex [OF assms(3)] by simp
  with assms show ?thesis
    by (simp add: refresh_cache_expired bindP_def cacheMutex_Unlock_def seqP_def)
qed

lemma refresh_cache_fetched:
  assumes "\<not> hs_cacheMutex h" and "\<not> cache_valid H h"
    and "fetchMetadata H (ticked (h\<lparr>hs_cacheMutex := True\<rparr>)) = (Ret (Inr results), t)"
  shows "refresh_cache H h = (Ret (Inr results), (ticked t)\<lparr>hs_cacheMutex := False, hs_metadataCache := results,
    hs_cacheLastUpdated := Some (he_now H (hs_clock t))\<rparr>)"
proof -
  have "hs_cacheMutex t" using fetch_keeps_mutex [OF assms(3)] by simp
  with assms show ?thesis
    by (simp add: refresh_cache_expired bindP_def cacheMutex_Unlock_def seqP_def time_Now_def set_cache_def read_cache_def Let_def)
qed

lemma refresh_cache_unanswered:
  assumes "\<not> hs_cacheMutex h" and "\<not> cache_valid H h"
    and "fetchMetadata H (ticked (h\<lparr>hs_cacheMutex := True\<rparr>)) = (Hang, t)"
  shows "refresh_cache H h = (Hang, t)"
  using assms by (simp add: refresh_cache_expired bindP_def)

lemma settles_refresh_cache: "settles H False (refresh_cache H)"
  unfolding settles_def
proof (intro allI impI)
  fix h :: HepcStore
  assume "hs_cacheMutex h = False"
  then have h: "\<not> hs_cacheMutex h" by simp
  let ?h = "ticked (h\<lparr>hs_cacheMutex := True\<rparr>)"
  show "(\<exists>r t. refresh_cache H h = (Ret r, t) \<and> hs_cacheMutex t = False) \<or> (\<not> answering H \<and> fst (refresh_cache H h) = Hang)"
  proof (cases "cache_valid H h")
    case True
    then show ?thesis using refresh_cache_valid [OF True] h by simp
  next
    case False
    consider err t where "fetchMetadata H ?h = (Ret (Inl err), t)"
      | rs t where "fetchMetadata H ?h = (Ret (Inr rs), t)"
      | t where "\<not> answering H" "fetchMetadata H ?h = (Hang, t)"
      by (rule fetch_outcome)
    then show ?thesis
      by cases (simp_all add: refresh_cache_failed [OF h False] refresh_cache_fetched [OF h False]
          refresh_cache_unanswered [OF h False])
  qed
qed

lemma settles_hepc: "settles H False (hepc_FindAvailableDBs H rs)" "settles H False (hepc_GetDatabase H n)"
  unfolding hepc_FindAvailableDBs_def hepc_GetDatabase_def Let_def
  by (auto intro!: settles_bind settles_refresh_cache split: sum.split option.split)

lemma filter_shuffles: "xs \<in> shuffles (filter (\<lambda>x. \<not> P x) xs) (filter P xs)"
  by (induction xs) (auto intro: Cons_in_shuffles_leftI Cons_in_shuffles_rightI)

lemma hepc_find_shuffles:
  assumes "hepc_FindAvailableDBs H rs h = (Ret (nf, f), t)"
  shows "rs \<in> shuffles nf f"
  using assms filter_shuffles [of rs]
  by (auto simp: hepc_FindAvailableDBs_def bindP_def Let_def split: prod.splits go.splits sum.splits)

interpretation hepc: qldb_store "Hepc_DBStore H" "\<lambda>h. \<not> hs_cacheMutex h"
proof (unfold_locales, goal_cases)
  case (1 s rs)
  then consider r t where "hepc_FindAvailableDBs H rs s = (Ret r, t)" "\<not> hs_cacheMutex t"
    | "fst (hepc_FindAvailableDBs H rs s) = Hang"
    using settles_hepc(1) [of H rs] unfolding settles_def by blast
  then show ?case
    using hepc_find_shuffles [of H rs s] by cases (auto simp: Hepc_DBStore_def)
next
  case (2 s n)
  then show ?case using settles_hepc(2) [of H n] unfolding settles_def Hepc_DBStore_def by auto
qed

text \<open>With every request answered, both methods return.\<close>

lemma hepc_answers:
  "answering H \<Longrightarrow> \<not> hs_cacheMutex h \<Longrightarrow> fst (FindAvailableDBs (Hepc_DBStore H) rs h) \<noteq> Hang"
  "answering H \<Longrightarrow> \<not> hs_cacheMutex h \<Longrightarrow> fst (GetDatabase (Hepc_DBStore H) n h) \<noteq> Hang"
  using settles_hepc(1) [of H rs] settles_hepc(2) [of H n] unfolding settles_def Hepc_DBStore_def by force+

section \<open>The metadata cache\<close>

lemma result_url_found:
  "full_name n \<in> set (map Projname cs) \<Longrightarrow>
     \<exists>r \<in> set cs. Projname r = full_name n \<and> result_url cs (full_name n) = ResultURL r"
proof (induction cs)
  case Nil
  then show ?case by simp
next
  case (Cons c cs)
  then show ?case by (cases "Projname c = full_name n") (auto simp: result_url_def)
qed

text \<open>A store with one database and a valid cache.\<close>

definition hepc_demo :: hepc_env where
  "hepc_demo = \<lparr>he_getenv = (\<lambda>_. []), he_now = int, he_get = (\<lambda>n url. Some (Inr \<lparr>hr_Status = 200, hr_Body = url, hr_Err = None\<rparr>)),
     he_spigot = (\<lambda>_ _. Some ([], None)), he_home = Inr ''/root'', he_os = \<lparr>os_fault = \<lambda>_. None\<rparr>, he_lib = evil_lib\<rparr>"

definition hepc_demo_entry :: HepcResult where
  "hepc_demo_entry = HepcResult0\<lparr>ResultURL := ''http://hepc/c/a.zip'', Projname := ''o/r''\<rparr>"

definition hepc_demo_store :: HepcStore where
  "hepc_demo_store = \<lparr>hs_Endpoint = ''http://hepc'', hs_metadataCache = [hepc_demo_entry],
     hs_cacheLastUpdated = Some 0, hs_cacheMutex = False, hs_cacheDuration = 3600000000000,
     hs_fs = \<lparr>fs_files = [], fs_dirs = [], fs_clock = 0\<rparr>, hs_clock = 0, hs_requests = 0\<rparr>"




text \<open>
  C16. What is reported as available can be fetched: as long as the metadata cache stays valid,
  a repository that \<^verbatim>\<open>FindAvailableDBs\<close> found has an entry in the cache, and
  \<^verbatim>\<open>GetDatabase\<close> makes one request, to the rewritten URL of such an entry, and returns
  the unpacked body of a good response.
\<close>

theorem hepc_find_then_get:
  assumes "cache_valid H h" and "hepc_FindAvailableDBs H rs h = (Ret (nf, f), h')" and "n \<in> set f"
    and "cache_valid H h'" and "\<forall>r \<in> set (hs_metadataCache h). ResultURL r \<noteq> []"
  shows "\<exists>r \<in> set (hs_metadataCache h). Projname r = full_name n \<and>
    (\<forall>body. he_get H (hs_requests h') (replaceHepcURL H (ResultURL r)) =
         Some (Inr \<lparr>hr_Status = 200, hr_Body = body, hr_Err = None\<rparr>) \<longrightarrow>
       hepc_GetDatabase H n h' = (Ret (unpack_database H body),
         h'\<lparr>hs_clock := Suc (hs_clock h'), hs_requests := Suc (hs_requests h')\<rparr>))"
proof -
  have h': "f = filter (\<lambda>n. full_name n \<in> set (map Projname (hs_metadataCache h))) rs"
    "hs_metadataCache h' = hs_metadataCache h"
    using assms(2) refresh_cache_valid [OF assms(1)] by (auto simp: hepc_FindAvailableDBs_def Let_def)
  with assms(3) have "full_name n \<in> set (map Projname (hs_metadataCache h))" by simp
  from result_url_found [OF this] obtain r where r: "r \<in> set (hs_metadataCache h)" "Projname r = full_name n"
    "result_url (hs_metadataCache h) (full_name n) = ResultURL r" by blast
  moreover have "ResultURL r \<noteq> []" using assms(5) r(1) by blast
  ultimately show ?thesis
    using refresh_cache_valid [OF assms(4)] h'(2)
    by (intro bexI [of _ r]) (simp_all add: hepc_GetDatabase_def Let_def http_Get_def bindP_def)
qed

theorem hepc_find_then_get_witness:
  "\<exists>r \<in> set (hs_metadataCache hepc_demo_store). Projname r = full_name \<lparr>Owner = ''o'', Repo = ''r''\<rparr> \<and>
    (\<forall>body. he_get hepc_demo (hs_requests (hepc_demo_store\<lparr>hs_clock := 1\<rparr>)) (replaceHepcURL hepc_demo (ResultURL r)) =
         Some (Inr \<lparr>hr_Status = 200, hr_Body = body, hr_Err = None\<rparr>) \<longrightarrow>
       hepc_GetDatabase hepc_demo \<lparr>Owner = ''o'', Repo = ''r''\<rparr> (hepc_demo_store\<lparr>hs_clock := 1\<rparr>) =
        (Ret (unpack_database hepc_demo body), (hepc_demo_store\<lparr>hs_clock := 1\<rparr>)
         \<lparr>hs_clock := Suc (hs_clock (hepc_demo_store\<lparr>hs_clock := 1\<rparr>)),
          hs_requests := Suc (hs_requests (hepc_demo_store\<lparr>hs_clock := 1\<rparr>))\<rparr>))"
proof (rule hepc_find_then_get)
  show v: "cache_valid hepc_demo hepc_demo_store"
    by (simp add: cache_valid_def hepc_demo_def hepc_demo_store_def time_Since_def)
  show "hepc_FindAvailableDBs hepc_demo [\<lparr>Owner = ''o'', Repo = ''r''\<rparr>] hepc_demo_store =
      (Ret ([], [\<lparr>Owner = ''o'', Repo = ''r''\<rparr>]), hepc_demo_store\<lparr>hs_clock := 1\<rparr>)"
    using refresh_cache_valid [OF v]
    by (simp add: hepc_FindAvailableDBs_def Let_def)
      (simp add: hepc_demo_store_def hepc_demo_entry_def full_name_def)
qed (simp_all add: cache_valid_def hepc_demo_def hepc_demo_store_def time_Since_def hepc_demo_entry_def)

text \<open>
  C33. The cache duration is the configured number of minutes as long as it is a duration of
  292 years at most; one minute more, and the 64-bit multiplication wraps around to a negative duration,
  with which the metadata is fetched for every request.
\<close>

theorem cache_duration_bounds:
  assumes "he_getenv H ''MRVA_HEPC_CACHE_DURATION'' = Itoa n"
  shows "(\<bar>n\<bar> \<le> 153722867 \<longrightarrow> getMetaCacheDuration H = time_Minute * n)
    \<and> (n = 153722868 \<longrightarrow> getMetaCacheDuration H < 0 \<and>
         (\<forall>h. hs_cacheDuration h = getMetaCacheDuration H \<and> hs_cacheLastUpdated h = Some u \<and> u \<le> now \<longrightarrow>
            hs_cacheDuration h < time_Since (hs_cacheLastUpdated h) now))"
proof -
  have "Atoi (Itoa n) = Inr n \<and> Itoa n \<noteq> []" if "\<bar>n\<bar> \<le> 153722868"
  proof
    show "Atoi (Itoa n) = Inr n" using ParseInt_Itoa [of 64 n] that by (simp add: Atoi_def abs_le_iff)
    show "Itoa n \<noteq> []" using digits10_hd by (simp add: Itoa_def)
  qed
  then have "getMetaCacheDuration H = wrap64 (time_Minute * n)" if "\<bar>n\<bar> \<le> 153722868"
    using assms that by (simp add: getMetaCacheDuration_def)
  then show ?thesis
    by (auto simp: wrap64_id wrap64_def time_Since_def)
qed

theorem cache_duration_bounds_witness:
  "getMetaCacheDuration (hepc_demo\<lparr>he_getenv := (\<lambda>_. Itoa 60)\<rparr>) = time_Minute * 60"
  using cache_duration_bounds [of "hepc_demo\<lparr>he_getenv := (\<lambda>_. Itoa 60)\<rparr>" 60] by simp

end
