(* ===== verification/Job_Codec.thy ===== *)
theory Job_Codec
  imports Common_Types Go_Json Base64
begin

text \<open>
  The wire formats of the system: how the structs that cross a process boundary are written
  as JSON and read back.  \<^verbatim>\<open>EncodeJobSpec\<close> and \<^verbatim>\<open>DecodeJobSpec\<close>
  (\<^verbatim>\<open>pkg/common/jobspec.go\<close>) make the opaque token of a download URL; jobs and results
  travel through the message queue and, with the job information, into JSON columns of the
  database; the submission message comes from the client.  A struct without JSON tags uses the
  names of its Go fields, an embedded struct contributes its fields to the enclosing object.

  For every format the round trip is proved, for structs whose strings are valid UTF-8 and
  whose integers fit into 64 bits, which is what the Go types can hold and JSON can carry.
\<close>

section \<open>Writing\<close>

definition JInt :: "int \<Rightarrow> json" where
  "JInt i = JNum (Itoa i)"

definition JobSpec_members :: "JobSpec \<Rightarrow> (string \<times> json) list" where
  "JobSpec_members js =
     [(''SessionID'', JInt (SessionID js)), (''Owner'', JStr (Owner (NWO js))), (''Repo'', JStr (Repo (NWO js)))]"

definition JobSpec_json :: "JobSpec \<Rightarrow> json" where
  "JobSpec_json js = JObj (JobSpec_members js)"

definition ArtifactLocation_json :: "ArtifactLocation \<Rightarrow> json" where
  "ArtifactLocation_json l = JObj [(''Key'', JStr (loc_Key l)), (''Bucket'', JStr (loc_Bucket l))]"

definition AnalyzeJob_json :: "AnalyzeJob \<Rightarrow> json" where
  "AnalyzeJob_json j =
     JObj [(''Spec'', JobSpec_json (job_Spec j)),
           (''QueryPackLocation'', ArtifactLocation_json (job_QueryPackLocation j)),
           (''QueryLanguage'', JStr (job_QueryLanguage j))]"

definition AnalyzeResult_json :: "AnalyzeResult \<Rightarrow> json" where
  "AnalyzeResult_json r =
     JObj [(''Spec'', JobSpec_json (res_Spec r)),
           (''Status'', JInt (res_Status r)),
           (''ResultCount'', JInt (res_ResultCount r)),
           (''ResultLocation'', ArtifactLocation_json (res_ResultLocation r)),
           (''SourceLocationPrefix'', JStr (res_SourceLocationPrefix r)),
           (''DatabaseSHA'', JStr (res_DatabaseSHA r))]"

definition Repository_json :: "Repository \<Rightarrow> json" where
  "Repository_json r =
     JObj [(''id'', JInt (repo_ID r)), (''name'', JStr (repo_Name r)), (''full_name'', JStr (repo_FullName r)),
           (''private'', JBool (repo_Private r)), (''stargazers_count'', JInt (repo_StargazersCount r)),
           (''updated_at'', JStr (repo_UpdatedAt r))]"

definition AccessMismatchRepos_json :: "AccessMismatchRepos \<Rightarrow> json" where
  "AccessMismatchRepos_json r =
     JObj [(''repository_count'', JInt (amr_RepositoryCount r)),
           (''repositories'', JArr (map Repository_json (amr_Repositories r)))]"

definition NotFoundRepos_json :: "NotFoundRepos \<Rightarrow> json" where
  "NotFoundRepos_json r =
     JObj [(''repository_count'', JInt (nfr_RepositoryCount r)),
           (''repository_full_names'', JArr (map JStr (nfr_RepositoryFullNames r)))]"

definition NoCodeqlDBRepos_json :: "NoCodeqlDBRepos \<Rightarrow> json" where
  "NoCodeqlDBRepos_json r =
     JObj [(''repository_count'', JInt (ndr_RepositoryCount r)),
           (''repositories'', JArr (map Repository_json (ndr_Repositories r)))]"

definition OverLimitRepos_json :: "OverLimitRepos \<Rightarrow> json" where
  "OverLimitRepos_json r =
     JObj [(''repository_count'', JInt (olr_RepositoryCount r)),
           (''repositories'', JArr (map Repository_json (olr_Repositories r)))]"

definition SkippedRepositories_json :: "SkippedRepositories \<Rightarrow> json" where
  "SkippedRepositories_json s =
     JObj [(''access_mismatch_repos'', AccessMismatchRepos_json (skip_AccessMismatchRepos s)),
           (''not_found_repos'', NotFoundRepos_json (skip_NotFoundRepos s)),
           (''no_codeql_db_repos'', NoCodeqlDBRepos_json (skip_NoCodeqlDBRepos s)),
           (''over_limit_repos'', OverLimitRepos_json (skip_OverLimitRepos s))]"

definition JobInfo_json :: "JobInfo \<Rightarrow> json" where
  "JobInfo_json i =
     JObj [(''QueryLanguage'', JStr (ji_QueryLanguage i)), (''CreatedAt'', JStr (ji_CreatedAt i)),
           (''UpdatedAt'', JStr (ji_UpdatedAt i)),
           (''SkippedRepositories'', SkippedRepositories_json (ji_SkippedRepositories i))]"

section \<open>Reading\<close>

definition JobSpec0 :: JobSpec where
  "JobSpec0 = \<lparr>SessionID = 0, NWO = \<lparr>Owner = [], Repo = []\<rparr>\<rparr>"

definition JobSpec_dec :: "JobSpec field_dec" where
  "JobSpec_dec = dec_struct False
     [(''SessionID'', dec_int (\<lambda>i v. v\<lparr>SessionID := i\<rparr>)),
      (''Owner'', dec_str (\<lambda>s v. v\<lparr>NWO := (NWO v)\<lparr>Owner := s\<rparr>\<rparr>)),
      (''Repo'', dec_str (\<lambda>s v. v\<lparr>NWO := (NWO v)\<lparr>Repo := s\<rparr>\<rparr>))]"

definition ArtifactLocation_dec :: "ArtifactLocation field_dec" where
  "ArtifactLocation_dec = dec_struct False
     [(''Key'', dec_str (\<lambda>s v. v\<lparr>loc_Key := s\<rparr>)), (''Bucket'', dec_str (\<lambda>s v. v\<lparr>loc_Bucket := s\<rparr>))]"

definition AnalyzeJob0 :: AnalyzeJob where
  "AnalyzeJob0 = \<lparr>job_Spec = JobSpec0, job_QueryPackLocation = ArtifactLocation0, job_QueryLanguage = []\<rparr>"

definition AnalyzeJob_dec :: "AnalyzeJob field_dec" where
  "AnalyzeJob_dec = dec_struct False
     [(''Spec'', dec_sub job_Spec (\<lambda>s v. v\<lparr>job_Spec := s\<rparr>) JobSpec_dec),
      (''QueryPackLocation'',
         dec_sub job_QueryPackLocation (\<lambda>s v. v\<lparr>job_QueryPackLocation := s\<rparr>) ArtifactLocation_dec),
      (''QueryLanguage'', dec_str (\<lambda>s v. v\<lparr>job_QueryLanguage := s\<rparr>))]"

definition AnalyzeResult0 :: AnalyzeResult where
  "AnalyzeResult0 =
     \<lparr>res_Spec = JobSpec0, res_Status = 0, res_ResultCount = 0, res_ResultLocation = ArtifactLocation0,
      res_SourceLocationPrefix = [], res_DatabaseSHA = []\<rparr>"

definition AnalyzeResult_dec :: "AnalyzeResult field_dec" where
  "AnalyzeResult_dec = dec_struct False
     [(''Spec'', dec_sub res_Spec (\<lambda>s v. v\<lparr>res_Spec := s\<rparr>) JobSpec_dec),
      (''Status'', dec_int (\<lambda>i v. v\<lparr>res_Status := i\<rparr>)),
      (''ResultCount'', dec_int (\<lambda>i v. v\<lparr>res_ResultCount := i\<rparr>)),
      (''ResultLocation'', dec_sub res_ResultLocation (\<lambda>s v. v\<lparr>res_ResultLocation := s\<rparr>) ArtifactLocation_dec),
      (''SourceLocationPrefix'', dec_str (\<lambda>s v. v\<lparr>res_SourceLocationPrefix := s\<rparr>)),
      (''DatabaseSHA'', dec_str (\<lambda>s v. v\<lparr>res_DatabaseSHA := s\<rparr>))]"

definition Repository0 :: Repository where
  "Repository0 = \<lparr>repo_ID = 0, repo_Name = [], repo_FullName = [], repo_Private = False,
     repo_StargazersCount = 0, repo_UpdatedAt = []\<rparr>"

definition Repository_dec :: "Repository field_dec" where
  "Repository_dec = dec_struct False
     [(''id'', dec_int (\<lambda>i v. v\<lparr>repo_ID := i\<rparr>)),
      (''name'', dec_str (\<lambda>s v. v\<lparr>repo_Name := s\<rparr>)),
      (''full_name'', dec_str (\<lambda>s v. v\<lparr>repo_FullName := s\<rparr>)),
      (''private'', dec_bool (\<lambda>b v. v\<lparr>repo_Private := b\<rparr>)),
      (''stargazers_count'', dec_int (\<lambda>i v. v\<lparr>repo_StargazersCount := i\<rparr>)),
      (''updated_at'', dec_str (\<lambda>s v. v\<lparr>repo_UpdatedAt := s\<rparr>))]"

definition SkippedRepositories0 :: SkippedRepositories where
  "SkippedRepositories0 =
     \<lparr>skip_AccessMismatchRepos = \<lparr>amr_RepositoryCount = 0, amr_Repositories = []\<rparr>,
      skip_NotFoundRepos = \<lparr>nfr_RepositoryCount = 0, nfr_RepositoryFullNames = []\<rparr>,
      skip_NoCodeqlDBRepos = \<lparr>ndr_RepositoryCount = 0, ndr_Repositories = []\<rparr>,
      skip_OverLimitRepos = \<lparr>olr_RepositoryCount = 0, olr_Repositories = []\<rparr>\<rparr>"

definition AccessMismatchRepos_dec :: "AccessMismatchRepos field_dec" where
  "AccessMismatchRepos_dec = dec_struct False
     [(''repository_count'', dec_int (\<lambda>i v. v\<lparr>amr_RepositoryCount := i\<rparr>)),
      (''repositories'', dec_list Repository_dec Repository0 (\<lambda>rs v. v\<lparr>amr_Repositories := rs\<rparr>))]"

definition NotFoundRepos_dec :: "NotFoundRepos field_dec" where
  "NotFoundRepos_dec = dec_struct False
     [(''repository_count'', dec_int (\<lambda>i v. v\<lparr>nfr_RepositoryCount := i\<rparr>)),
      (''repository_full_names'',
         dec_list (dec_str (\<lambda>s v. s)) [] (\<lambda>rs v. v\<lparr>nfr_RepositoryFullNames := rs\<rparr>))]"

definition NoCodeqlDBRepos_dec :: "NoCodeqlDBRepos field_dec" where
  "NoCodeqlDBRepos_dec = dec_struct False
     [(''repository_count'', dec_int (\<lambda>i v. v\<lparr>ndr_RepositoryCount := i\<rparr>)),
      (''repositories'', dec_list Repository_dec Repository0 (\<lambda>rs v. v\<lparr>ndr_Repositories := rs\<rparr>))]"

definition OverLimitRepos_dec :: "OverLimitRepos field_dec" where
  "OverLimitRepos_dec = dec_struct False
     [(''repository_count'', dec_int (\<lambda>i v. v\<lparr>olr_RepositoryCount := i\<rparr>)),
      (''repositories'', dec_list Repository_dec Repository0 (\<lambda>rs v. v\<lparr>olr_Repositories := rs\<rparr>))]"

definition SkippedRepositories_dec :: "SkippedRepositories field_dec" where
  "SkippedRepositories_dec = dec_struct False
     [(''access_mismatch_repos'', dec_sub skip_AccessMismatchRepos
         (\<lambda>s v. v\<lparr>skip_AccessMismatchRepos := s\<rparr>) AccessMismatchRepos_dec),
      (''not_found_repos'', dec_sub skip_NotFoundRepos
         (\<lambda>s v. v\<lparr>skip_NotFoundRepos := s\<rparr>) NotFoundRepos_dec),
      (''no_codeql_db_repos'', dec_sub skip_NoCodeqlDBRepos
         (\<lambda>s v. v\<lparr>skip_NoCodeqlDBRepos := s\<rparr>) NoCodeqlDBRepos_dec),
      (''over_limit_repos'', dec_sub skip_OverLimitRepos
         (\<lambda>s v. v\<lparr>skip_OverLimitRepos := s\<rparr>) OverLimitRepos_dec)]"

definition JobInfo0 :: JobInfo where
  "JobInfo0 = \<lparr>ji_QueryLanguage = [], ji_CreatedAt = [], ji_UpdatedAt = [],
     ji_SkippedRepositories = SkippedRepositories0\<rparr>"

definition JobInfo_dec :: "JobInfo field_dec" where
  "JobInfo_dec = dec_struct False
     [(''QueryLanguage'', dec_str (\<lambda>s v. v\<lparr>ji_QueryLanguage := s\<rparr>)),
      (''CreatedAt'', dec_str (\<lambda>s v. v\<lparr>ji_CreatedAt := s\<rparr>)),
      (''UpdatedAt'', dec_str (\<lambda>s v. v\<lparr>ji_UpdatedAt := s\<rparr>)),
      (''SkippedRepositories'', dec_sub ji_SkippedRepositories
         (\<lambda>s v. v\<lparr>ji_SkippedRepositories := s\<rparr>) SkippedRepositories_dec)]"

definition SubmitMsg0 :: SubmitMsg where
  "SubmitMsg0 = \<lparr>msg_ActionRepoRef = [], msg_Language = [], msg_QueryPack = [], msg_Repositories = []\<rparr>"

definition SubmitMsg_dec :: "SubmitMsg field_dec" where
  "SubmitMsg_dec = dec_struct True
     [(''action_repo_ref'', dec_str (\<lambda>s v. v\<lparr>msg_ActionRepoRef := s\<rparr>)),
      (''language'', dec_str (\<lambda>s v. v\<lparr>msg_Language := s\<rparr>)),
      (''query_pack'', dec_str (\<lambda>s v. v\<lparr>msg_QueryPack := s\<rparr>)),
      (''repositories'', dec_list (dec_str (\<lambda>s v. s)) [] (\<lambda>rs v. v\<lparr>msg_Repositories := rs\<rparr>))]"

section \<open>Job specifications in URLs\<close>

text \<open>\<^verbatim>\<open>json.Marshal\<close> has no failing case for the type of a job specification.\<close>

definition EncodeJobSpec :: "JobSpec \<Rightarrow> string result" where
  "EncodeJobSpec jobSpec = Inr (b64_encode URLEncoding (json_text (JobSpec_json jobSpec)))"

definition DecodeJobSpec :: "string \<Rightarrow> JobSpec result" where
  "DecodeJobSpec encoded =
     (case b64_decode URLEncoding encoded of
        Inl err \<Rightarrow> Inl err
      | Inr data \<Rightarrow>
          (case json_unmarshal JobSpec_dec JobSpec0 data of
             Inl err \<Rightarrow> Inl err
           | Inr jobSpec \<Rightarrow> Inr jobSpec))"

section \<open>Round trips\<close>

definition int64_ok :: "int \<Rightarrow> bool" where
  "int64_ok i \<longleftrightarrow> - (2 ^ 63) \<le> i \<and> i \<le> max_int64"

lemma ParseInt_Itoa64 [simp]: "int64_ok i \<Longrightarrow> ParseInt 64 (Itoa i) = Inr i"
  using ParseInt_Itoa [of 64 i] by (simp add: int64_ok_def)

definition wf_JobSpec :: "JobSpec \<Rightarrow> bool" where
  "wf_JobSpec js \<longleftrightarrow> int64_ok (SessionID js) \<and> valid_utf8 (Owner (NWO js)) \<and> valid_utf8 (Repo (NWO js))"

definition wf_ArtifactLocation :: "ArtifactLocation \<Rightarrow> bool" where
  "wf_ArtifactLocation l \<longleftrightarrow> valid_utf8 (loc_Key l) \<and> valid_utf8 (loc_Bucket l)"

definition wf_AnalyzeJob :: "AnalyzeJob \<Rightarrow> bool" where
  "wf_AnalyzeJob j \<longleftrightarrow> wf_JobSpec (job_Spec j) \<and> wf_ArtifactLocation (job_QueryPackLocation j)
     \<and> valid_utf8 (job_QueryLanguage j)"

definition wf_AnalyzeResult :: "AnalyzeResult \<Rightarrow> bool" where
  "wf_AnalyzeResult r \<longleftrightarrow> wf_JobSpec (res_Spec r) \<and> int64_ok (res_Status r) \<and> int64_ok (res_ResultCount r)
     \<and> wf_ArtifactLocation (res_ResultLocation r) \<and> valid_utf8 (res_SourceLocationPrefix r)
     \<and> valid_utf8 (res_DatabaseSHA r)"

definition wf_Repository :: "Repository \<Rightarrow> bool" where
  "wf_Repository r \<longleftrightarrow> int64_ok (repo_ID r) \<and> valid_utf8 (repo_Name r) \<and> valid_utf8 (repo_FullName r)
     \<and> int64_ok (repo_StargazersCount r) \<and> valid_utf8 (repo_UpdatedAt r)"

definition wf_SkippedRepositories :: "SkippedRepositories \<Rightarrow> bool" where
  "wf_SkippedRepositories s \<longleftrightarrow>
     int64_ok (amr_RepositoryCount (skip_AccessMismatchRepos s)) \<and>
     list_all wf_Repository (amr_Repositories (skip_AccessMismatchRepos s)) \<and>
     int64_ok (nfr_RepositoryCount (skip_NotFoundRepos s)) \<and>
     list_all valid_utf8 (nfr_RepositoryFullNames (skip_NotFoundRepos s)) \<and>
     int64_ok (ndr_RepositoryCount (skip_NoCodeqlDBRepos s)) \<and>
     list_all wf_Repository (ndr_Repositories (skip_NoCodeqlDBRepos s)) \<and>
     int64_ok (olr_RepositoryCount (skip_OverLimitRepos s)) \<and>
     list_all wf_Repository (olr_Repositories (skip_OverLimitRepos s))"

definition wf_JobInfo :: "JobInfo \<Rightarrow> bool" where
  "wf_JobInfo i \<longleftrightarrow> valid_utf8 (ji_QueryLanguage i) \<and> valid_utf8 (ji_CreatedAt i)
     \<and> valid_utf8 (ji_UpdatedAt i) \<and> wf_SkippedRepositories (ji_SkippedRepositories i)"

text \<open>Decoding undoes encoding on the level of JSON values.\<close>

lemma JobSpec_dec_json: "wf_JobSpec js \<Longrightarrow> JobSpec_dec (JobSpec_json js) v = Inr js"
  by (simp add: JobSpec_dec_def JobSpec_json_def JobSpec_members_def JInt_def json_dec_defs wf_JobSpec_def)

lemma ArtifactLocation_dec_json: "ArtifactLocation_dec (ArtifactLocation_json l) v = Inr l"
  by (simp add: ArtifactLocation_dec_def ArtifactLocation_json_def json_dec_defs)

lemma AnalyzeJob_dec_json: "wf_AnalyzeJob j \<Longrightarrow> AnalyzeJob_dec (AnalyzeJob_json j) v = Inr j"
  by (simp add: AnalyzeJob_dec_def AnalyzeJob_json_def json_dec_defs wf_AnalyzeJob_def
      JobSpec_dec_json ArtifactLocation_dec_json)

lemma AnalyzeResult_dec_json: "wf_AnalyzeResult r \<Longrightarrow> AnalyzeResult_dec (AnalyzeResult_json r) v = Inr r"
  by (simp add: AnalyzeResult_dec_def AnalyzeResult_json_def JInt_def json_dec_defs wf_AnalyzeResult_def
      JobSpec_dec_json ArtifactLocation_dec_json)

lemma Repository_dec_json: "wf_Repository r \<Longrightarrow> Repository_dec (Repository_json r) v = Inr r"
  by (simp add: Repository_dec_def Repository_json_def JInt_def json_dec_defs wf_Repository_def)

lemma dec_elems_Repository:
  "list_all wf_Repository rs \<Longrightarrow> dec_elems Repository_dec Repository0 (map Repository_json rs) = Inr rs"
  by (rule dec_elems_map) (simp add: Repository_dec_json list_all_iff)

lemma dec_elems_strings: "dec_elems (dec_str (\<lambda>s v. s)) [] (map JStr ss) = Inr ss"
  by (rule dec_elems_map) (simp add: dec_str_def)

lemma SkippedRepositories_dec_json:
  "wf_SkippedRepositories s \<Longrightarrow> SkippedRepositories_dec (SkippedRepositories_json s) v = Inr s"
  by (simp add: SkippedRepositories_dec_def SkippedRepositories_json_def AccessMismatchRepos_json_def
      NotFoundRepos_json_def NoCodeqlDBRepos_json_def OverLimitRepos_json_def AccessMismatchRepos_dec_def
      NotFoundRepos_dec_def NoCodeqlDBRepos_dec_def OverLimitRepos_dec_def JInt_def json_dec_defs
      wf_SkippedRepositories_def dec_elems_Repository dec_elems_strings)

lemma JobInfo_dec_json: "wf_JobInfo i \<Longrightarrow> JobInfo_dec (JobInfo_json i) v = Inr i"
  by (simp add: JobInfo_dec_def JobInfo_json_def json_dec_defs wf_JobInfo_def SkippedRepositories_dec_json)

text \<open>The JSON values are well formed, so their texts parse back.\<close>

lemma wf_JInt [simp]: "wf_json (JInt i)"
  by (auto simp: JInt_def)

lemma depth_JInt [simp]: "json_depth (JInt i) = 0"
  by (simp add: JInt_def)

lemma valid_utf8_names [simp]:
  "valid_utf8 ''SessionID''" "valid_utf8 ''Owner''" "valid_utf8 ''Repo''" "valid_utf8 ''Key''"
  "valid_utf8 ''Bucket''" "valid_utf8 ''Spec''" "valid_utf8 ''QueryPackLocation''"
  "valid_utf8 ''QueryLanguage''" "valid_utf8 ''Status''" "valid_utf8 ''ResultCount''"
  "valid_utf8 ''ResultLocation''" "valid_utf8 ''SourceLocationPrefix''" "valid_utf8 ''DatabaseSHA''"
  by (rule valid_utf8_ascii; simp)+

lemma wf_JobSpec_json [simp]: "wf_JobSpec js \<Longrightarrow> wf_json (JobSpec_json js)"
  by (simp add: JobSpec_json_def JobSpec_members_def wf_JobSpec_def)

lemma wf_ArtifactLocation_json [simp]: "wf_ArtifactLocation l \<Longrightarrow> wf_json (ArtifactLocation_json l)"
  by (simp add: ArtifactLocation_json_def wf_ArtifactLocation_def)

lemma depth_codec [simp]: "json_depth (JobSpec_json js) = 1" "json_depth (ArtifactLocation_json l) = 1"
  by (simp_all add: JobSpec_json_def JobSpec_members_def ArtifactLocation_json_def)

lemma JobSpec_unmarshal:
  "wf_JobSpec js \<Longrightarrow> json_unmarshal JobSpec_dec v (json_text (JobSpec_json js)) = Inr js"
  by (simp add: json_unmarshal_def json_parse_text JobSpec_dec_json)

lemma AnalyzeJob_unmarshal:
  assumes "wf_AnalyzeJob j"
  shows "json_unmarshal AnalyzeJob_dec v (json_text (AnalyzeJob_json j)) = Inr j"
proof -
  have "wf_json (AnalyzeJob_json j)" "json_depth (AnalyzeJob_json j) \<le> 10000"
    using assms by (simp_all add: AnalyzeJob_json_def wf_AnalyzeJob_def)
  then show ?thesis by (simp add: json_unmarshal_def json_parse_text AnalyzeJob_dec_json [OF assms])
qed

lemma AnalyzeResult_unmarshal:
  assumes "wf_AnalyzeResult r"
  shows "json_unmarshal AnalyzeResult_dec v (json_text (AnalyzeResult_json r)) = Inr r"
proof -
  have "wf_json (AnalyzeResult_json r)" "json_depth (AnalyzeResult_json r) \<le> 10000"
    using assms by (simp_all add: AnalyzeResult_json_def wf_AnalyzeResult_def)
  then show ?thesis by (simp add: json_unmarshal_def json_parse_text AnalyzeResult_dec_json [OF assms])
qed

lemma valid_utf8_info_names [simp]:
  "valid_utf8 ''id''" "valid_utf8 ''name''" "valid_utf8 ''full_name''" "valid_utf8 ''private''"
  "valid_utf8 ''stargazers_count''" "valid_utf8 ''updated_at''" "valid_utf8 ''repository_count''"
  "valid_utf8 ''repositories''" "valid_utf8 ''repository_full_names''" "valid_utf8 ''access_mismatch_repos''"
  "valid_utf8 ''not_found_repos''" "valid_utf8 ''no_codeql_db_repos''" "valid_utf8 ''over_limit_repos''"
  "valid_utf8 ''CreatedAt''" "valid_utf8 ''UpdatedAt''" "valid_utf8 ''SkippedRepositories''"
  by (rule valid_utf8_ascii; simp)+

lemma wf_Repository_json [simp]: "wf_Repository r \<Longrightarrow> wf_json (Repository_json r)"
  by (simp add: Repository_json_def wf_Repository_def)

lemma depth_Repository_json [simp]: "json_depth (Repository_json r) = 1"
  by (simp add: Repository_json_def)

lemma wf_JobInfo_json: "wf_JobInfo i \<Longrightarrow> wf_json (JobInfo_json i)"
  by (simp add: JobInfo_json_def SkippedRepositories_json_def AccessMismatchRepos_json_def
      NotFoundRepos_json_def NoCodeqlDBRepos_json_def OverLimitRepos_json_def wf_JobInfo_def
      wf_SkippedRepositories_def list_all_iff)

lemma depth_JobInfo_json: "json_depth (JobInfo_json i) \<le> 10000"
proof -
  have r: "elems_depth (map Repository_json rs) \<le> 9996" for rs by (rule elems_depth_map) simp
  have s: "elems_depth (map JStr ss) \<le> 9996" for ss by (rule elems_depth_map) simp
  show ?thesis
    by (simp add: JobInfo_json_def SkippedRepositories_json_def AccessMismatchRepos_json_def
        NotFoundRepos_json_def NoCodeqlDBRepos_json_def OverLimitRepos_json_def r s
        del: elems_depth.simps)
qed

text \<open>
  C11. The token of a download URL identifies its job: for every job specification with valid
  UTF-8 names, \<^verbatim>\<open>EncodeJobSpec\<close> produces a token, and \<^verbatim>\<open>DecodeJobSpec\<close> of
  that token is the job specification again.
\<close>

theorem DecodeJobSpec_EncodeJobSpec:
  assumes "wf_JobSpec js"
  shows "\<exists>tok. EncodeJobSpec js = Inr tok \<and> DecodeJobSpec tok = Inr js"
  using assms by (simp add: EncodeJobSpec_def DecodeJobSpec_def b64_decode_encode JobSpec_unmarshal)

theorem DecodeJobSpec_EncodeJobSpec_witness:
  "\<exists>tok. EncodeJobSpec \<lparr>SessionID = 7, NWO = \<lparr>Owner = ''google'', Repo = ''flatbuffers''\<rparr>\<rparr> = Inr tok \<and>
     DecodeJobSpec tok = Inr \<lparr>SessionID = 7, NWO = \<lparr>Owner = ''google'', Repo = ''flatbuffers''\<rparr>\<rparr>"
  by (rule DecodeJobSpec_EncodeJobSpec) (simp add: wf_JobSpec_def int64_ok_def valid_utf8_ascii)

end
