(* ===== verification/Queue.thy ===== *)
theory Queue
  imports Job_Codec
begin

text \<open>
  The queue between the server and the agents, package \<^verbatim>\<open>pkg/queue\<close>.  The interface
  \<^verbatim>\<open>queue.Queue\<close> hands out two Go channels; the record \<open>Queue\<close> holds the four
  operations that its clients perform on them, and \<^verbatim>\<open>Close\<close>.  This theory models Go
  channels and the in-process queue \<^verbatim>\<open>QueueSingle\<close>, and states the contract
  \<open>job_queue\<close>: both directions are first-in first-out and lose nothing.
\<close>

section \<open>Channels\<close>

record 'a chan =
  ch_buf :: "'a list"
  ch_cap :: nat
  ch_closed :: bool

definition make_chan :: "nat \<Rightarrow> 'a chan" where
  "make_chan n = \<lparr>ch_buf = [], ch_cap = n, ch_closed = False\<rparr>"

text \<open>
  A send on a closed channel panics.  A send on a full channel waits for a receiver, a receive
  on an empty one for a sender or for the channel to be closed; within one sequential run nobody else acts, so
  the call does not return.
\<close>

definition chan_send :: "'a \<Rightarrow> ('a chan, unit) prog" where
  "chan_send x c =
     (if ch_closed c then (Panic ''send on closed channel'', c)
      else if length (ch_buf c) < ch_cap c then (Ret (), c\<lparr>ch_buf := ch_buf c @ [x]\<rparr>)
      else (Hang, c))"

definition chan_recv :: "('a chan, 'a option) prog" where
  "chan_recv c =
     (case ch_buf c of
        x # xs \<Rightarrow> (Ret (Some x), c\<lparr>ch_buf := xs\<rparr>)
      | [] \<Rightarrow> if ch_closed c then (Ret None, c) else (Hang, c))"

definition chan_close :: "('a chan, unit) prog" where
  "chan_close c =
     (if ch_closed c then (Panic ''close of closed channel'', c) else (Ret (), c\<lparr>ch_closed := True\<rparr>))"

section \<open>The interface\<close>

record 'q Queue =
  q_SendJob :: "AnalyzeJob \<Rightarrow> ('q, unit) prog"
  q_RecvJob :: "('q, AnalyzeJob option) prog"
  q_SendResult :: "AnalyzeResult \<Rightarrow> ('q, unit) prog"
  q_RecvResult :: "('q, AnalyzeResult option) prog"
  q_Close :: "('q, unit) prog"

section \<open>The in-process queue\<close>

record QueueSingle =
  qs_NumWorkers :: int
  qs_jobs :: "AnalyzeJob chan"
  qs_results :: "AnalyzeResult chan"

definition NewQueueSingle :: "int \<Rightarrow> QueueSingle" where
  "NewQueueSingle numWorkers = \<lparr>qs_NumWorkers = numWorkers, qs_jobs = make_chan 10, qs_results = make_chan 10\<rparr>"

definition on_jobs :: "(AnalyzeJob chan, 'a) prog \<Rightarrow> (QueueSingle, 'a) prog" where
  "on_jobs m q = (case m (qs_jobs q) of (r, c) \<Rightarrow> (r, q\<lparr>qs_jobs := c\<rparr>))"

definition on_results :: "(AnalyzeResult chan, 'a) prog \<Rightarrow> (QueueSingle, 'a) prog" where
  "on_results m q = (case m (qs_results q) of (r, c) \<Rightarrow> (r, q\<lparr>qs_results := c\<rparr>))"

definition qs_Close :: "(QueueSingle, unit) prog" where
  "qs_Close = seqP (on_jobs chan_close) (on_results chan_close)"

definition Single_Queue :: "QueueSingle Queue" where
  "Single_Queue =
     \<lparr>q_SendJob = (\<lambda>j. on_jobs (chan_send j)), q_RecvJob = on_jobs chan_recv,
      q_SendResult = (\<lambda>r. on_results (chan_send r)), q_RecvResult = on_results chan_recv,
      q_Close = qs_Close\<rparr>"

text \<open>A receiver that takes \<open>n\<close> jobs, unless the channel is closed before.\<close>

fun recv_jobs :: "'q Queue \<Rightarrow> nat \<Rightarrow> ('q, AnalyzeJob list) prog" where
  "recv_jobs Q 0 = retP []"
| "recv_jobs Q (Suc n) = bindP (q_RecvJob Q) (\<lambda>r.
     case r of None \<Rightarrow> retP [] | Some j \<Rightarrow> bindP (recv_jobs Q n) (\<lambda>js. retP (j # js)))"

section \<open>The contract\<close>

text \<open>
  \<open>jobs\<close> and \<open>results\<close> are the messages under way, oldest first; \<open>free_jobs q n\<close> and
  \<open>free_results q n\<close> say that \<open>n\<close> more can be sent before a sender is blocked; a blocked
  sender does not return.  \<open>adm_job\<close> and \<open>adm_result\<close> are the messages that the queue can
  carry.
\<close>

locale job_queue =
  fixes Q :: "'q Queue"
    and ok :: "'q \<Rightarrow> bool"
    and jobs :: "'q \<Rightarrow> AnalyzeJob list"
    and results :: "'q \<Rightarrow> AnalyzeResult list"
    and free_jobs :: "'q \<Rightarrow> nat \<Rightarrow> bool"
    and free_results :: "'q \<Rightarrow> nat \<Rightarrow> bool"
    and adm_job :: "AnalyzeJob \<Rightarrow> bool"
    and adm_result :: "AnalyzeResult \<Rightarrow> bool"
  assumes send_job: "ok q \<Longrightarrow> adm_job j \<Longrightarrow>
      (\<exists>q'. q_SendJob Q j q = (Ret (), q') \<and> ok q' \<and> jobs q' = jobs q @ [j] \<and> results q' = results q
        \<and> (\<forall>n. free_jobs q (Suc n) \<longrightarrow> free_jobs q' n) \<and> free_results q' = free_results q)
      \<or> fst (q_SendJob Q j q) = Hang \<and> (\<forall>n. \<not> free_jobs q (Suc n))"
    and recv_job: "ok q \<Longrightarrow> jobs q = j # js \<Longrightarrow>
      \<exists>q'. q_RecvJob Q q = (Ret (Some j), q') \<and> ok q' \<and> jobs q' = js \<and> results q' = results q
        \<and> free_results q' = free_results q"
    and send_result: "ok q \<Longrightarrow> adm_result r \<Longrightarrow>
      (\<exists>q'. q_SendResult Q r q = (Ret (), q') \<and> ok q' \<and> results q' = results q @ [r] \<and> jobs q' = jobs q
        \<and> (\<forall>n. free_results q (Suc n) \<longrightarrow> free_results q' n) \<and> free_jobs q' = free_jobs q)
      \<or> fst (q_SendResult Q r q) = Hang \<and> (\<forall>n. \<not> free_results q (Suc n))"
    and recv_result: "ok q \<Longrightarrow> results q = r # rs \<Longrightarrow>
      \<exists>q'. q_RecvResult Q q = (Ret (Some r), q') \<and> ok q' \<and> results q' = rs \<and> jobs q' = jobs q
        \<and> free_jobs q' = free_jobs q"
    and free_jobs_Suc: "free_jobs q (Suc n) \<Longrightarrow> free_jobs q n"
    and free_results_Suc: "free_results q (Suc n) \<Longrightarrow> free_results q n"
begin

lemma free_jobs_le: "free_jobs q n \<Longrightarrow> k \<le> n \<Longrightarrow> free_jobs q k"
  using dec_induct [of k n "\<lambda>i. free_jobs q i \<longrightarrow> free_jobs q k"] free_jobs_Suc by blast

lemma send_job_free:
  assumes "ok q" and "adm_job j" and "free_jobs q (Suc n)"
  obtains q' where "q_SendJob Q j q = (Ret (), q')" "ok q'" "jobs q' = jobs q @ [j]" "results q' = results q"
    "free_jobs q' n" "free_results q' = free_results q"
  using send_job [OF assms(1,2)] assms(3) by blast

lemma send_jobs:
  assumes "ok q" and "\<forall>j \<in> set js. adm_job j" and "free_jobs q (length js)"
  shows "\<exists>q'. forP js (q_SendJob Q) q = (Ret (), q') \<and> ok q' \<and> jobs q' = jobs q @ js \<and> results q' = results q
    \<and> free_results q' = free_results q"
  using assms
proof (induction js arbitrary: q)
  case Nil
  then show ?case by simp
next
  case (Cons j js)
  then obtain q1 where q1: "q_SendJob Q j q = (Ret (), q1)" "ok q1" "jobs q1 = jobs q @ [j]" "results q1 = results q"
    "free_jobs q1 (length js)" "free_results q1 = free_results q"
    using send_job_free [of q j "length js"] by auto
  with Cons show ?case by fastforce
qed

lemma recv_jobs_all:
  "ok q \<Longrightarrow> jobs q = js @ rest \<Longrightarrow>
     \<exists>q'. recv_jobs Q (length js) q = (Ret js, q') \<and> ok q' \<and> jobs q' = rest \<and> results q' = results q"
proof (induction js arbitrary: q)
  case Nil
  then show ?case by simp
next
  case (Cons j js)
  then obtain q1 where q1: "q_RecvJob Q q = (Ret (Some j), q1)" "ok q1" "jobs q1 = js @ rest" "results q1 = results q"
    using recv_job [of q j "js @ rest"] by auto
  from Cons.IH [OF q1(2,3)] obtain q2 where "recv_jobs Q (length js) q1 = (Ret js, q2)" "ok q2" "jobs q2 = rest"
    "results q2 = results q1" by blast
  with q1 show ?case by simp
qed

text \<open>First in, first out: what is sent to an empty queue is what is received, in the same order.\<close>

lemma jobs_fifo:
  assumes "ok q" and "jobs q = []" and "\<forall>j \<in> set js. adm_job j" and "free_jobs q (length js)"
  shows "\<exists>q'. bindP (forP js (q_SendJob Q)) (\<lambda>_. recv_jobs Q (length js)) q = (Ret js, q') \<and> jobs q' = []"
proof -
  obtain q1 where q1: "forP js (q_SendJob Q) q = (Ret (), q1)" "ok q1" "jobs q1 = js @ []"
    using send_jobs [OF assms(1,3,4)] assms(2) by auto
  from recv_jobs_all [OF q1(2,3)] q1(1) show ?thesis by auto
qed

end

definition open_chan :: "'a chan \<Rightarrow> bool" where
  "open_chan c \<longleftrightarrow> \<not> ch_closed c"

interpretation single: job_queue Single_Queue
  "\<lambda>q. open_chan (qs_jobs q) \<and> open_chan (qs_results q)"
  "\<lambda>q. ch_buf (qs_jobs q)" "\<lambda>q. ch_buf (qs_results q)"
  "\<lambda>q n. length (ch_buf (qs_jobs q)) + n \<le> ch_cap (qs_jobs q)"
  "\<lambda>q n. length (ch_buf (qs_results q)) + n \<le> ch_cap (qs_results q)"
  "\<lambda>_. True" "\<lambda>_. True"
  by unfold_locales
    (auto simp: Single_Queue_def on_jobs_def on_results_def chan_send_def chan_recv_def open_chan_def)

section \<open>Properties\<close>

lemma single_send_blocks:
  "\<not> ch_closed (qs_jobs q) \<Longrightarrow> ch_cap (qs_jobs q) < length (ch_buf (qs_jobs q)) + length js \<Longrightarrow>
     length (ch_buf (qs_jobs q)) \<le> ch_cap (qs_jobs q) \<Longrightarrow> fst (forP js (q_SendJob Single_Queue) q) = Hang"
proof (induction js arbitrary: q)
  case (Cons j js)
  show ?case
  proof (cases "length (ch_buf (qs_jobs q)) < ch_cap (qs_jobs q)")
    case True
    let ?q = "q\<lparr>qs_jobs := (qs_jobs q)\<lparr>ch_buf := ch_buf (qs_jobs q) @ [j]\<rparr>\<rparr>"
    have "q_SendJob Single_Queue j q = (Ret (), ?q)"
      using Cons.prems(1) True by (simp add: Single_Queue_def on_jobs_def chan_send_def)
    moreover have "fst (forP js (q_SendJob Single_Queue) ?q) = Hang"
      using Cons.prems True by (intro Cons.IH) simp_all
    ultimately show ?thesis by simp
  next
    case False
    then have "q_SendJob Single_Queue j q = (Hang, q)"
      using Cons.prems(1) by (simp add: Single_Queue_def on_jobs_def chan_send_def)
    then show ?thesis by simp
  qed
qed simp

text \<open>
  C32. The in-process queue holds ten jobs.  Up to ten jobs that are sent to a new queue are
  received in the order in which they were sent; with more than ten, a sender that nobody
  receives from never gets past the tenth.
\<close>

theorem single_queue_bounded:
  "(length js \<le> 10 \<longrightarrow> (\<exists>q. bindP (forP js (q_SendJob Single_Queue)) (\<lambda>_. recv_jobs Single_Queue (length js)) (NewQueueSingle n) = (Ret js, q)))
   \<and> (10 < length js \<longrightarrow> fst (forP js (q_SendJob Single_Queue) (NewQueueSingle n)) = Hang)"
  using single.jobs_fifo [of "NewQueueSingle n" js] single_send_blocks [of "NewQueueSingle n" js]
  by (auto simp: NewQueueSingle_def make_chan_def open_chan_def)

theorem single_queue_bounded_witness:
  "(\<exists>q. bindP (forP [AnalyzeJob0, AnalyzeJob0] (q_SendJob Single_Queue)) (\<lambda>_. recv_jobs Single_Queue (length [AnalyzeJob0, AnalyzeJob0]))
      (NewQueueSingle 4) = (Ret [AnalyzeJob0, AnalyzeJob0], q))
   \<and> fst (forP (replicate 11 AnalyzeJob0) (q_SendJob Single_Queue) (NewQueueSingle 4)) = Hang"
proof -
  have "length [AnalyzeJob0, AnalyzeJob0] \<le> 10" "10 < length (replicate 11 AnalyzeJob0)" by simp_all
  then show ?thesis
    using single_queue_bounded [of "[AnalyzeJob0, AnalyzeJob0]" 4] single_queue_bounded [of "replicate 11 AnalyzeJob0" 4]
    by blast
qed

end
