(* ===== verification/Api_Codec.thy ===== *)
theory Api_Codec
  imports Job_Codec
begin

text \<open>
  The JSON of the responses of the server: the structs of \<^verbatim>\<open>pkg/common/extapi.go\<close>
  that only leave the system.  The members are in the order of the fields, under the names of
  the JSON tags.
\<close>

definition Actor_json :: "Actor \<Rightarrow> json" where
  "Actor_json x = JObj
    [(''login'', JStr (actor_Login x)),
     (''id'', JInt (actor_ID x)),
     (''node_id'', JStr (actor_NodeID x)),
     (''avatar_url'', JStr (actor_AvatarURL x)),
     (''gravatar_id'', JStr (actor_GravatarID x)),
     (''url'', JStr (actor_URL x)),
     (''html_url'', JStr (actor_HTMLURL x)),
     (''followers_url'', JStr (actor_FollowersURL x)),
     (''following_url'', JStr (actor_FollowingURL x)),
     (''gists_url'', JStr (actor_GistsURL x)),
     (''starred_url'', JStr (actor_StarredURL x)),
     (''subscriptions_url'', JStr (actor_SubscriptionsURL x)),
     (''organizations_url'', JStr (actor_OrganizationsURL x)),
     (''repos_url'', JStr (actor_ReposURL x)),
     (''events_url'', JStr (actor_EventsURL x)),
     (''received_events_url'', JStr (actor_ReceivedEventsURL x)),
     (''type'', JStr (actor_Type x)),
     (''site_admin'', JBool (actor_SiteAdmin x))]"

definition ControllerRepo_json :: "ControllerRepo \<Rightarrow> json" where
  "ControllerRepo_json x = JObj
    [(''id'', JInt (cr_ID x)),
     (''node_id'', JStr (cr_NodeID x)),
     (''name'', JStr (cr_Name x)),
     (''full_name'', JStr (cr_FullName x)),
     (''private'', JBool (cr_Private x)),
     (''owner'', JObj []),
     (''html_url'', JStr (cr_HTMLURL x)),
     (''description'', JStr (cr_Description x)),
     (''fork'', JBool (cr_Fork x)),
     (''forks_url'', JStr (cr_ForksURL x)),
     (''keys_url'', JStr (cr_KeysURL x)),
     (''collaborators_url'', JStr (cr_CollaboratorsURL x)),
     (''teams_url'', JStr (cr_TeamsURL x)),
     (''hooks_url'', JStr (cr_HooksURL x)),
     (''issue_events_url'', JStr (cr_IssueEventsURL x)),
     (''events_url'', JStr (cr_EventsURL x)),
     (''assignees_url'', JStr (cr_AssigneesURL x)),
     (''branches_url'', JStr (cr_BranchesURL x)),
     (''tags_url'', JStr (cr_TagsURL x)),
     (''blobs_url'', JStr (cr_BlobsURL x)),
     (''git_tags_url'', JStr (cr_GitTagsURL x)),
     (''git_refs_url'', JStr (cr_GitRefsURL x)),
     (''trees_url'', JStr (cr_TreesURL x)),
     (''statuses_url'', JStr (cr_StatusesURL x)),
     (''languages_url'', JStr (cr_LanguagesURL x)),
     (''stargazers_url'', JStr (cr_StargazersURL x)),
     (''contributors_url'', JStr (cr_ContributorsURL x)),
     (''subscribers_url'', JStr (cr_SubscribersURL x)),
     (''subscription_url'', JStr (cr_SubscriptionURL x)),
     (''commits_url'', JStr (cr_CommitsURL x)),
     (''git_commits_url'', JStr (cr_GitCommitsURL x)),
     (''comments_url'', JStr (cr_CommentsURL x)),
     (''issue_comment_url'', JStr (cr_IssueCommentURL x)),
     (''contents_url'', JStr (cr_ContentsURL x)),
     (''compare_url'', JStr (cr_CompareURL x)),
     (''merges_url'', JStr (cr_MergesURL x)),
     (''archive_url'', JStr (cr_ArchiveURL x)),
     (''downloads_url'', JStr (cr_DownloadsURL x)),
     (''issues_url'', JStr (cr_IssuesURL x)),
     (''pulls_url'', JStr (cr_PullsURL x)),
     (''milestones_url'', JStr (cr_MilestonesURL x)),
     (''notifications_url'', JStr (cr_NotificationsURL x)),
     (''labels_url'', JStr (cr_LabelsURL x)),
     (''releases_url'', JStr (cr_ReleasesURL x)),
     (''deployments_url'', JStr (cr_DeploymentsURL x))]"

definition ScannedRepo_json :: "ScannedRepo \<Rightarrow> json" where
  "ScannedRepo_json x = JObj
    [(''repository'', Repository_json (scan_Repository x)),
     (''analysis_status'', JStr (scan_AnalysisStatus x)),
     (''result_count'', JInt (scan_ResultCount x)),
     (''artifact_size_in_bytes'', JInt (scan_ArtifactSizeBytes x))]"

definition StatusResponse_json :: "StatusResponse \<Rightarrow> json" where
  "StatusResponse_json x = JObj
    [(''id'', JInt (sr_SessionId x)),
     (''controller_repo'', ControllerRepo_json (sr_ControllerRepo x)),
     (''actor'', Actor_json (sr_Actor x)),
     (''query_language'', JStr (sr_QueryLanguage x)),
     (''query_pack_url'', JStr (sr_QueryPackURL x)),
     (''created_at'', JStr (sr_CreatedAt x)),
     (''updated_at'', JStr (sr_UpdatedAt x)),
     (''actions_workflow_run_id'', JInt (sr_ActionsWorkflowRunID x)),
     (''status'', JStr (sr_Status x)),
     (''scanned_repositories'', JArr (map ScannedRepo_json (sr_ScannedRepositories x))),
     (''skipped_repositories'', SkippedRepositories_json (sr_SkippedRepositories x))]"

definition DownloadRepo_json :: "DownloadRepo \<Rightarrow> json" where
  "DownloadRepo_json x = JObj
    [(''id'', JInt (dr_ID x)),
     (''node_id'', JStr (dr_NodeID x)),
     (''name'', JStr (dr_Name x)),
     (''full_name'', JStr (dr_FullName x)),
     (''private'', JBool (dr_Private x)),
     (''owner'', Actor_json (dr_Owner x)),
     (''html_url'', JStr (dr_HTMLURL x)),
     (''description'', JStr (dr_Description x)),
     (''fork'', JBool (dr_Fork x)),
     (''forks_url'', JStr (dr_ForksURL x)),
     (''keys_url'', JStr (dr_KeysURL x)),
     (''collaborators_url'', JStr (dr_CollaboratorsURL x)),
     (''teams_url'', JStr (dr_TeamsURL x)),
     (''hooks_url'', JStr (dr_HooksURL x)),
     (''issue_events_url'', JStr (dr_IssueEventsURL x)),
     (''events_url'', JStr (dr_EventsURL x)),
     (''assignees_url'', JStr (dr_AssigneesURL x)),
     (''branches_url'', JStr (dr_BranchesURL x)),
     (''tags_url'', JStr (dr_TagsURL x)),
     (''blobs_url'', JStr (dr_BlobsURL x)),
     (''git_tags_url'', JStr (dr_GitTagsURL x)),
     (''git_refs_url'', JStr (dr_GitRefsURL x)),
     (''trees_url'', JStr (dr_TreesURL x)),
     (''statuses_url'', JStr (dr_StatusesURL x)),
     (''languages_url'', JStr (dr_LanguagesURL x)),
     (''stargazers_url'', JStr (dr_StargazersURL x)),
     (''contributors_url'', JStr (dr_ContributorsURL x)),
     (''subscribers_url'', JStr (dr_SubscribersURL x)),
     (''subscription_url'', JStr (dr_SubscriptionURL x)),
     (''commits_url'', JStr (dr_CommitsURL x)),
     (''git_commits_url'', JStr (dr_GitCommitsURL x)),
     (''comments_url'', JStr (dr_CommentsURL x)),
     (''issue_comment_url'', JStr (dr_IssueCommentURL x)),
     (''contents_url'', JStr (dr_ContentsURL x)),
     (''compare_url'', JStr (dr_CompareURL x)),
     (''merges_url'', JStr (dr_MergesURL x)),
     (''archive_url'', JStr (dr_ArchiveURL x)),
     (''downloads_url'', JStr (dr_DownloadsURL x)),
     (''issues_url'', JStr (dr_IssuesURL x)),
     (''pulls_url'', JStr (dr_PullsURL x)),
     (''milestones_url'', JStr (dr_MilestonesURL x)),
     (''notifications_url'', JStr (dr_NotificationsURL x)),
     (''labels_url'', JStr (dr_LabelsURL x)),
     (''releases_url'', JStr (dr_ReleasesURL x)),
     (''deployments_url'', JStr (dr_DeploymentsURL x))]"

definition DownloadResponse_json :: "DownloadResponse \<Rightarrow> json" where
  "DownloadResponse_json x = JObj
    [(''repository'', DownloadRepo_json (dl_Repository x)),
     (''analysis_status'', JStr (dl_AnalysisStatus x)),
     (''result_count'', JInt (dl_ResultCount x)),
     (''artifact_size_in_bytes'', JInt (dl_ArtifactSizeBytes x)),
     (''database_commit_sha'', JStr (dl_DatabaseCommitSha x)),
     (''source_location_prefix'', JStr (dl_SourceLocationPrefix x)),
     (''artifact_url'', JStr (dl_ArtifactURL x))]"

definition SubmitResponse_json :: "SubmitResponse \<Rightarrow> json" where
  "SubmitResponse_json x = JObj
    [(''id'', JInt (sub_ID x)),
     (''controller_repo'', ControllerRepo_json (sub_ControllerRepo x)),
     (''actor'', Actor_json (sub_Actor x)),
     (''query_language'', JStr (sub_QueryLanguage x)),
     (''query_pack_url'', JStr (sub_QueryPackURL x)),
     (''created_at'', JStr (sub_CreatedAt x)),
     (''updated_at'', JStr (sub_UpdatedAt x)),
     (''status'', JStr (sub_Status x)),
     (''skipped_repositories'', SkippedRepositories_json (sub_SkippedRepositories x))]"

definition DownloadRepo0 :: DownloadRepo where
  "DownloadRepo0 = \<lparr>dr_ID = 0,
     dr_NodeID = [],
     dr_Name = [],
     dr_FullName = [],
     dr_Private = False,
     dr_Owner = Actor0,
     dr_HTMLURL = [],
     dr_Description = [],
     dr_Fork = False,
     dr_ForksURL = [],
     dr_KeysURL = [],
     dr_CollaboratorsURL = [],
     dr_TeamsURL = [],
     dr_HooksURL = [],
     dr_IssueEventsURL = [],
     dr_EventsURL = [],
     dr_AssigneesURL = [],
     dr_BranchesURL = [],
     dr_TagsURL = [],
     dr_BlobsURL = [],
     dr_GitTagsURL = [],
     dr_GitRefsURL = [],
     dr_TreesURL = [],
     dr_StatusesURL = [],
     dr_LanguagesURL = [],
     dr_StargazersURL = [],
     dr_ContributorsURL = [],
     dr_SubscribersURL = [],
     dr_SubscriptionURL = [],
     dr_CommitsURL = [],
     dr_GitCommitsURL = [],
     dr_CommentsURL = [],
     dr_IssueCommentURL = [],
     dr_ContentsURL = [],
     dr_CompareURL = [],
     dr_MergesURL = [],
     dr_ArchiveURL = [],
     dr_DownloadsURL = [],
     dr_IssuesURL = [],
     dr_PullsURL = [],
     dr_MilestonesURL = [],
     dr_NotificationsURL = [],
     dr_LabelsURL = [],
     dr_ReleasesURL = [],
     dr_DeploymentsURL = []\<rparr>"

end
