(* ===== verification/Server.thy ===== *)
theory Server
  imports Server_State Artifact_Store QLDB_Store Queue Api_Codec
begin

text \<open>
  The commander's HTTP server, package \<^verbatim>\<open>pkg/server\<close>.  A handler is a computation on
  the world of the server: its queue, its state, its artifact store, its database store, and the
  response under construction.  The record \<open>Visibles\<close> holds the interfaces through which
  the handlers reach these parts, as in the source.  The router of the library
  \<^verbatim>\<open>gorilla/mux\<close> is the parameter \<open>sv_match\<close>; the clock and the environment variables
  are parameters, too.
\<close>

section \<open>Responses\<close>

text \<open>
  A response writer: the status code once it is fixed, the headers and the body.  The first
  \<^verbatim>\<open>WriteHeader\<close> counts, later ones and later header changes are ignored; a response with
  status 204 has no body.
\<close>

record response =
  rw_code :: "int option"
  rw_headers :: "(string, string) gomap"
  rw_body :: bytes

definition response0 :: response where
  "response0 = \<lparr>rw_code = None, rw_headers = [], rw_body = []\<rparr>"

definition rw_SetHeader :: "string \<Rightarrow> string \<Rightarrow> response \<Rightarrow> response" where
  "rw_SetHeader k v w =
     (case rw_code w of None \<Rightarrow> w\<lparr>rw_headers := gm_put k v (rw_headers w)\<rparr> | Some _ \<Rightarrow> w)"

definition rw_WriteHeader :: "int \<Rightarrow> response \<Rightarrow> response" where
  "rw_WriteHeader code w = (case rw_code w of None \<Rightarrow> w\<lparr>rw_code := Some code\<rparr> | Some _ \<Rightarrow> w)"

definition rw_Write :: "bytes \<Rightarrow> response \<Rightarrow> response" where
  "rw_Write data w =
     (let w = rw_WriteHeader 200 w in
      if rw_code w = Some 204 then w else w\<lparr>rw_body := rw_body w @ data\<rparr>)"

definition http_Error :: "string \<Rightarrow> int \<Rightarrow> response \<Rightarrow> response" where
  "http_Error msg code w =
     rw_Write (msg @ [CHR 0x0A])
       (rw_WriteHeader code
          (rw_SetHeader ''X-Content-Type-Options'' ''nosniff''
             (rw_SetHeader ''Content-Type'' ''text/plain; charset=utf-8'' w)))"

text \<open>The text of an error; of library errors only the fixed part is modelled.\<close>

fun err_text :: "error \<Rightarrow> string" where
  "err_text (ErrMsg m) = m"
| "err_text (ErrWrap m e) = m @ err_text e"
| "err_text (NumSyntax s) = ''strconv.ParseInt: parsing '' @ [CHR 0x22] @ s @ [CHR 0x22] @ '': invalid syntax''"
| "err_text (NumRange s) = ''strconv.ParseInt: parsing '' @ [CHR 0x22] @ s @ [CHR 0x22] @ '': value out of range''"
| "err_text (ExtError m) = m"

abbreviation StatusOK :: int where "StatusOK \<equiv> 200"
abbreviation StatusNoContent :: int where "StatusNoContent \<equiv> 204"
abbreviation StatusBadRequest :: int where "StatusBadRequest \<equiv> 400"
abbreviation StatusNotFound :: int where "StatusNotFound \<equiv> 404"
abbreviation StatusUnprocessableEntity :: int where "StatusUnprocessableEntity \<equiv> 422"
abbreviation StatusInternalServerError :: int where "StatusInternalServerError \<equiv> 500"

section \<open>The world of the server\<close>

record ('q, 's, 'a, 'd) Visibles =
  v_Queue :: "'q Queue"
  v_State :: "'s ServerState"
  v_Artifacts :: "'a Store"
  v_CodeQLDBStore :: "'d QLDBStore"

record ('q, 's, 'a, 'd) world =
  w_queue :: 'q
  w_state :: 's
  w_artifacts :: 'a
  w_dbs :: 'd
  w_ticks :: nat
  w_resp :: response

record server_env =
  sv_getenv :: "string \<Rightarrow> string"
  sv_now :: "nat \<Rightarrow> string"
  sv_match :: "string \<Rightarrow> string \<Rightarrow> (string, string) gomap option"

text \<open>
  \<open>sv_now n\<close> is the \<open>n\<close>-th reading of the clock in the format RFC 3339;
  \<open>sv_match t p\<close> are the variables with which the path \<open>p\<close> matches the template
  \<open>t\<close>.  A request has the variables of its route and a body, which may be absent or end
  in a read error.
\<close>

record request =
  rq_path :: string
  rq_vars :: "(string, string) gomap"
  rq_body :: "bytes result option"

type_synonym ('q, 's, 'a, 'd, 'x) handler = "(('q, 's, 'a, 'd) world, 'x) prog"

definition on_queue :: "('q, 'x) prog \<Rightarrow> ('q, 's, 'a, 'd, 'x) handler" where
  "on_queue m w = (case m (w_queue w) of (r, q) \<Rightarrow> (r, w\<lparr>w_queue := q\<rparr>))"

definition on_state :: "('s, 'x) prog \<Rightarrow> ('q, 's, 'a, 'd, 'x) handler" where
  "on_state m w = (case m (w_state w) of (r, s) \<Rightarrow> (r, w\<lparr>w_state := s\<rparr>))"

definition on_artifacts :: "('a, 'x) prog \<Rightarrow> ('q, 's, 'a, 'd, 'x) handler" where
  "on_artifacts m w = (case m (w_artifacts w) of (r, a) \<Rightarrow> (r, w\<lparr>w_artifacts := a\<rparr>))"

definition on_dbs :: "('d, 'x) prog \<Rightarrow> ('q, 's, 'a, 'd, 'x) handler" where
  "on_dbs m w = (case m (w_dbs w) of (r, d) \<Rightarrow> (r, w\<lparr>w_dbs := d\<rparr>))"

definition time_now :: "server_env \<Rightarrow> ('q, 's, 'a, 'd, string) handler" where
  "time_now E w = (Ret (sv_now E (w_ticks w)), w\<lparr>w_ticks := Suc (w_ticks w)\<rparr>)"

definition respond :: "(response \<Rightarrow> response) \<Rightarrow> ('q, 's, 'a, 'd, unit) handler" where
  "respond f w = (Ret (), w\<lparr>w_resp := f (w_resp w)\<rparr>)"

definition send_error :: "string \<Rightarrow> int \<Rightarrow> ('q, 's, 'a, 'd, unit) handler" where
  "send_error msg code = respond (http_Error msg code)"

definition send_content :: "string \<Rightarrow> bytes \<Rightarrow> ('q, 's, 'a, 'd, unit) handler" where
  "send_content ctype data = respond (\<lambda>w. rw_Write data (rw_SetHeader ''Content-Type'' ctype w))"

lemmas world_lift_defs = on_queue_def on_state_def on_artifacts_def on_dbs_def time_now_def respond_def
  send_error_def send_content_def

text \<open>A call that returns an error or a value, and what follows each.\<close>

definition tryP :: "('w, 'x result) prog \<Rightarrow> (error \<Rightarrow> ('w, 'y) prog) \<Rightarrow> ('x \<Rightarrow> ('w, 'y) prog) \<Rightarrow> ('w, 'y) prog" where
  "tryP m onerr k = bindP m (\<lambda>r. case r of Inl err \<Rightarrow> onerr err | Inr x \<Rightarrow> k x)"

section \<open>Submitting analyses\<close>

definition mk_job :: "ArtifactLocation \<Rightarrow> int \<Rightarrow> string \<Rightarrow> NameWithOwner \<Rightarrow> AnalyzeJob" where
  "mk_job queryPackLocation sessionId queryLanguage nwo =
     \<lparr>job_Spec = \<lparr>SessionID = sessionId, NWO = nwo\<rparr>, job_QueryPackLocation = queryPackLocation,
      job_QueryLanguage = queryLanguage\<rparr>"

definition startAnalyses ::
  "('q, 's, 'a, 'd) Visibles \<Rightarrow> NameWithOwner list \<Rightarrow> ArtifactLocation \<Rightarrow> int \<Rightarrow> string \<Rightarrow>
   ('q, 's, 'a, 'd, unit) handler" where
  "startAnalyses v analysisRepos queryPackLocation sessionId queryLanguage =
     forP analysisRepos (\<lambda>nwo.
       let info = mk_job queryPackLocation sessionId queryLanguage nwo in
       seqP (on_queue (q_SendJob (v_Queue v) info)) (on_state (submit_job (v_State v) info)))"

record SessionInfo =
  si_ID :: int
  si_QueryPack :: string
  si_Language :: string
  si_AccessMismatchRepos :: "NameWithOwner list"
  si_NotFoundRepos :: "NameWithOwner list"
  si_NoCodeqlDBRepos :: "NameWithOwner list"

definition nwoToNwoStringArray :: "NameWithOwner list \<Rightarrow> string list \<times> int" where
  "nwoToNwoStringArray nwo = (map full_name nwo, int (length nwo))"

fun nwoToDummyRepositoryArray ::
  "server_env \<Rightarrow> NameWithOwner list \<Rightarrow> ('q, 's, 'a, 'd, Repository list \<times> int) handler" where
  "nwoToDummyRepositoryArray E [] = retP ([], 0)"
| "nwoToDummyRepositoryArray E (repo # nwo) =
     bindP (time_now E) (\<lambda>now. bindP (nwoToDummyRepositoryArray E nwo) (\<lambda>(repos, cnt).
       retP (\<lparr>repo_ID = -1, repo_Name = Repo repo, repo_FullName = full_name repo, repo_Private = False,
              repo_StargazersCount = 0, repo_UpdatedAt = now\<rparr> # repos, cnt + 1)))"

text \<open>The count of the repositories that were not found is used for all four kinds.\<close>

definition skipped_repositories ::
  "server_env \<Rightarrow> SessionInfo \<Rightarrow> ('q, 's, 'a, 'd, SkippedRepositories) handler" where
  "skipped_repositories E si =
     (case nwoToNwoStringArray (si_NotFoundRepos si) of
        (repoNames, cnt) \<Rightarrow>
          bindP (nwoToDummyRepositoryArray E (si_AccessMismatchRepos si)) (\<lambda>(access, _).
          bindP (nwoToDummyRepositoryArray E (si_NoCodeqlDBRepos si)) (\<lambda>(nodb, _).
          bindP (nwoToDummyRepositoryArray E (si_NoCodeqlDBRepos si)) (\<lambda>(over, _).
            retP \<lparr>skip_AccessMismatchRepos = \<lparr>amr_RepositoryCount = cnt, amr_Repositories = access\<rparr>,
                  skip_NotFoundRepos = \<lparr>nfr_RepositoryCount = cnt, nfr_RepositoryFullNames = repoNames\<rparr>,
                  skip_NoCodeqlDBRepos = \<lparr>ndr_RepositoryCount = cnt, ndr_Repositories = nodb\<rparr>,
                  skip_OverLimitRepos = \<lparr>olr_RepositoryCount = cnt, olr_Repositories = over\<rparr>\<rparr>))))"

definition buildSessionInfoResponseJson ::
  "server_env \<Rightarrow> ('q, 's, 'a, 'd) Visibles \<Rightarrow> SessionInfo \<Rightarrow> ('q, 's, 'a, 'd, bytes result) handler" where
  "buildSessionInfoResponseJson E v si =
     bindP (skipped_repositories E si) (\<lambda>skippedRepositories.
     bindP (time_now E) (\<lambda>created.
     bindP (time_now E) (\<lambda>updated.
       let resp = \<lparr>sub_ID = si_ID si, sub_ControllerRepo = ControllerRepo0, sub_Actor = Actor0,
                   sub_QueryLanguage = si_Language si, sub_QueryPackURL = si_QueryPack si,
                   sub_CreatedAt = created, sub_UpdatedAt = updated, sub_Status = ''in_progress'',
                   sub_SkippedRepositories = skippedRepositories\<rparr>
       in tryP (on_state (ss_GetJobList (v_State v) (si_ID si)))
            (\<lambda>err. retP (Inl err))
            (\<lambda>joblist.
               seqP (forP joblist (\<lambda>job.
                 on_state (ss_SetJobInfo (v_State v) \<lparr>SessionID = si_ID si, NWO = NWO (job_Spec job)\<rparr>
                   \<lparr>ji_QueryLanguage = si_Language si, ji_CreatedAt = sub_CreatedAt resp,
                    ji_UpdatedAt = sub_UpdatedAt resp, ji_SkippedRepositories = skippedRepositories\<rparr>)))
                 (retP (Inr (json_text (SubmitResponse_json resp))))))))"

definition tryParseSubmitMsg :: "bytes \<Rightarrow> SubmitMsg result" where
  "tryParseSubmitMsg buf =
     (case json_decode_first buf of
        None \<Rightarrow> Inl (ErrMsg ''json: syntax error'')
      | Some (j, rest) \<Rightarrow> SubmitMsg_dec j SubmitMsg0)"

definition decodeAndSaveBase64QueryPack ::
  "('q, 's, 'a, 'd) Visibles \<Rightarrow> string \<Rightarrow> int \<Rightarrow> ('q, 's, 'a, 'd, ArtifactLocation result) handler" where
  "decodeAndSaveBase64QueryPack v qp sessionId =
     (case b64_decode StdEncoding qp of
        Inl err \<Rightarrow> retP (Inl err)
      | Inr tgz \<Rightarrow> on_artifacts (SaveQueryPack (v_Artifacts v) sessionId tgz))"

text \<open>
  An entry without exactly one slash is reported as an error, and then used: its first two
  parts are taken, and an entry without any slash panics.
\<close>

fun session_repos :: "string list \<Rightarrow> ('q, 's, 'a, 'd, NameWithOwner list) handler" where
  "session_repos [] = retP []"
| "session_repos (r # rs) =
     (let t = split_on CHR ''/'' r in
      seqP (if length t \<noteq> 2 then send_error ''Invalid owner / repository entry'' StatusBadRequest else retP ())
        (case t of
           owner # repo # _ \<Rightarrow>
             bindP (session_repos rs) (\<lambda>nwos. retP (\<lparr>Owner = owner, Repo = repo\<rparr> # nwos))
         | _ \<Rightarrow> panicP ''runtime error: index out of range [1] with length 1''))"

definition collectRequestInfoAndSaveQueryPack ::
  "('q, 's, 'a, 'd) Visibles \<Rightarrow> request \<Rightarrow> int \<Rightarrow>
   ('q, 's, 'a, 'd, (string \<times> NameWithOwner list \<times> ArtifactLocation) result) handler" where
  "collectRequestInfoAndSaveQueryPack v r sessionId =
     (let fail = (\<lambda>err code. seqP (send_error (err_text err) code) (retP (Inl err))) in
      case rq_body r of
        None \<Rightarrow> fail (ErrMsg ''missing request body'') StatusNoContent
      | Some (Inl err) \<Rightarrow> panicP ''runtime error: invalid memory address or nil pointer dereference''
      | Some (Inr buf) \<Rightarrow>
          (case tryParseSubmitMsg buf of
             Inl err \<Rightarrow> fail err StatusBadRequest
           | Inr msg \<Rightarrow>
               if \<not> IsBase64Gzip (msg_QueryPack msg)
               then fail (ErrMsg ''MRVA submission body querypack has invalid format'') StatusBadRequest
               else tryP (decodeAndSaveBase64QueryPack v (msg_QueryPack msg) sessionId)
                 (\<lambda>err. fail err StatusBadRequest)
                 (\<lambda>queryPackLocation.
                    bindP (session_repos (msg_Repositories msg)) (\<lambda>sessionRepos.
                      retP (Inr (msg_Language msg, sessionRepos, queryPackLocation))))))"

definition MRVARequestCommon ::
  "server_env \<Rightarrow> ('q, 's, 'a, 'd) Visibles \<Rightarrow> request \<Rightarrow> ('q, 's, 'a, 'd, unit) handler" where
  "MRVARequestCommon E v r =
     bindP (on_state (ss_NextID (v_State v))) (\<lambda>sessionId.
       tryP (collectRequestInfoAndSaveQueryPack v r sessionId)
         (\<lambda>err. send_error (err_text err) StatusBadRequest)
         (\<lambda>(queryLanguage, repoNWOs, queryPackLocation).
            bindP (on_dbs (FindAvailableDBs (v_CodeQLDBStore v) repoNWOs)) (\<lambda>(notFoundRepos, analysisRepos).
            seqP (startAnalyses v analysisRepos queryPackLocation sessionId queryLanguage)
              (let sessionInfo =
                     \<lparr>si_ID = sessionId, si_QueryPack = Itoa sessionId, si_Language = queryLanguage,
                      si_AccessMismatchRepos = [], si_NotFoundRepos = notFoundRepos, si_NoCodeqlDBRepos = []\<rparr>
               in tryP (buildSessionInfoResponseJson E v sessionInfo)
                    (\<lambda>err. send_error (err_text err) StatusInternalServerError)
                    (\<lambda>submitResponseJson. send_content ''application/json'' submitResponseJson)))))"

definition MRVARequestID ::
  "server_env \<Rightarrow> ('q, 's, 'a, 'd) Visibles \<Rightarrow> request \<Rightarrow> ('q, 's, 'a, 'd, unit) handler" where
  "MRVARequestID E v r = MRVARequestCommon E v r"

definition MRVARequest ::
  "server_env \<Rightarrow> ('q, 's, 'a, 'd) Visibles \<Rightarrow> request \<Rightarrow> ('q, 's, 'a, 'd, unit) handler" where
  "MRVARequest E v r = MRVARequestCommon E v r"

section \<open>Status requests\<close>

definition status_response ::
  "int \<Rightarrow> JobInfo \<Rightarrow> string \<Rightarrow> ScannedRepo list \<Rightarrow> StatusResponse" where
  "status_response sessionId ji st scannedRepos =
     \<lparr>sr_SessionId = sessionId, sr_ControllerRepo = ControllerRepo0, sr_Actor = Actor0,
      sr_QueryLanguage = ji_QueryLanguage ji, sr_QueryPackURL = [], sr_CreatedAt = ji_CreatedAt ji,
      sr_UpdatedAt = ji_UpdatedAt ji, sr_ActionsWorkflowRunID = -1, sr_Status = st,
      sr_ScannedRepositories = scannedRepos, sr_SkippedRepositories = ji_SkippedRepositories ji\<rparr>"

definition submitEmptyStatusResponse :: "int \<Rightarrow> ('q, 's, 'a, 'd, unit) handler" where
  "submitEmptyStatusResponse jsSessionID =
     (let ji = \<lparr>ji_QueryLanguage = [], ji_CreatedAt = [], ji_UpdatedAt = [],
                ji_SkippedRepositories = SkippedRepositories0\<rparr>;
          st = status_response jsSessionID ji (ToExternalString StatusSucceeded) []
      in send_content ''application/json'' (json_text (StatusResponse_json st)))"

definition scanned_repo :: "JobInfo \<Rightarrow> AnalyzeJob \<Rightarrow> int \<Rightarrow> Status \<Rightarrow> int \<Rightarrow> int \<Rightarrow> ScannedRepo" where
  "scanned_repo ji job jobRepoId st resultCount artifactSize =
     \<lparr>scan_Repository =
        \<lparr>repo_ID = jobRepoId, repo_Name = Repo (NWO (job_Spec job)), repo_FullName = full_name (NWO (job_Spec job)),
         repo_Private = False, repo_StargazersCount = 0, repo_UpdatedAt = ji_UpdatedAt ji\<rparr>,
      scan_AnalysisStatus = ToExternalString st, scan_ResultCount = resultCount,
      scan_ArtifactSizeBytes = artifactSize\<rparr>"

text \<open>The size and the number of results of one job: zero unless it succeeded.\<close>

definition job_outcome ::
  "('q, 's, 'a, 'd) Visibles \<Rightarrow> AnalyzeJob \<Rightarrow> Status \<Rightarrow> ('q, 's, 'a, 'd, (int \<times> int) result) handler" where
  "job_outcome v job st =
     (if st \<noteq> StatusSucceeded then retP (Inr (0, 0))
      else tryP (on_state (ss_GetResult (v_State v) (job_Spec job))) (\<lambda>err. retP (Inl err)) (\<lambda>jobResult.
        tryP (on_artifacts (GetResultSize (v_Artifacts v) (res_ResultLocation jobResult))) (\<lambda>err. retP (Inl err))
          (\<lambda>artifactSize. retP (Inr (artifactSize, res_ResultCount jobResult)))))"

fun scan_jobs ::
  "('q, 's, 'a, 'd) Visibles \<Rightarrow> JobInfo \<Rightarrow> AnalyzeJob list \<Rightarrow> ('q, 's, 'a, 'd, ScannedRepo list result) handler" where
  "scan_jobs v ji [] = retP (Inr [])"
| "scan_jobs v ji (job # jobs) =
     tryP (on_state (ss_GetStatus (v_State v) (job_Spec job))) (\<lambda>err. retP (Inl err)) (\<lambda>st.
     tryP (job_outcome v job st) (\<lambda>err. retP (Inl err)) (\<lambda>(artifactSize, resultCount).
     bindP (on_state (ss_GetRepoId (v_State v) (NWO (job_Spec job)))) (\<lambda>jobRepoId.
     tryP (scan_jobs v ji jobs) (\<lambda>err. retP (Inl err)) (\<lambda>scannedRepos.
       retP (Inr (scanned_repo ji job jobRepoId st resultCount artifactSize # scannedRepos))))))"

definition submitStatusResponse ::
  "('q, 's, 'a, 'd) Visibles \<Rightarrow> JobSpec \<Rightarrow> JobInfo \<Rightarrow> ('q, 's, 'a, 'd, unit) handler" where
  "submitStatusResponse v js ji =
     (let fail = (\<lambda>err. send_error (err_text err) StatusUnprocessableEntity) in
      tryP (on_state (ss_GetJobList (v_State v) (SessionID js))) fail (\<lambda>jobs.
      tryP (scan_jobs v ji jobs) fail (\<lambda>scannedRepos.
      tryP (on_state (ss_GetSessionStatus (v_State v) (SessionID js))) fail (\<lambda>sessionSummary.
        send_content ''application/json''
          (json_text (StatusResponse_json
             (status_response (SessionID js) ji (ToExternalString (Overall sessionSummary)) scannedRepos)))))))"

definition RootHandler :: "('q, 's, 'a, 'd, unit) handler" where
  "RootHandler = retP ()"

definition MRVAStatusCommon ::
  "('q, 's, 'a, 'd) Visibles \<Rightarrow> string \<Rightarrow> string \<Rightarrow> string \<Rightarrow> ('q, 's, 'a, 'd, unit) handler" where
  "MRVAStatusCommon v owner repo variantAnalysisID =
     (case ParseInt 32 variantAnalysisID of
        Inl err \<Rightarrow> send_error (err_text err) StatusBadRequest
      | Inr sessionId \<Rightarrow>
          tryP (on_state (ss_GetJobList (v_State v) sessionId))
            (\<lambda>err. send_error ''No jobs found for given session id'' StatusNotFound)
            (\<lambda>jobs. case jobs of
               [] \<Rightarrow> submitEmptyStatusResponse sessionId
             | job # _ \<Rightarrow>
                 tryP (on_state (ss_GetJobInfo (v_State v) (job_Spec job)))
                   (\<lambda>err. send_error ''No job info found for given session id'' StatusBadRequest)
                   (\<lambda>jobInfo. submitStatusResponse v (job_Spec job) jobInfo)))"

definition mux_var :: "request \<Rightarrow> string \<Rightarrow> string" where
  "mux_var r k = gm_get0 [] (rq_vars r) k"

definition MRVAStatusID :: "('q, 's, 'a, 'd) Visibles \<Rightarrow> request \<Rightarrow> ('q, 's, 'a, 'd, unit) handler" where
  "MRVAStatusID v r = MRVAStatusCommon v ''unused'' ''unused'' (mux_var r ''codeql_variant_analysis_id'')"

definition MRVAStatus :: "('q, 's, 'a, 'd) Visibles \<Rightarrow> request \<Rightarrow> ('q, 's, 'a, 'd, unit) handler" where
  "MRVAStatus v r =
     MRVAStatusCommon v (mux_var r ''owner'') (mux_var r ''repo'') (mux_var r ''codeql_variant_analysis_id'')"

section \<open>Downloads\<close>

definition env_or :: "server_env \<Rightarrow> string \<Rightarrow> string \<Rightarrow> string" where
  "env_or E k dflt = (if sv_getenv E k = [] then dflt else sv_getenv E k)"

definition artifact_url :: "server_env \<Rightarrow> string \<Rightarrow> string" where
  "artifact_url E encodedJobSpec =
     ''http://'' @ env_or E ''SERVER_HOST'' ''localhost'' @ '':'' @ env_or E ''SERVER_PORT'' ''8080'' @
     ''/download/'' @ encodedJobSpec"

definition download_repo :: "int \<Rightarrow> JobSpec \<Rightarrow> DownloadRepo" where
  "download_repo jobRepoId jobSpec =
     DownloadRepo0\<lparr>dr_ID := jobRepoId, dr_Name := Repo (NWO jobSpec), dr_FullName := full_name (NWO jobSpec)\<rparr>"

definition sendArtifactDownloadResponse ::
  "server_env \<Rightarrow> ('q, 's, 'a, 'd) Visibles \<Rightarrow> int \<Rightarrow> JobSpec \<Rightarrow> ('q, 's, 'a, 'd, unit) handler" where
  "sendArtifactDownloadResponse E v jobRepoId jobSpec =
     (let fail = (\<lambda>code err. send_error (err_text err) code);
          send = (\<lambda>resp. send_content ''application/json'' (json_text (DownloadResponse_json resp)))
      in tryP (on_state (ss_GetStatus (v_State v) jobSpec)) (fail StatusUnprocessableEntity) (\<lambda>jobStatus.
        if jobStatus = StatusSucceeded then
          tryP (on_state (ss_GetResult (v_State v) jobSpec)) (fail StatusUnprocessableEntity) (\<lambda>jobResult.
          tryP (on_artifacts (GetResult (v_Artifacts v) (res_ResultLocation jobResult)))
            (fail StatusInternalServerError) (\<lambda>jobResultData.
            case EncodeJobSpec jobSpec of
              Inl err \<Rightarrow> send_error ''Failed to encode job spec'' StatusInternalServerError
            | Inr encodedJobSpec \<Rightarrow>
                send \<lparr>dl_Repository = download_repo jobRepoId jobSpec,
                      dl_AnalysisStatus = ToExternalString jobStatus, dl_ResultCount = res_ResultCount jobResult,
                      dl_ArtifactSizeBytes = int (length jobResultData),
                      dl_DatabaseCommitSha = res_DatabaseSHA jobResult,
                      dl_SourceLocationPrefix = res_SourceLocationPrefix jobResult,
                      dl_ArtifactURL = artifact_url E encodedJobSpec\<rparr>))
        else
          send \<lparr>dl_Repository = download_repo jobRepoId jobSpec, dl_AnalysisStatus = ToExternalString jobStatus,
                dl_ResultCount = 0, dl_ArtifactSizeBytes = 0, dl_DatabaseCommitSha = [],
                dl_SourceLocationPrefix = [], dl_ArtifactURL = []\<rparr>))"

definition MRVADownloadArtifactCommon ::
  "server_env \<Rightarrow> ('q, 's, 'a, 'd) Visibles \<Rightarrow> int \<Rightarrow> JobSpec \<Rightarrow> ('q, 's, 'a, 'd, unit) handler" where
  "MRVADownloadArtifactCommon E v jobRepoId jobSpec = sendArtifactDownloadResponse E v jobRepoId jobSpec"

definition MRVADownloadArtifactID ::
  "server_env \<Rightarrow> ('q, 's, 'a, 'd) Visibles \<Rightarrow> request \<Rightarrow> ('q, 's, 'a, 'd, unit) handler" where
  "MRVADownloadArtifactID E v r =
     (case ParseInt 32 (mux_var r ''codeql_variant_analysis_id'') of
        Inl err \<Rightarrow> send_error (err_text err) StatusBadRequest
      | Inr sessionId \<Rightarrow>
          (case ParseInt 32 (mux_var r ''repository_id'') of
             Inl err \<Rightarrow> send_error (err_text err) StatusBadRequest
           | Inr repoId \<Rightarrow>
               tryP (on_state (ss_GetJobSpecByRepoId (v_State v) sessionId repoId))
                 (\<lambda>err. send_error (err_text err) StatusUnprocessableEntity)
                 (\<lambda>jobSpec. MRVADownloadArtifactCommon E v repoId jobSpec)))"

definition MRVADownloadArtifact ::
  "server_env \<Rightarrow> ('q, 's, 'a, 'd) Visibles \<Rightarrow> request \<Rightarrow> ('q, 's, 'a, 'd, unit) handler" where
  "MRVADownloadArtifact E v r =
     (case ParseInt 32 (mux_var r ''codeql_variant_analysis_id'') of
        Inl err \<Rightarrow> send_error (err_text err) StatusBadRequest
      | Inr sessionId \<Rightarrow>
          MRVADownloadArtifactCommon E v (-1)
            \<lparr>SessionID = sessionId, NWO = \<lparr>Owner = mux_var r ''repo_owner'', Repo = mux_var r ''repo_name''\<rparr>\<rparr>)"

definition MRVADownloadQLDB :: "('q, 's, 'a, 'd) Visibles \<Rightarrow> request \<Rightarrow> ('q, 's, 'a, 'd, unit) handler" where
  "MRVADownloadQLDB v r =
     (let dbl = \<lparr>Owner = mux_var r ''repo_owner'', Repo = mux_var r ''repo_name''\<rparr> in
      tryP (on_dbs (GetDatabase (v_CodeQLDBStore v) dbl))
        (\<lambda>err. send_error ''Failed to retrieve ql database'' StatusInternalServerError)
        (\<lambda>dbContent. send_content ''application/octet-stream'' dbContent))"

definition MRVADownloadServe :: "('q, 's, 'a, 'd) Visibles \<Rightarrow> request \<Rightarrow> ('q, 's, 'a, 'd, unit) handler" where
  "MRVADownloadServe v r =
     (case DecodeJobSpec (mux_var r ''encoded_job_spec'') of
        Inl err \<Rightarrow> send_error ''Invalid job spec'' StatusBadRequest
      | Inr jobSpec \<Rightarrow>
          tryP (on_state (ss_GetResult (v_State v) jobSpec))
            (\<lambda>err. send_error ''Failed to get result'' StatusInternalServerError)
            (\<lambda>result.
               tryP (on_artifacts (GetResult (v_Artifacts v) (res_ResultLocation result)))
                 (\<lambda>err. send_error ''Failed to retrieve artifact'' StatusInternalServerError)
                 (\<lambda>data. send_content ''application/octet-stream'' data)))"

section \<open>Routing and consuming results\<close>

datatype endpoint_name =
    EpRoot | EpHealthz | EpRequest | EpRequestID | EpStatus | EpStatusID | EpDownloadQLDB
  | EpDownloadArtifact | EpDownloadArtifactID | EpDownloadServe | EpNotFound

definition routes :: "(string \<times> endpoint_name) list" where
  "routes =
     [(''/'', EpRoot),
      (''/healthz'', EpHealthz),
      (''/repos/{owner}/{repo}/code-scanning/codeql/variant-analyses'', EpRequest),
      (''/repositories/{controller_repo_id}/code-scanning/codeql/variant-analyses'', EpRequestID),
      (''/repos/{owner}/{repo}/code-scanning/codeql/variant-analyses/{codeql_variant_analysis_id}'', EpStatus),
      (''/repositories/{controller_repo_id}/code-scanning/codeql/variant-analyses/{codeql_variant_analysis_id}'',
         EpStatusID),
      (''/repos/{repo_owner}/{repo_name}/code-scanning/codeql/databases/{repo_language}'', EpDownloadQLDB),
      (''/repos/{controller_owner}/{controller_repo}/code-scanning/codeql/variant-analyses/{codeql_variant_analysis_id}/repos/{repo_owner}/{repo_name}'',
         EpDownloadArtifact),
      (''/repositories/{controller_repo_id}/code-scanning/codeql/variant-analyses/{codeql_variant_analysis_id}/repositories/{repository_id}'',
         EpDownloadArtifactID),
      (''/download/{encoded_job_spec}'', EpDownloadServe)]"

fun dispatch :: "server_env \<Rightarrow> (string \<times> endpoint_name) list \<Rightarrow> string \<Rightarrow> endpoint_name \<times> (string, string) gomap" where
  "dispatch E [] p = (EpNotFound, [])"
| "dispatch E ((t, ep) # rs) p = (case sv_match E t p of Some vars \<Rightarrow> (ep, vars) | None \<Rightarrow> dispatch E rs p)"

fun run_endpoint ::
  "server_env \<Rightarrow> ('q, 's, 'a, 'd) Visibles \<Rightarrow> endpoint_name \<Rightarrow> request \<Rightarrow> ('q, 's, 'a, 'd, unit) handler" where
  "run_endpoint E v EpRoot r = RootHandler"
| "run_endpoint E v EpHealthz r = respond (\<lambda>w. rw_Write ''ok'' (rw_WriteHeader StatusOK w))"
| "run_endpoint E v EpRequest r = MRVARequest E v r"
| "run_endpoint E v EpRequestID r = MRVARequestID E v r"
| "run_endpoint E v EpStatus r = MRVAStatus v r"
| "run_endpoint E v EpStatusID r = MRVAStatusID v r"
| "run_endpoint E v EpDownloadQLDB r = MRVADownloadQLDB v r"
| "run_endpoint E v EpDownloadArtifact r = MRVADownloadArtifact E v r"
| "run_endpoint E v EpDownloadArtifactID r = MRVADownloadArtifactID E v r"
| "run_endpoint E v EpDownloadServe r = MRVADownloadServe v r"
| "run_endpoint E v EpNotFound r = send_error ''Not Found'' StatusNotFound"

text \<open>
  One request: an empty response, the route, its handler.  A panic of a handler ends the
  request but not the server.
\<close>

definition serve ::
  "server_env \<Rightarrow> ('q, 's, 'a, 'd) Visibles \<Rightarrow> request \<Rightarrow> ('q, 's, 'a, 'd, unit) handler" where
  "serve E v r w =
     (case dispatch E routes (rq_path r) of
        (ep, vars) \<Rightarrow> run_endpoint E v ep (r\<lparr>rq_vars := vars\<rparr>) (w\<lparr>w_resp := response0\<rparr>))"

text \<open>One iteration of the loop that moves results from the queue into the state.\<close>

definition ConsumeResults_once :: "('q, 's, 'a, 'd) Visibles \<Rightarrow> ('q, 's, 'a, 'd, unit) handler" where
  "ConsumeResults_once v =
     bindP (on_queue (q_RecvResult (v_Queue v))) (\<lambda>r.
       on_state (consume_result (v_State v) (case r of Some x \<Rightarrow> x | None \<Rightarrow> AnalyzeResult0)))"

end
