(* ===== verification/Commander.thy ===== *)
theory Commander
  imports Server
begin

text \<open>
  The handlers of the server over any implementation of its four interfaces.  The locale
  \<open>commander\<close> puts the contracts of the state, the queue, the artifact store and the
  database store together; its lemmas say what a request does to each of them and what it
  answers.
\<close>

lemma on_state_Ret: "m (w_state w) = (Ret x, s) \<Longrightarrow> on_state m w = (Ret x, w\<lparr>w_state := s\<rparr>)"
  by (simp add: on_state_def)

lemma on_queue_Ret: "m (w_queue w) = (Ret x, q) \<Longrightarrow> on_queue m w = (Ret x, w\<lparr>w_queue := q\<rparr>)"
  by (simp add: on_queue_def)

lemma on_artifacts_Ret: "m (w_artifacts w) = (Ret x, a) \<Longrightarrow> on_artifacts m w = (Ret x, w\<lparr>w_artifacts := a\<rparr>)"
  by (simp add: on_artifacts_def)

lemma on_dbs_Ret: "m (w_dbs w) = (Ret x, d) \<Longrightarrow> on_dbs m w = (Ret x, w\<lparr>w_dbs := d\<rparr>)"
  by (simp add: on_dbs_def)

lemma tryP_Inr [simp]: "m w = (Ret (Inr x), t) \<Longrightarrow> tryP m e k w = k x t"
  by (simp add: tryP_def)

lemma tryP_Inl [simp]: "m w = (Ret (Inl x), t) \<Longrightarrow> tryP m e k w = e x t"
  by (simp add: tryP_def)

lemma respond_apply [simp]: "respond f w = (Ret (), w\<lparr>w_resp := f (w_resp w)\<rparr>)"
  by (simp add: respond_def)

text \<open>The response to an error and to a success, on a fresh response.\<close>

definition answered :: "int \<Rightarrow> string \<Rightarrow> bytes \<Rightarrow> response \<Rightarrow> bool" where
  "answered code ctype body w \<longleftrightarrow>
     rw_code w = Some code \<and> gm_get (rw_headers w) ''Content-Type'' = Some ctype \<and> rw_body w = body"

lemma answered_error:
  "code \<noteq> 204 \<Longrightarrow> answered code ''text/plain; charset=utf-8'' (msg @ [CHR 0x0A]) (http_Error msg code response0)"
  by (simp add: answered_def http_Error_def rw_Write_def rw_WriteHeader_def rw_SetHeader_def response0_def Let_def)

lemma answered_content:
  "answered 200 ctype data (rw_Write data (rw_SetHeader ''Content-Type'' ctype response0))"
  by (simp add: answered_def rw_Write_def rw_WriteHeader_def rw_SetHeader_def response0_def Let_def)

text \<open>The entries \<^verbatim>\<open>owner/repo\<close> of a submission, when each has exactly one slash.\<close>

definition one_slash :: "string \<Rightarrow> bool" where
  "one_slash e \<longleftrightarrow> length (split_on CHR ''/'' e) = 2"

definition nwo_of :: "string \<Rightarrow> NameWithOwner" where
  "nwo_of e = \<lparr>Owner = split_on CHR ''/'' e ! 0, Repo = split_on CHR ''/'' e ! 1\<rparr>"

lemma session_repos_ok: "list_all one_slash es \<Longrightarrow> session_repos es w = (Ret (map nwo_of es), w)"
proof (induction es)
  case Nil
  then show ?case by simp
next
  case (Cons e es)
  then obtain a b where ab: "split_on CHR ''/'' e = [a, b]"
    by (auto simp: one_slash_def length_Suc_conv numeral_2_eq_2)
  with Cons show ?case by (simp add: nwo_of_def)
qed

text \<open>A well-formed submission and what it carries.\<close>

definition good_submission :: "request \<Rightarrow> string \<Rightarrow> string list \<Rightarrow> bytes \<Rightarrow> bool" where
  "good_submission r lang entries tgz \<longleftrightarrow>
     (\<exists>buf msg. rq_body r = Some (Inr buf) \<and> tryParseSubmitMsg buf = Inr msg \<and>
        IsBase64Gzip (msg_QueryPack msg) \<and> b64_decode StdEncoding (msg_QueryPack msg) = Inr tgz \<and>
        msg_Language msg = lang \<and> msg_Repositories msg = entries \<and> list_all one_slash entries)"

text \<open>What is recorded of a session, and what is answered to its submission.\<close>

definition skipped_of :: "NameWithOwner list \<Rightarrow> SkippedRepositories" where
  "skipped_of nf =
     \<lparr>skip_AccessMismatchRepos = \<lparr>amr_RepositoryCount = int (length nf), amr_Repositories = []\<rparr>,
      skip_NotFoundRepos = \<lparr>nfr_RepositoryCount = int (length nf), nfr_RepositoryFullNames = map full_name nf\<rparr>,
      skip_NoCodeqlDBRepos = \<lparr>ndr_RepositoryCount = int (length nf), ndr_Repositories = []\<rparr>,
      skip_OverLimitRepos = \<lparr>olr_RepositoryCount = int (length nf), olr_Repositories = []\<rparr>\<rparr>"

definition info_of :: "server_env \<Rightarrow> nat \<Rightarrow> string \<Rightarrow> NameWithOwner list \<Rightarrow> JobInfo" where
  "info_of E n lang nf =
     \<lparr>ji_QueryLanguage = lang, ji_CreatedAt = sv_now E n, ji_UpdatedAt = sv_now E (Suc n),
      ji_SkippedRepositories = skipped_of nf\<rparr>"

definition submit_response :: "int \<Rightarrow> JobInfo \<Rightarrow> SubmitResponse" where
  "submit_response sid i =
     \<lparr>sub_ID = sid, sub_ControllerRepo = ControllerRepo0, sub_Actor = Actor0, sub_QueryLanguage = ji_QueryLanguage i,
      sub_QueryPackURL = Itoa sid, sub_CreatedAt = ji_CreatedAt i, sub_UpdatedAt = ji_UpdatedAt i,
      sub_Status = ''in_progress'', sub_SkippedRepositories = ji_SkippedRepositories i\<rparr>"

definition session_info :: "int \<Rightarrow> string \<Rightarrow> NameWithOwner list \<Rightarrow> SessionInfo" where
  "session_info sid lang nf =
     \<lparr>si_ID = sid, si_QueryPack = Itoa sid, si_Language = lang, si_AccessMismatchRepos = [],
      si_NotFoundRepos = nf, si_NoCodeqlDBRepos = []\<rparr>"

lemma skipped_repositories_run: "skipped_repositories E (session_info sid lang nf) w = (Ret (skipped_of nf), w)"
  by (simp add: skipped_repositories_def session_info_def skipped_of_def nwoToNwoStringArray_def)

locale commander =
  st: server_state "v_State v" s_ok s_view issued room fits adm_spec adm_job adm_result adm_info repo_ids +
  qu: job_queue "v_Queue v" q_ok jobs results free_jobs free_results qadm_job qadm_result +
  ar: artifact_store "v_Artifacts v" a_ok pack_at result_at bucket_ok +
  db: qldb_store "v_CodeQLDBStore v" d_ok
  for v :: "('q, 's, 'a, 'd) Visibles"
    and s_ok s_view issued room fits adm_spec adm_job adm_result adm_info repo_ids
    and q_ok jobs results free_jobs free_results qadm_job qadm_result
    and a_ok pack_at result_at bucket_ok and d_ok
begin

definition w_ok :: "('q, 's, 'a, 'd) world \<Rightarrow> bool" where
  "w_ok w \<longleftrightarrow> s_ok (w_state w) \<and> q_ok (w_queue w) \<and> a_ok (w_artifacts w) \<and> d_ok (w_dbs w)"

abbreviation view :: "('q, 's, 'a, 'd) world \<Rightarrow> job_view" where
  "view w \<equiv> s_view (w_state w)"

definition sendable :: "AnalyzeJob \<Rightarrow> bool" where
  "sendable j \<longleftrightarrow> adm_spec (job_Spec j) \<and> adm_job j \<and> qadm_job j"

text \<open>
  Starting analyses: one job per repository, queued in order, pending and registered, unless the
  queue blocks.
\<close>

lemma startAnalyses_effect:
  assumes "w_ok w" and "issued (w_state w) sid" and "\<forall>r \<in> set repos. sendable (mk_job loc sid lang r)"
    and "fits (w_state w) (length repos + n)"
  shows "(\<exists>q s. startAnalyses v repos loc sid lang w = (Ret (), w\<lparr>w_queue := q, w_state := s\<rparr>)
    \<and> w_ok (w\<lparr>w_queue := q, w_state := s\<rparr>)
    \<and> jobs q = jobs (w_queue w) @ map (mk_job loc sid lang) repos \<and> results q = results (w_queue w)
    \<and> issued s = issued (w_state w) \<and> fits s n
    \<and> jv_status (s_view s) = (\<lambda>x. if x \<in> (\<lambda>r. \<lparr>SessionID = sid, NWO = r\<rparr>) ` set repos then Some StatusPending
        else jv_status (view w) x)
    \<and> jv_specs (s_view s) = (jv_specs (view w))
        (sid := jv_specs (view w) sid \<union> (\<lambda>r. \<lparr>SessionID = sid, NWO = r\<rparr>) ` set repos)
    \<and> jv_result (s_view s) = jv_result (view w) \<and> jv_info (s_view s) = jv_info (view w))
    \<or> fst (startAnalyses v repos loc sid lang w) = Hang \<and> \<not> free_jobs (w_queue w) (length repos)"
  using assms
proof (induction repos arbitrary: w)
  case Nil
  then show ?case
    by (intro disjI1 exI [of _ "w_queue w"] exI [of _ "w_state w"]) (simp add: startAnalyses_def fun_eq_iff)
next
  case (Cons r repos)
  let ?j = "mk_job loc sid lang r" and ?spec = "\<lparr>SessionID = sid, NWO = r\<rparr>"
  have spec: "job_Spec ?j = ?spec" by (simp add: mk_job_def)
  have adm: "qadm_job ?j" "st.adm ?j"
    using Cons.prems(3) by (simp_all add: sendable_def st.adm_def)
  have "s_ok (w_state w)" "issued (w_state w) (SessionID (job_Spec ?j))" "fits (w_state w) (Suc (length repos + n))"
    using Cons.prems(1,2,4) spec by (simp_all add: w_ok_def)
  from st.submit_job_effect [OF this(1,2) adm(2) this(3)]
  obtain s1 where s1: "submit_job (v_State v) ?j (w_state w) = (Ret (), s1)" "s_ok s1"
    "issued s1 = issued (w_state w)" "fits s1 (length repos + n)"
    "s_view s1 = (view w)\<lparr>jv_status := (jv_status (view w))(?spec \<mapsto> StatusPending),
       jv_specs := (jv_specs (view w))(sid := insert ?spec (jv_specs (view w) sid))\<rparr>"
    unfolding spec by auto
  consider (sent) q1 where "q_SendJob (v_Queue v) ?j (w_queue w) = (Ret (), q1)" "q_ok q1"
      "jobs q1 = jobs (w_queue w) @ [?j]" "results q1 = results (w_queue w)"
      "\<forall>n. free_jobs (w_queue w) (Suc n) \<longrightarrow> free_jobs q1 n"
    | (blocked) q1 where "q_SendJob (v_Queue v) ?j (w_queue w) = (Hang, q1)" "\<forall>n. \<not> free_jobs (w_queue w) (Suc n)"
    using qu.send_job [of "w_queue w" ?j] Cons.prems(1) adm(1) unfolding w_ok_def by (metis prod.collapse)
  then show ?case
  proof cases
    case blocked
    then show ?thesis by (simp add: startAnalyses_def Let_def on_queue_def seqP_def bindP_def)
  next
    case q1: sent
    let ?w1 = "w\<lparr>w_queue := q1, w_state := s1\<rparr>"
    have step: "startAnalyses v (r # repos) loc sid lang w = startAnalyses v repos loc sid lang ?w1"
      using q1(1) s1(1) by (simp add: startAnalyses_def Let_def on_queue_def on_state_def seqP_def bindP_def)
    have "w_ok ?w1" "issued (w_state ?w1) sid" "\<forall>r \<in> set repos. sendable (mk_job loc sid lang r)"
      "fits (w_state ?w1) (length repos + n)"
      using Cons.prems(1-3) q1(2) s1(2-4) by (simp_all add: w_ok_def)
    from Cons.IH [OF this] show ?thesis
    proof (elim disjE)
      assume "fst (startAnalyses v repos loc sid lang ?w1) = Hang \<and> \<not> free_jobs (w_queue ?w1) (length repos)"
      then show ?thesis using step q1(5) by auto
    next
      assume "\<exists>q s. startAnalyses v repos loc sid lang ?w1 = (Ret (), ?w1\<lparr>w_queue := q, w_state := s\<rparr>)
        \<and> w_ok (?w1\<lparr>w_queue := q, w_state := s\<rparr>)
        \<and> jobs q = jobs (w_queue ?w1) @ map (mk_job loc sid lang) repos \<and> results q = results (w_queue ?w1)
        \<and> issued s = issued (w_state ?w1) \<and> fits s n
        \<and> jv_status (s_view s) = (\<lambda>x. if x \<in> (\<lambda>r. \<lparr>SessionID = sid, NWO = r\<rparr>) ` set repos then Some StatusPending
            else jv_status (view ?w1) x)
        \<and> jv_specs (s_view s) = (jv_specs (view ?w1))
            (sid := jv_specs (view ?w1) sid \<union> (\<lambda>r. \<lparr>SessionID = sid, NWO = r\<rparr>) ` set repos)
        \<and> jv_result (s_view s) = jv_result (view ?w1) \<and> jv_info (s_view s) = jv_info (view ?w1)"
      then show ?thesis
        unfolding step using q1(3,4) s1(3,5) by (intro disjI1) (elim ex_forward conjE, auto simp: fun_eq_iff)
    qed
  qed
qed

lemma collect_good:
  assumes "a_ok (w_artifacts w)" and "good_submission r lang entries tgz"
  shows "\<exists>l a. collectRequestInfoAndSaveQueryPack v r sid w =
      (Ret (Inr (lang, map nwo_of entries, l)), w\<lparr>w_artifacts := a\<rparr>) \<and> a_ok a \<and> loc_Key l = pack_key sid
    \<and> bucket_ok (loc_Bucket l) \<and> pack_at a l = Some tgz
    \<and> (\<forall>l'. loc_Key l' \<noteq> pack_key sid \<longrightarrow>
         pack_at a l' = pack_at (w_artifacts w) l' \<and> result_at a l' = result_at (w_artifacts w) l')
    \<and> dom (result_at (w_artifacts w)) \<subseteq> dom (result_at a)"
proof -
  obtain buf msg where m: "rq_body r = Some (Inr buf)" "tryParseSubmitMsg buf = Inr msg"
    "IsBase64Gzip (msg_QueryPack msg)" "b64_decode StdEncoding (msg_QueryPack msg) = Inr tgz"
    "msg_Language msg = lang" "msg_Repositories msg = entries" "list_all one_slash entries"
    using assms(2) unfolding good_submission_def by blast
  obtain l a where a: "SaveQueryPack (v_Artifacts v) sid tgz (w_artifacts w) = (Ret (Inr l), a)" "a_ok a"
    "loc_Key l = pack_key sid" "bucket_ok (loc_Bucket l)" "pack_at a l = Some tgz"
    "\<forall>l'. loc_Key l' \<noteq> pack_key sid \<longrightarrow>
         pack_at a l' = pack_at (w_artifacts w) l' \<and> result_at a l' = result_at (w_artifacts w) l'"
    "dom (result_at (w_artifacts w)) \<subseteq> dom (result_at a)"
    using ar.save_pack [OF assms(1), of sid tgz] by blast
  have "decodeAndSaveBase64QueryPack v (msg_QueryPack msg) sid w = (Ret (Inr l), w\<lparr>w_artifacts := a\<rparr>)"
    using a(1) m(4) by (simp add: decodeAndSaveBase64QueryPack_def on_artifacts_Ret)
  then have "collectRequestInfoAndSaveQueryPack v r sid w =
      (Ret (Inr (lang, map nwo_of entries, l)), w\<lparr>w_artifacts := a\<rparr>)"
    using m session_repos_ok [OF m(7), of "w\<lparr>w_artifacts := a\<rparr>"]
    by (simp add: collectRequestInfoAndSaveQueryPack_def Let_def)
  with a show ?thesis by blast
qed

text \<open>Recording the information of a session with each of its jobs.\<close>

lemma set_infos_effect:
  assumes "s_ok (w_state w)" and "issued (w_state w) sid" and "adm_info i"
    and "\<forall>j \<in> set js. adm_spec \<lparr>SessionID = sid, NWO = NWO (job_Spec j)\<rparr>"
  shows "\<exists>s. forP js (\<lambda>job. on_state (ss_SetJobInfo (v_State v) \<lparr>SessionID = sid, NWO = NWO (job_Spec job)\<rparr> i)) w =
      (Ret (), w\<lparr>w_state := s\<rparr>) \<and> s_ok s \<and> issued s = issued (w_state w) \<and> fits s = fits (w_state w)
    \<and> s_view s = (view w)\<lparr>jv_info := (\<lambda>x. if x \<in> (\<lambda>j. \<lparr>SessionID = sid, NWO = NWO (job_Spec j)\<rparr>) ` set js
        then Some i else jv_info (view w) x)\<rparr>"
  using assms
proof (induction js arbitrary: w)
  case Nil
  then show ?case by (intro exI [of _ "w_state w"]) simp
next
  case (Cons j js)
  let ?spec = "\<lparr>SessionID = sid, NWO = NWO (job_Spec j)\<rparr>"
  obtain s1 where s1: "ss_SetJobInfo (v_State v) ?spec i (w_state w) = (Ret (), s1)" "s_ok s1"
    "issued s1 = issued (w_state w)" "fits s1 = fits (w_state w)"
    "s_view s1 = (view w)\<lparr>jv_info := (jv_info (view w))(?spec \<mapsto> i)\<rparr>"
    using st.set_info [of "w_state w" ?spec i] Cons.prems by auto
  have p: "s_ok (w_state (w\<lparr>w_state := s1\<rparr>))" "issued (w_state (w\<lparr>w_state := s1\<rparr>)) sid"
    "\<forall>j \<in> set js. adm_spec \<lparr>SessionID = sid, NWO = NWO (job_Spec j)\<rparr>"
    using s1 Cons.prems by simp_all
  from Cons.IH [OF p(1,2) Cons.prems(3) p(3)]
  obtain s where s: "forP js (\<lambda>job. on_state (ss_SetJobInfo (v_State v) \<lparr>SessionID = sid, NWO = NWO (job_Spec job)\<rparr> i))
      (w\<lparr>w_state := s1\<rparr>) = (Ret (), w\<lparr>w_state := s1\<rparr>\<lparr>w_state := s\<rparr>)" "s_ok s"
    "issued s = issued (w_state (w\<lparr>w_state := s1\<rparr>))" "fits s = fits (w_state (w\<lparr>w_state := s1\<rparr>))"
    "s_view s = (view (w\<lparr>w_state := s1\<rparr>))\<lparr>jv_info := (\<lambda>x. if x \<in> (\<lambda>j. \<lparr>SessionID = sid, NWO = NWO (job_Spec j)\<rparr>) ` set js
        then Some i else jv_info (view (w\<lparr>w_state := s1\<rparr>)) x)\<rparr>"
    by blast
  have "on_state (ss_SetJobInfo (v_State v) ?spec i) w = (Ret (), w\<lparr>w_state := s1\<rparr>)"
    using s1(1) by (rule on_state_Ret)
  then show ?case
    using s s1 by (intro exI [of _ s]) (auto simp: fun_eq_iff intro!: arg_cong [where f = "\<lambda>f. (view w)\<lparr>jv_info := f\<rparr>"])
qed

lemma build_effect:
  assumes "s_ok (w_state w)" and "issued (w_state w) sid" and "adm_info (info_of E (w_ticks w) lang nf)"
    and "\<forall>x \<in> jv_specs (view w) sid. SessionID x = sid \<and> adm_spec x"
  shows "\<exists>s. buildSessionInfoResponseJson E v (session_info sid lang nf) w =
      (Ret (Inr (json_text (SubmitResponse_json (submit_response sid (info_of E (w_ticks w) lang nf))))),
       w\<lparr>w_ticks := Suc (Suc (w_ticks w)), w_state := s\<rparr>)
    \<and> s_ok s \<and> issued s = issued (w_state w) \<and> fits s = fits (w_state w)
    \<and> s_view s = (view w)\<lparr>jv_info := (\<lambda>x. if x \<in> jv_specs (view w) sid
        then Some (info_of E (w_ticks w) lang nf) else jv_info (view w) x)\<rparr>"
proof -
  let ?i = "info_of E (w_ticks w) lang nf" and ?w = "w\<lparr>w_ticks := Suc (Suc (w_ticks w))\<rparr>"
  obtain js s1 where g: "ss_GetJobList (v_State v) sid (w_state w) = (Ret (Inr js), s1)" "s_ok s1"
    "issued s1 = issued (w_state w)" "fits s1 = fits (w_state w)" "s_view s1 = view w"
    "job_Spec ` set js = jv_specs (view w) sid"
    using st.get_jobs [OF assms(1,2)] by blast
  have same: "\<lparr>SessionID = sid, NWO = NWO (job_Spec j)\<rparr> = job_Spec j \<and> adm_spec (job_Spec j)" if "j \<in> set js" for j
    using assms(4) g(6) that by (metis (full_types) JobSpec.surjective image_eqI old.unit.exhaust)
  then have specs: "(\<lambda>j. \<lparr>SessionID = sid, NWO = NWO (job_Spec j)\<rparr>) ` set js = jv_specs (view w) sid"
    using g(6) by (metis (no_types, lifting) image_cong)
  have "s_ok (w_state (?w\<lparr>w_state := s1\<rparr>))" "issued (w_state (?w\<lparr>w_state := s1\<rparr>)) sid"
    "\<forall>j \<in> set js. adm_spec \<lparr>SessionID = sid, NWO = NWO (job_Spec j)\<rparr>"
    using g(2,3) assms(2) same by simp_all
  from set_infos_effect [OF this(1,2) assms(3) this(3)]
  obtain s where s: "forP js (\<lambda>job. on_state (ss_SetJobInfo (v_State v) \<lparr>SessionID = sid, NWO = NWO (job_Spec job)\<rparr> ?i))
      (?w\<lparr>w_state := s1\<rparr>) = (Ret (), ?w\<lparr>w_state := s\<rparr>)" "s_ok s" "issued s = issued s1" "fits s = fits s1"
    "s_view s = (s_view s1)\<lparr>jv_info := (\<lambda>x. if x \<in> jv_specs (view w) sid then Some ?i else jv_info (s_view s1) x)\<rparr>"
    unfolding specs by (auto cong: if_cong)
  have "on_state (ss_GetJobList (v_State v) sid) ?w = (Ret (Inr js), ?w\<lparr>w_state := s1\<rparr>)"
    using g(1) by (simp add: on_state_Ret)
  then have "buildSessionInfoResponseJson E v (session_info sid lang nf) w =
      (Ret (Inr (json_text (SubmitResponse_json (submit_response sid ?i)))), ?w\<lparr>w_state := s\<rparr>)"
    using s(1) skipped_repositories_run [of E sid lang nf w]
    by (simp add: buildSessionInfoResponseJson_def time_now_def session_info_def submit_response_def info_of_def Let_def)
  with s g(3-5) show ?thesis by (intro exI [of _ s]) (simp cong: if_cong)
qed

text \<open>The second half of a submission: the analyses are started and the answer is written.\<close>

abbreviation answer_session :: "server_env \<Rightarrow> int \<Rightarrow> string \<Rightarrow> NameWithOwner list \<Rightarrow> ('q, 's, 'a, 'd, unit) handler" where
  "answer_session E sid lang nf \<equiv> tryP (buildSessionInfoResponseJson E v (session_info sid lang nf))
     (\<lambda>err. send_error (err_text err) StatusInternalServerError) (send_content ''application/json'')"

lemma start_and_answer:
  assumes w: "w_ok w" "issued (w_state w) sid" "jv_specs (view w) sid = {}" "w_resp w = response0"
    and repos: "\<forall>n \<in> set found. sendable (mk_job l sid lang n)" "fits (w_state w) (length found)"
    and info: "adm_info (info_of E (w_ticks w) lang nf)"
  shows "(\<exists>q s r. seqP (startAnalyses v found l sid lang) (answer_session E sid lang nf) w =
        (Ret (), w\<lparr>w_queue := q, w_state := s, w_ticks := Suc (Suc (w_ticks w)), w_resp := r\<rparr>)
    \<and> q_ok q \<and> s_ok s \<and> issued s = issued (w_state w)
    \<and> jobs q = jobs (w_queue w) @ map (mk_job l sid lang) found \<and> results q = results (w_queue w)
    \<and> jv_specs (s_view s) = (jv_specs (view w))(sid := (\<lambda>n. \<lparr>SessionID = sid, NWO = n\<rparr>) ` set found)
    \<and> (\<forall>n \<in> set found. jv_status (s_view s) \<lparr>SessionID = sid, NWO = n\<rparr> = Some StatusPending
         \<and> jv_info (s_view s) \<lparr>SessionID = sid, NWO = n\<rparr> = Some (info_of E (w_ticks w) lang nf))
    \<and> (\<forall>x. x \<notin> (\<lambda>n. \<lparr>SessionID = sid, NWO = n\<rparr>) ` set found \<longrightarrow>
         jv_status (s_view s) x = jv_status (view w) x \<and> jv_info (s_view s) x = jv_info (view w) x)
    \<and> jv_result (s_view s) = jv_result (view w)
    \<and> answered 200 ''application/json''
         (json_text (SubmitResponse_json (submit_response sid (info_of E (w_ticks w) lang nf)))) r)
    \<or> fst (seqP (startAnalyses v found l sid lang) (answer_session E sid lang nf) w) = Hang \<and> \<not> free_jobs (w_queue w) (length found)"
    (is "?effect \<or> _")
proof -
  let ?specs = "(\<lambda>n. \<lparr>SessionID = sid, NWO = n\<rparr>) ` set found"
  consider (started) q s where "startAnalyses v found l sid lang w = (Ret (), w\<lparr>w_queue := q, w_state := s\<rparr>)"
      "w_ok (w\<lparr>w_queue := q, w_state := s\<rparr>)" "jobs q = jobs (w_queue w) @ map (mk_job l sid lang) found"
      "issued s = issued (w_state w)" "jv_status (s_view s) = (\<lambda>x. if x \<in> ?specs then Some StatusPending else jv_status (view w) x)"
      "jv_specs (s_view s) = (jv_specs (view w))(sid := ?specs)" "jv_result (s_view s) = jv_result (view w)"
      "jv_info (s_view s) = jv_info (view w)" "results q = results (w_queue w)"
    | (blocked) "fst (startAnalyses v found l sid lang w) = Hang" "\<not> free_jobs (w_queue w) (length found)"
    using startAnalyses_effect [OF w(1,2) repos(1), of 0, unfolded w(3) Un_empty_left add_0_right] repos(2) by blast
  then show ?thesis
  proof cases
    case blocked
    then show ?thesis by (cases "startAnalyses v found l sid lang w") simp
  next
    case st: started
    let ?w = "w\<lparr>w_queue := q, w_state := s\<rparr>" and ?i = "info_of E (w_ticks w) lang nf"
    have "s_ok (w_state ?w)" "issued (w_state ?w) sid" "adm_info (info_of E (w_ticks ?w) lang nf)"
      "\<forall>x \<in> jv_specs (view ?w) sid. SessionID x = sid \<and> adm_spec x"
      using st(2,4,6) w(2) repos(1) info by (auto simp: w_ok_def sendable_def mk_job_def)
    from build_effect [OF this]
    obtain s' where b: "buildSessionInfoResponseJson E v (session_info sid lang nf) ?w =
        (Ret (Inr (json_text (SubmitResponse_json (submit_response sid ?i)))),
         ?w\<lparr>w_ticks := Suc (Suc (w_ticks w)), w_state := s'\<rparr>)" "s_ok s'" "issued s' = issued s"
      "s_view s' = (s_view s)\<lparr>jv_info := (\<lambda>x. if x \<in> ?specs then Some ?i else jv_info (s_view s) x)\<rparr>"
      using st(6) by (auto cong: if_cong)
    let ?body = "json_text (SubmitResponse_json (submit_response sid ?i))"
    let ?r = "rw_Write ?body (rw_SetHeader ''Content-Type'' ''application/json'' response0)"
    have "seqP (startAnalyses v found l sid lang) (answer_session E sid lang nf) w =
        (Ret (), w\<lparr>w_queue := q, w_state := s', w_ticks := Suc (Suc (w_ticks w)), w_resp := ?r\<rparr>)"
      using st(1) b(1) w(4) by (simp add: send_content_def)
    then have ?effect
      using st(2-9) b(2-4) answered_content [of "''application/json''" ?body]
      by (intro exI [of _ q] exI [of _ s'] exI [of _ ?r]) (auto simp: w_ok_def)
    then show ?thesis ..
  qed
qed

text \<open>
  A well-formed submission as a whole.  It does not return if the database store does not or
  if the jobs cannot be sent.
\<close>

lemma submission_effect:
  assumes w: "w_ok w" "room (w_state w)" "w_resp w = response0"
    and sub: "good_submission r lang entries tgz"
    and adm: "\<And>s sid l n. s_ok s \<Longrightarrow> issued s sid \<Longrightarrow> n \<in> nwo_of ` set entries \<Longrightarrow> loc_Key l = pack_key sid \<Longrightarrow>
        bucket_ok (loc_Bucket l) \<Longrightarrow> sendable (mk_job l sid lang n)"
    and info: "\<And>nf. set nf \<subseteq> nwo_of ` set entries \<Longrightarrow> length nf \<le> length entries \<Longrightarrow> adm_info (info_of E (w_ticks w) lang nf)"
    and fits: "\<And>k. k \<le> length entries \<Longrightarrow> fits (w_state w) k"
  shows "(\<exists>sid l nf found w'. MRVARequestCommon E v r w = (Ret (), w') \<and> w_ok w'
    \<and> FindAvailableDBs (v_CodeQLDBStore v) (map nwo_of entries) (w_dbs w) = (Ret (nf, found), w_dbs w')
    \<and> \<not> issued (w_state w) sid \<and> issued (w_state w') = (issued (w_state w))(sid := True)
    \<and> map nwo_of entries \<in> shuffles nf found
    \<and> loc_Key l = pack_key sid \<and> pack_at (w_artifacts w') l = Some tgz
    \<and> jobs (w_queue w') = jobs (w_queue w) @ map (mk_job l sid lang) found \<and> results (w_queue w') = results (w_queue w)
    \<and> dom (result_at (w_artifacts w)) \<subseteq> dom (result_at (w_artifacts w'))
    \<and> jv_specs (view w') = (jv_specs (view w))(sid := (\<lambda>n. \<lparr>SessionID = sid, NWO = n\<rparr>) ` set found)
    \<and> (\<forall>n \<in> set found. jv_status (view w') \<lparr>SessionID = sid, NWO = n\<rparr> = Some StatusPending
         \<and> jv_info (view w') \<lparr>SessionID = sid, NWO = n\<rparr> = Some (info_of E (w_ticks w) lang nf))
    \<and> (\<forall>x. x \<notin> (\<lambda>n. \<lparr>SessionID = sid, NWO = n\<rparr>) ` set found \<longrightarrow> jv_status (view w') x = jv_status (view w) x \<and> jv_info (view w') x = jv_info (view w) x)
    \<and> jv_result (view w') = jv_result (view w)
    \<and> answered 200 ''application/json''
         (json_text (SubmitResponse_json (submit_response sid (info_of E (w_ticks w) lang nf)))) (w_resp w'))
    \<or> fst (MRVARequestCommon E v r w) = Hang \<and>
      (fst (FindAvailableDBs (v_CodeQLDBStore v) (map nwo_of entries) (w_dbs w)) = Hang \<or> \<not> free_jobs (w_queue w) (length entries))"
    (is "?effect \<or> ?waits")
proof -
  have ok: "s_ok (w_state w)" "q_ok (w_queue w)" "a_ok (w_artifacts w)" "d_ok (w_dbs w)"
    using w(1) by (simp_all add: w_ok_def)
  obtain sid s1 where n: "ss_NextID (v_State v) (w_state w) = (Ret sid, s1)" "s_ok s1" "s_view s1 = view w"
    "\<not> issued (w_state w) sid" "issued s1 = (issued (w_state w))(sid := True)" "fits s1 = fits (w_state w)"
    "jv_specs (view w) sid = {}"
    using st.next_id [OF ok(1) w(2)] by blast
  let ?w1 = "w\<lparr>w_state := s1\<rparr>"
  obtain l a where c: "collectRequestInfoAndSaveQueryPack v r sid ?w1 =
      (Ret (Inr (lang, map nwo_of entries, l)), ?w1\<lparr>w_artifacts := a\<rparr>)" "a_ok a" "loc_Key l = pack_key sid"
    "bucket_ok (loc_Bucket l)" "pack_at a l = Some tgz" "dom (result_at (w_artifacts w)) \<subseteq> dom (result_at a)"
    using collect_good [of ?w1 r lang entries tgz sid] ok(3) sub by auto
  show ?thesis
  proof (cases "fst (FindAvailableDBs (v_CodeQLDBStore v) (map nwo_of entries) (w_dbs w)) = Hang")
    case True
    then obtain d where "FindAvailableDBs (v_CodeQLDBStore v) (map nwo_of entries) (w_dbs w) = (Hang, d)"
      by (metis prod.collapse)
    then have "fst (MRVARequestCommon E v r w) = Hang"
      using n(1) c(1) by (simp add: MRVARequestCommon_def on_state_def on_dbs_def Let_def)
    with True show ?thesis by blast
  next
    case False
    then obtain nf found d where d: "FindAvailableDBs (v_CodeQLDBStore v) (map nwo_of entries) (w_dbs w) = (Ret (nf, found), d)"
      "d_ok d" "map nwo_of entries \<in> shuffles nf found"
      using db.find_dbs [OF ok(4)] by blast
    let ?w2 = "?w1\<lparr>w_artifacts := a, w_dbs := d\<rparr>"
    have sets: "set found \<subseteq> nwo_of ` set entries" "set nf \<subseteq> nwo_of ` set entries" "length found \<le> length entries" "length nf \<le> length entries"
      using set_shuffles [OF d(3)] length_shuffles [OF d(3)] by auto
    have p: "w_ok ?w2" "issued (w_state ?w2) sid" "\<forall>n \<in> set found. sendable (mk_job l sid lang n)"
      "fits (w_state ?w2) (length found)"
      using ok n(2,5,6) c(2) d(2) adm [OF n(2), of sid _ l] c(3,4) sets fits by (auto simp: w_ok_def)
    have run: "MRVARequestCommon E v r w = seqP (startAnalyses v found l sid lang) (answer_session E sid lang nf) ?w2"
      using n(1) c(1) d(1) by (simp add: MRVARequestCommon_def on_state_def on_dbs_def session_info_def)
    have w2: "jv_specs (view ?w2) sid = {}" "w_resp ?w2 = response0" "adm_info (info_of E (w_ticks ?w2) lang nf)"
      using n(3,7) w(3) info [OF sets(2,4)] by simp_all
    have free: "free_jobs (w_queue w) (length entries) \<Longrightarrow> free_jobs (w_queue w) (length found)"
      using qu.free_jobs_le sets(3) by blast
    let ?specs = "(\<lambda>n. \<lparr>SessionID = sid, NWO = n\<rparr>) ` set found" and ?i = "info_of E (w_ticks w) lang nf"
    consider (finished) q s x where "MRVARequestCommon E v r w =
          (Ret (), ?w2\<lparr>w_queue := q, w_state := s, w_ticks := Suc (Suc (w_ticks w)), w_resp := x\<rparr>)"
        "q_ok q" "s_ok s" "issued s = issued s1" "jobs q = jobs (w_queue w) @ map (mk_job l sid lang) found"
        "results q = results (w_queue w)" "jv_specs (s_view s) = (jv_specs (view w))(sid := ?specs)"
        "\<forall>n \<in> set found. jv_status (s_view s) \<lparr>SessionID = sid, NWO = n\<rparr> = Some StatusPending
           \<and> jv_info (s_view s) \<lparr>SessionID = sid, NWO = n\<rparr> = Some ?i"
        "\<forall>x. x \<notin> ?specs \<longrightarrow> jv_status (s_view s) x = jv_status (view w) x \<and> jv_info (s_view s) x = jv_info (view w) x"
        "jv_result (s_view s) = jv_result (view w)"
        "answered 200 ''application/json'' (json_text (SubmitResponse_json (submit_response sid ?i))) x"
      | (blocked) "fst (MRVARequestCommon E v r w) = Hang" "\<not> free_jobs (w_queue w) (length found)"
      using start_and_answer [OF p(1,2) w2(1,2) p(3,4) w2(3)] n(3) unfolding run by auto
    then show ?thesis
    proof cases
      case blocked
      then show ?thesis using free by blast
    next
      case e: finished
      let ?w' = "?w2\<lparr>w_queue := q, w_state := s, w_ticks := Suc (Suc (w_ticks w)), w_resp := x\<rparr>"
      have "w_ok ?w'" using ok(3,4) c(2) d(2) e(2,3) by (simp add: w_ok_def)
      then have ?effect
        using e n(4,5) d(1,3) c(3,5,6)
        by (intro exI [of _ sid] exI [of _ l] exI [of _ nf] exI [of _ found] exI [of _ ?w']) simp
      then show ?thesis ..
    qed
  qed
qed

end

end
