(* ===== verification/Commander_Read.thy ===== *)
theory Commander_Read
  imports Commander
begin

text \<open>
  The requests that read: what the server answers to status and download requests, and what
  the loop over the results does, over any implementation of the server's interfaces.
\<close>

lemma respond_error: "send_error msg code w = (Ret (), w\<lparr>w_resp := http_Error msg code (w_resp w)\<rparr>)"
  by (simp add: send_error_def)

lemma respond_content:
  "send_content ct data w = (Ret (), w\<lparr>w_resp := rw_Write data (rw_SetHeader ''Content-Type'' ct (w_resp w))\<rparr>)"
  by (simp add: send_content_def)

text \<open>A submission that is refused: no body, no JSON of the right shape, or no query pack.\<close>

definition bad_submission :: "request \<Rightarrow> int \<Rightarrow> bool" where
  "bad_submission r code \<longleftrightarrow>
     (case rq_body r of
        None \<Rightarrow> code = 204
      | Some (Inl e) \<Rightarrow> False
      | Some (Inr buf) \<Rightarrow> code = 400 \<and>
          (case tryParseSubmitMsg buf of Inl e \<Rightarrow> True
           | Inr msg \<Rightarrow> \<not> IsBase64Gzip (msg_QueryPack msg) \<or> isl (b64_decode StdEncoding (msg_QueryPack msg))))"

lemma collect_bad:
  assumes "bad_submission r code"
  shows "\<exists>e. collectRequestInfoAndSaveQueryPack v r sid w =
    (Ret (Inl e), w\<lparr>w_resp := http_Error (err_text e) code (w_resp w)\<rparr>)"
  using assms
  by (auto simp: bad_submission_def collectRequestInfoAndSaveQueryPack_def decodeAndSaveBase64QueryPack_def
      Let_def respond_error isl_def split: option.splits sum.splits)

lemma http_Error_code: "rw_code (http_Error m c (http_Error m' c' response0)) = Some c'"
  by (simp add: http_Error_def rw_Write_def rw_WriteHeader_def rw_SetHeader_def response0_def Let_def)

text \<open>
  A submission that is well-formed but for an entry without a slash: the handler answers 400 and
  indexes past the end of the parts of the entry.
\<close>

definition slashless_submission :: "request \<Rightarrow> bytes \<Rightarrow> bool" where
  "slashless_submission r tgz \<longleftrightarrow>
     (\<exists>buf msg. rq_body r = Some (Inr buf) \<and> tryParseSubmitMsg buf = Inr msg \<and>
        IsBase64Gzip (msg_QueryPack msg) \<and> b64_decode StdEncoding (msg_QueryPack msg) = Inr tgz \<and>
        list_ex (\<lambda>e. CHR ''/'' \<notin> set e) (msg_Repositories msg))"

abbreviation index_panic :: string where
  "index_panic \<equiv> ''runtime error: index out of range [1] with length 1''"

lemma http_Error_first: "rw_code (http_Error m c rw) = (case rw_code rw of None \<Rightarrow> Some c | Some c' \<Rightarrow> Some c')"
  by (simp add: http_Error_def rw_Write_def rw_WriteHeader_def rw_SetHeader_def Let_def split: option.split)

lemma session_repos_slashless:
  assumes "list_ex (\<lambda>e. CHR ''/'' \<notin> set e) es" and "rw_code (w_resp w) \<in> {None, Some 400}"
  shows "\<exists>rw. session_repos es w = (Panic index_panic, w\<lparr>w_resp := rw\<rparr>) \<and> rw_code rw = Some 400"
  using assms
proof (induction es arbitrary: w)
  case (Cons e es)
  let ?bad = "http_Error ''Invalid owner / repository entry'' 400 (w_resp w)"
  show ?case
  proof (cases "CHR ''/'' \<in> set e")
    case False
    with Cons.prems(2) show ?thesis by (auto simp: split_on_no_sep respond_error http_Error_first)
  next
    case True
    then have "0 < count_list e CHR ''/''" by (simp add: count_list_0_iff neq0_conv [symmetric])
    then have "2 \<le> length (split_on CHR ''/'' e)" by (simp add: length_split_on)
    then obtain a b t where parts: "split_on CHR ''/'' e = a # b # t" by (auto simp: numeral_2_eq_2 Suc_le_length_iff)
    define w1 where "w1 = (if t = [] then w else w\<lparr>w_resp := ?bad\<rparr>)"
    have "rw_code (w_resp w1) \<in> {None, Some 400}" using Cons.prems(2) by (auto simp: w1_def http_Error_first)
    moreover have "list_ex (\<lambda>e. CHR ''/'' \<notin> set e) es" using Cons.prems(1) True by simp
    ultimately obtain rw where "session_repos es w1 = (Panic index_panic, w1\<lparr>w_resp := rw\<rparr>)" "rw_code rw = Some 400"
      using Cons.IH [of w1] by blast
    then show ?thesis using parts by (auto simp: w1_def respond_error bindP_def seqP_def split: if_splits)
  qed
qed simp

text \<open>What a status request reports of one job.\<close>

definition scan_of ::
  "job_view \<Rightarrow> (ArtifactLocation \<Rightarrow> bytes option) \<Rightarrow> JobInfo \<Rightarrow> AnalyzeJob \<Rightarrow> int \<Rightarrow> ScannedRepo" where
  "scan_of V R ji job i =
     (let st = the (jv_status V (job_Spec job)); r = the (jv_result V (job_Spec job)) in
      if st = StatusSucceeded
      then scanned_repo ji job i st (res_ResultCount r) (int (length (the (R (res_ResultLocation r)))))
      else scanned_repo ji job i st 0 0)"

text \<open>A job of which the status is known, and, if it succeeded, the result and its artifact.\<close>

definition reported :: "job_view \<Rightarrow> (ArtifactLocation \<Rightarrow> bytes option) \<Rightarrow> JobSpec \<Rightarrow> bool" where
  "reported V R js \<longleftrightarrow>
     (\<exists>st. jv_status V js = Some st \<and>
        (st = StatusSucceeded \<longrightarrow>
           (\<exists>r d. jv_result V js = Some r \<and> R (res_ResultLocation r) = Some d \<and> int (length d) \<le> max_int32)))"

text \<open>What is announced of the result of a job.\<close>

definition download_of :: "server_env \<Rightarrow> int \<Rightarrow> JobSpec \<Rightarrow> AnalyzeResult \<Rightarrow> bytes \<Rightarrow> string \<Rightarrow> DownloadResponse" where
  "download_of E rid js r d tok =
     \<lparr>dl_Repository = download_repo rid js, dl_AnalysisStatus = ''succeeded'', dl_ResultCount = res_ResultCount r,
      dl_ArtifactSizeBytes = int (length d), dl_DatabaseCommitSha = res_DatabaseSHA r,
      dl_SourceLocationPrefix = res_SourceLocationPrefix r, dl_ArtifactURL = artifact_url E tok\<rparr>"

context commander
begin

lemma rejected_submission:
  assumes "w_ok w" and "room (w_state w)" and "w_resp w = response0" and "bad_submission r code"
  shows "\<exists>sid w'. MRVARequestCommon E v r w = (Ret (), w') \<and> w_ok w' \<and> view w' = view w
    \<and> issued (w_state w') = (issued (w_state w))(sid := True)
    \<and> w_queue w' = w_queue w \<and> w_artifacts w' = w_artifacts w \<and> w_dbs w' = w_dbs w
    \<and> rw_code (w_resp w') = Some code"
proof -
  obtain sid s where n: "ss_NextID (v_State v) (w_state w) = (Ret sid, s)" "s_ok s" "s_view s = view w"
    "issued s = (issued (w_state w))(sid := True)"
    using st.next_id [of "w_state w"] assms(1,2) by (auto simp: w_ok_def)
  obtain e where "collectRequestInfoAndSaveQueryPack v r sid (w\<lparr>w_state := s\<rparr>) =
      (Ret (Inl e), w\<lparr>w_state := s\<rparr>\<lparr>w_resp := http_Error (err_text e) code (w_resp (w\<lparr>w_state := s\<rparr>))\<rparr>)"
    using collect_bad [OF assms(4)] by blast
  then have "MRVARequestCommon E v r w = (Ret (), w\<lparr>w_state := s,
      w_resp := http_Error (err_text e) 400 (http_Error (err_text e) code response0)\<rparr>)"
    using n(1) assms(3) by (simp add: MRVARequestCommon_def on_state_Ret respond_error)
  then show ?thesis using n assms(1) by (intro exI [of _ sid]) (simp add: w_ok_def http_Error_code)
qed

lemma panicking_submission:
  assumes "w_ok w" and "room (w_state w)" and "w_resp w = response0" and "slashless_submission r tgz"
  shows "\<exists>sid l w'. MRVARequestCommon E v r w = (Panic index_panic, w') \<and> w_ok w' \<and> view w' = view w
    \<and> issued (w_state w') = (issued (w_state w))(sid := True) \<and> w_queue w' = w_queue w \<and> w_dbs w' = w_dbs w
    \<and> loc_Key l = pack_key sid \<and> pack_at (w_artifacts w') l = Some tgz \<and> rw_code (w_resp w') = Some 400"
proof -
  obtain sid s where n: "ss_NextID (v_State v) (w_state w) = (Ret sid, s)" "s_ok s" "s_view s = view w"
    "issued s = (issued (w_state w))(sid := True)"
    using st.next_id [of "w_state w"] assms(1,2) by (auto simp: w_ok_def)
  obtain buf msg where m: "rq_body r = Some (Inr buf)" "tryParseSubmitMsg buf = Inr msg"
    "IsBase64Gzip (msg_QueryPack msg)" "b64_decode StdEncoding (msg_QueryPack msg) = Inr tgz"
    "list_ex (\<lambda>e. CHR ''/'' \<notin> set e) (msg_Repositories msg)"
    using assms(4) unfolding slashless_submission_def by blast
  obtain l a where a: "SaveQueryPack (v_Artifacts v) sid tgz (w_artifacts w) = (Ret (Inr l), a)" "a_ok a"
    "loc_Key l = pack_key sid" "pack_at a l = Some tgz"
    using ar.save_pack [of "w_artifacts w" sid tgz] assms(1) by (auto simp: w_ok_def)
  let ?w = "w\<lparr>w_state := s, w_artifacts := a\<rparr>"
  obtain rw where rw: "session_repos (msg_Repositories msg) ?w = (Panic index_panic, ?w\<lparr>w_resp := rw\<rparr>)" "rw_code rw = Some 400"
    using session_repos_slashless [OF m(5), of ?w] assms(3) by (auto simp: response0_def)
  have "decodeAndSaveBase64QueryPack v (msg_QueryPack msg) sid (w\<lparr>w_state := s\<rparr>) = (Ret (Inr l), ?w)"
    using a(1) m(4) by (simp add: decodeAndSaveBase64QueryPack_def on_artifacts_Ret)
  then have "MRVARequestCommon E v r w = (Panic index_panic, ?w\<lparr>w_resp := rw\<rparr>)"
    using n(1) m rw(1) by (simp add: MRVARequestCommon_def collectRequestInfoAndSaveQueryPack_def Let_def on_state_Ret tryP_def bindP_def)
  then show ?thesis using n a rw(2) assms(1) by (intro exI [of _ sid] exI [of _ l]) (simp add: w_ok_def)
qed

text \<open>One result taken from the queue is stored, and its status becomes that of its job.\<close>

lemma consume_once_effect:
  assumes "w_ok w" and "results (w_queue w) = r # rs" and "st.consumable r"
    and "issued (w_state w) (SessionID (res_Spec r))"
  shows "\<exists>q s. ConsumeResults_once v w = (Ret (), w\<lparr>w_queue := q, w_state := s\<rparr>)
    \<and> w_ok (w\<lparr>w_queue := q, w_state := s\<rparr>) \<and> results q = rs \<and> jobs q = jobs (w_queue w)
    \<and> issued s = issued (w_state w) \<and> fits s = fits (w_state w)
    \<and> s_view s = (view w)\<lparr>jv_result := (jv_result (view w))(res_Spec r \<mapsto> r),
        jv_status := (jv_status (view w))(res_Spec r \<mapsto> res_Status r)\<rparr>"
proof -
  obtain q where q: "q_RecvResult (v_Queue v) (w_queue w) = (Ret (Some r), q)" "q_ok q" "results q = rs"
    "jobs q = jobs (w_queue w)"
    using qu.recv_result [of "w_queue w" r rs] assms(1,2) by (auto simp: w_ok_def)
  have c: "adm_spec (res_Spec r)" "adm_result r" "known_status (res_Status r)" "s_ok (w_state w)"
    using assms(1,3) by (simp_all add: st.consumable_def w_ok_def)
  obtain s where s: "consume_result (v_State v) r (w_state w) = (Ret (), s)" "s_ok s" "issued s = issued (w_state w)"
    "fits s = fits (w_state w)"
    "s_view s = (view w)\<lparr>jv_result := (jv_result (view w))(res_Spec r \<mapsto> r),
        jv_status := (jv_status (view w))(res_Spec r \<mapsto> res_Status r)\<rparr>"
    using st.consume_result_effect [OF c(4) assms(4) c(1-3)] by blast
  have "ConsumeResults_once v w = (Ret (), w\<lparr>w_queue := q, w_state := s\<rparr>)"
    using q(1) s(1) by (simp add: ConsumeResults_once_def on_queue_Ret on_state_Ret)
  then show ?thesis using q s assms(1) by (intro exI [of _ q] exI [of _ s]) (simp add: w_ok_def)
qed


text \<open>A request that only reads leaves the queue, the issued sessions and the stored results alone.\<close>

definition reads_only :: "('q, 's, 'a, 'd) world \<Rightarrow> ('q, 's, 'a, 'd) world \<Rightarrow> bool" where
  "reads_only w w' \<longleftrightarrow> w_ok w' \<and> view w' = view w \<and> w_queue w' = w_queue w \<and>
     issued (w_state w') = issued (w_state w) \<and> result_at (w_artifacts w') = result_at (w_artifacts w)"

text \<open>The status of one job, with the size and the number of its results.\<close>

lemma job_outcome_effect:
  assumes "a_ok (w_artifacts w)" and "s_ok (w_state w)" and "adm_spec (job_Spec job)"
    and "jv_status (view w) (job_Spec job) = Some st" and "reported (view w) (result_at (w_artifacts w)) (job_Spec job)"
  shows "\<exists>s a sz cnt. job_outcome v job st w = (Ret (Inr (sz, cnt)), w\<lparr>w_state := s, w_artifacts := a\<rparr>)
    \<and> s_ok s \<and> issued s = issued (w_state w) \<and> fits s = fits (w_state w) \<and> s_view s = view w
    \<and> a_ok a \<and> pack_at a = pack_at (w_artifacts w) \<and> result_at a = result_at (w_artifacts w)
    \<and> (\<forall>ji i. scanned_repo ji job i st cnt sz = scan_of (view w) (result_at (w_artifacts w)) ji job i)
    \<and> (\<forall>i m. repo_ids (w_state w) i = Some m \<longrightarrow> repo_ids s i = Some m)"
proof (cases "st = StatusSucceeded")
  case True
  then obtain r d where r: "jv_result (view w) (job_Spec job) = Some r"
    "result_at (w_artifacts w) (res_ResultLocation r) = Some d" "int (length d) \<le> max_int32"
    using assms(4,5) by (auto simp: reported_def)
  obtain s where s: "ss_GetResult (v_State v) (job_Spec job) (w_state w) = (Ret (Inr r), s)" "s_ok s"
    "issued s = issued (w_state w)" "fits s = fits (w_state w)" "s_view s = view w"
    using st.get_result [OF assms(2,3)] r(1) by auto
  obtain a where a: "GetResultSize (v_Artifacts v) (res_ResultLocation r) (w_artifacts w) = (Ret (Inr (int (length d))), a)"
    "a_ok a" "pack_at a = pack_at (w_artifacts w)" "result_at a = result_at (w_artifacts w)"
    using ar.get_size_Some [OF assms(1) r(2,3)] by blast
  have "on_state (ss_GetResult (v_State v) (job_Spec job)) w = (Ret (Inr r), w\<lparr>w_state := s\<rparr>)"
    using s(1) by (rule on_state_Ret)
  moreover have "on_artifacts (GetResultSize (v_Artifacts v) (res_ResultLocation r)) (w\<lparr>w_state := s\<rparr>) =
      (Ret (Inr (int (length d))), w\<lparr>w_state := s, w_artifacts := a\<rparr>)"
    using a(1) by (simp add: on_artifacts_Ret)
  moreover note keeps_idsD [OF st.ids_kept(2) s(1)]
  ultimately show ?thesis
    using True s a r assms(4)
    by (intro exI [of _ s] exI [of _ a] exI [of _ "int (length d)"] exI [of _ "res_ResultCount r"])
      (simp add: job_outcome_def scan_of_def)
next
  case False
  then show ?thesis
    using assms
    by (intro exI [of _ "w_state w"] exI [of _ "w_artifacts w"] exI [of _ 0]) (simp add: job_outcome_def scan_of_def)
qed

lemma scan_jobs_effect:
  assumes "a_ok (w_artifacts w)" and "s_ok (w_state w)" and "fits (w_state w) (length js + n)"
    and "\<forall>j \<in> set js. adm_spec (job_Spec j) \<and> reported (view w) (result_at (w_artifacts w)) (job_Spec j)"
  shows "\<exists>ids s a. scan_jobs v ji js w =
      (Ret (Inr (map2 (scan_of (view w) (result_at (w_artifacts w)) ji) js ids)), w\<lparr>w_state := s, w_artifacts := a\<rparr>)
    \<and> s_ok s \<and> issued s = issued (w_state w) \<and> fits s n \<and> s_view s = view w
    \<and> a_ok a \<and> pack_at a = pack_at (w_artifacts w) \<and> result_at a = result_at (w_artifacts w)
    \<and> list_all2 (\<lambda>j i. repo_ids s i = Some (NWO (job_Spec j))) js ids
    \<and> (\<forall>i m. repo_ids (w_state w) i = Some m \<longrightarrow> repo_ids s i = Some m)"
  using assms
proof (induction js arbitrary: w)
  case Nil
  then show ?case by (intro exI [of _ "[]"] exI [of _ "w_state w"] exI [of _ "w_artifacts w"]) simp
next
  case (Cons j js)
  let ?V = "view w" and ?R = "result_at (w_artifacts w)"
  have j: "adm_spec (job_Spec j)" "reported ?V ?R (job_Spec j)" using Cons.prems(4) by simp_all
  obtain st where st: "jv_status ?V (job_Spec j) = Some st" using j(2) by (auto simp: reported_def)
  obtain s1 where s1: "ss_GetStatus (v_State v) (job_Spec j) (w_state w) = (Ret (Inr st), s1)" "s_ok s1"
    "issued s1 = issued (w_state w)" "fits s1 = fits (w_state w)" "s_view s1 = ?V"
    using st.get_status [OF Cons.prems(2) j(1)] st by auto
  let ?w1 = "w\<lparr>w_state := s1\<rparr>"
  obtain s2 a2 sz cnt where s2: "job_outcome v j st ?w1 = (Ret (Inr (sz, cnt)), ?w1\<lparr>w_state := s2, w_artifacts := a2\<rparr>)"
    "s_ok s2" "issued s2 = issued s1" "fits s2 = fits s1" "s_view s2 = ?V" "a_ok a2"
    "pack_at a2 = pack_at (w_artifacts w)" "result_at a2 = ?R"
    "\<forall>ji i. scanned_repo ji j i st cnt sz = scan_of ?V ?R ji j i"
    "\<forall>i m. repo_ids s1 i = Some m \<longrightarrow> repo_ids s2 i = Some m"
    using job_outcome_effect [of ?w1 j st] Cons.prems(1) s1 j st by auto
  have "fits s2 (Suc (length js + n))" using Cons.prems(3) s1(4) s2(4) by simp
  from st.get_repo_id [OF s2(2) j(1) this]
  obtain i s3 where s3: "ss_GetRepoId (v_State v) (NWO (job_Spec j)) s2 = (Ret i, s3)" "s_ok s3"
    "issued s3 = issued s2" "fits s3 (length js + n)" "s_view s3 = s_view s2" "repo_ids s3 i = Some (NWO (job_Spec j))"
    by blast
  let ?w3 = "w\<lparr>w_artifacts := a2, w_state := s3\<rparr>"
  have "\<exists>ids s a. scan_jobs v ji js ?w3 = (Ret (Inr (map2 (scan_of ?V ?R ji) js ids)), ?w3\<lparr>w_state := s, w_artifacts := a\<rparr>)
    \<and> s_ok s \<and> issued s = issued s3 \<and> fits s n \<and> s_view s = ?V
    \<and> a_ok a \<and> pack_at a = pack_at a2 \<and> result_at a = ?R
    \<and> list_all2 (\<lambda>j i. repo_ids s i = Some (NWO (job_Spec j))) js ids
    \<and> (\<forall>i m. repo_ids s3 i = Some m \<longrightarrow> repo_ids s i = Some m)"
    using Cons.IH [of ?w3] Cons.prems(4) s3 s2 by simp
  then obtain ids s a where r: "scan_jobs v ji js ?w3 =
      (Ret (Inr (map2 (scan_of ?V ?R ji) js ids)), ?w3\<lparr>w_state := s, w_artifacts := a\<rparr>)"
    "s_ok s" "issued s = issued s3" "fits s n" "s_view s = ?V" "a_ok a" "pack_at a = pack_at a2" "result_at a = ?R"
    "list_all2 (\<lambda>j i. repo_ids s i = Some (NWO (job_Spec j))) js ids"
    "\<forall>i m. repo_ids s3 i = Some m \<longrightarrow> repo_ids s i = Some m"
    by blast
  have kept: "repo_ids s k = Some m" if "repo_ids (w_state w) k = Some m" for k m
    using keeps_idsD [OF st.ids_kept(8) s1(1) that] keeps_idsD [OF st.ids_kept(12) s3(1)] s2(10) r(10) by blast
  have "scan_jobs v ji (j # js) w = (Ret (Inr (map2 (scan_of ?V ?R ji) (j # js) (i # ids))), w\<lparr>w_state := s, w_artifacts := a\<rparr>)"
    using s1(1) s2(1,9) s3(1) r(1) by (simp add: on_state_Ret)
  then show ?case
    using r s2 s3 s1 kept by (intro exI [of _ "i # ids"] exI [of _ s] exI [of _ a]) simp
qed

text \<open>A status request: the session with all its jobs, their statuses and their results.\<close>

definition reportable :: "('q, 's, 'a, 'd) world \<Rightarrow> int \<Rightarrow> JobInfo \<Rightarrow> bool" where
  "reportable w sid ji \<longleftrightarrow> issued (w_state w) sid \<and> jv_specs (view w) sid \<noteq> {} \<and>
     fits (w_state w) (card (jv_specs (view w) sid)) \<and>
     (\<forall>x \<in> jv_specs (view w) sid. SessionID x = sid \<and> adm_spec x \<and> jv_info (view w) x = Some ji \<and>
        reported (view w) (result_at (w_artifacts w)) x)"

lemma submitStatus_effect:
  assumes w: "w_ok w" "w_resp w = response0" "reportable w (SessionID x) ji"
  shows "\<exists>js ids w'. submitStatusResponse v x ji w = (Ret (), w') \<and> reads_only w w'
    \<and> job_Spec ` set js = jv_specs (view w) (SessionID x) \<and> distinct (map job_Spec js)
    \<and> list_all2 (\<lambda>j i. repo_ids (w_state w') i = Some (NWO (job_Spec j))) js ids
    \<and> answered 200 ''application/json'' (json_text (StatusResponse_json (status_response (SessionID x) ji
         (ToExternalString (overall_spec (session_statuses (view w) (SessionID x))))
         (map2 (scan_of (view w) (result_at (w_artifacts w)) ji) js ids)))) (w_resp w')"
proof -
  let ?sid = "SessionID x" and ?V = "view w" and ?R = "result_at (w_artifacts w)"
  have ok: "s_ok (w_state w)" "a_ok (w_artifacts w)" using w(1) by (simp_all add: w_ok_def)
  have rep: "issued (w_state w) ?sid" "jv_specs ?V ?sid \<noteq> {}" "fits (w_state w) (card (jv_specs ?V ?sid))"
    "\<forall>y \<in> jv_specs ?V ?sid. SessionID y = ?sid \<and> adm_spec y \<and> jv_info ?V y = Some ji \<and> reported ?V ?R y"
    using w(3) unfolding reportable_def by blast+
  obtain js s1 where g: "ss_GetJobList (v_State v) ?sid (w_state w) = (Ret (Inr js), s1)" "s_ok s1"
    "issued s1 = issued (w_state w)" "fits s1 = fits (w_state w)" "s_view s1 = ?V" "job_Spec ` set js = jv_specs ?V ?sid"
    using st.get_jobs [OF ok(1) rep(1)] by blast
  have dist: "distinct (map job_Spec js)" using st.jobs_distinct [OF ok(1) rep(1) g(1)] .
  have len: "length js = card (jv_specs ?V ?sid)" using dist g(6) by (metis distinct_card length_map set_map)
  let ?w1 = "w\<lparr>w_state := s1\<rparr>"
  have "\<forall>j \<in> set js. adm_spec (job_Spec j) \<and> reported ?V ?R (job_Spec j)" using rep(4) g(6) by blast
  then have p: "\<forall>j \<in> set js. adm_spec (job_Spec j) \<and> reported (view ?w1) (result_at (w_artifacts ?w1)) (job_Spec j)"
    "a_ok (w_artifacts ?w1)" "s_ok (w_state ?w1)" "fits (w_state ?w1) (length js + 0)"
    using g ok rep(3) len by simp_all
  from scan_jobs_effect [OF p(2-4,1), of ji]
  obtain ids s2 a2 where sc: "scan_jobs v ji js ?w1 = (Ret (Inr (map2 (scan_of (s_view s1) ?R ji) js ids)),
      w\<lparr>w_state := s2, w_artifacts := a2\<rparr>)" "s_ok s2" "issued s2 = issued s1" "s_view s2 = s_view s1" "a_ok a2"
    "list_all2 (\<lambda>j i. repo_ids s2 i = Some (NWO (job_Spec j))) js ids" "result_at a2 = ?R"
    by auto
  obtain y where y: "y \<in> jv_specs ?V ?sid" using rep(2) by blast
  then have "session_statuses (s_view s2) ?sid \<noteq> {}"
    using rep(4) sc(4) g(5) by (fastforce simp: session_statuses_def reported_def)
  then obtain sm s3 where s3: "ss_GetSessionStatus (v_State v) ?sid s2 = (Ret (Inr sm), s3)" "s_ok s3"
    "issued s3 = issued s2" "s_view s3 = s_view s2" "Overall sm = overall_spec (session_statuses ?V ?sid)"
    using st.get_session [OF sc(2), of ?sid] sc(3,4) g(3,5) rep(1) by auto
  let ?body = "json_text (StatusResponse_json (status_response ?sid ji
         (ToExternalString (overall_spec (session_statuses ?V ?sid))) (map2 (scan_of ?V ?R ji) js ids)))"
  let ?w' = "w\<lparr>w_state := s3, w_artifacts := a2,
      w_resp := rw_Write ?body (rw_SetHeader ''Content-Type'' ''application/json'' response0)\<rparr>"
  have "list_all2 (\<lambda>j i. repo_ids s3 i = Some (NWO (job_Spec j))) js ids"
    by (rule list_all2_mono [OF sc(6)]) (rule keeps_idsD [OF st.ids_kept(9) s3(1)])
  moreover have "submitStatusResponse v x ji w = (Ret (), ?w')"
    using g(1,5) sc(1) s3(1,5) w(2) by (simp add: submitStatusResponse_def on_state_Ret respond_content Let_def)
  ultimately show ?thesis
    using g(3,5,6) dist sc(3-5,7) s3(2-4) w(1) answered_content [of "''application/json''" ?body]
    by (intro exI [of _ js] exI [of _ ids] exI [of _ ?w']) (simp add: w_ok_def reads_only_def)
qed

lemma status_effect:
  assumes w: "w_ok w" "w_resp w = response0" "reportable w sid ji" and sid: "ParseInt 32 idtext = Inr sid"
  shows "\<exists>js ids w'. MRVAStatusCommon v owner repo idtext w = (Ret (), w') \<and> reads_only w w'
    \<and> job_Spec ` set js = jv_specs (view w) sid \<and> distinct (map job_Spec js)
    \<and> list_all2 (\<lambda>j i. repo_ids (w_state w') i = Some (NWO (job_Spec j))) js ids
    \<and> answered 200 ''application/json'' (json_text (StatusResponse_json (status_response sid ji
         (ToExternalString (overall_spec (session_statuses (view w) sid)))
         (map2 (scan_of (view w) (result_at (w_artifacts w)) ji) js ids)))) (w_resp w')"
proof -
  have ok: "s_ok (w_state w)" "issued (w_state w) sid"
    using w(1,3) by (simp_all add: w_ok_def reportable_def)
  obtain js s1 where g: "ss_GetJobList (v_State v) sid (w_state w) = (Ret (Inr js), s1)" "s_ok s1"
    "issued s1 = issued (w_state w)" "fits s1 = fits (w_state w)" "s_view s1 = view w" "job_Spec ` set js = jv_specs (view w) sid"
    using st.get_jobs [OF ok] by blast
  have "js \<noteq> []" using g(6) w(3) by (auto simp: reportable_def)
  then obtain j js' where js: "js = j # js'" by (auto simp: neq_Nil_conv)
  then have x: "SessionID (job_Spec j) = sid" "adm_spec (job_Spec j)" "jv_info (view w) (job_Spec j) = Some ji"
    using w(3) g(6) unfolding reportable_def by auto
  obtain s2 where i: "ss_GetJobInfo (v_State v) (job_Spec j) s1 = (Ret (Inr ji), s2)" "s_ok s2"
    "issued s2 = issued s1" "fits s2 = fits s1" "s_view s2 = s_view s1"
    using st.get_info [OF g(2) x(2)] x(3) g(5) by auto
  let ?w2 = "w\<lparr>w_state := s2\<rparr>"
  have "w_ok ?w2" "w_resp ?w2 = response0" "reportable ?w2 (SessionID (job_Spec j)) ji" "view ?w2 = view w"
    using w i g x(1) by (simp_all add: w_ok_def reportable_def)
  moreover have "MRVAStatusCommon v owner repo idtext w = submitStatusResponse v (job_Spec j) ji ?w2"
    using sid g(1) js i(1) by (simp add: MRVAStatusCommon_def on_state_Ret)
  moreover have "reads_only w w'" if "reads_only ?w2 w'" for w' using that i(3,5) g(3,5) by (simp add: reads_only_def)
  ultimately show ?thesis using submitStatus_effect [of ?w2 "job_Spec j" ji] x(1) by fastforce
qed

text \<open>A session without jobs has an empty answer; a number that is no session number is refused.\<close>

lemma status_empty:
  assumes "w_ok w" and "issued (w_state w) sid" and "ParseInt 32 idtext = Inr sid" and "jv_specs (view w) sid = {}"
  shows "\<exists>s. MRVAStatusCommon v owner repo idtext w = submitEmptyStatusResponse sid (w\<lparr>w_state := s\<rparr>)
    \<and> w_ok (w\<lparr>w_state := s\<rparr>) \<and> s_view s = view w"
proof -
  have "s_ok (w_state w)" using assms(1) by (simp add: w_ok_def)
  from st.get_jobs [OF this assms(2)]
  obtain js s where g: "ss_GetJobList (v_State v) sid (w_state w) = (Ret (Inr js), s)" "s_ok s" "s_view s = view w"
    "job_Spec ` set js = {}" using assms(4) by auto
  then show ?thesis using assms(1,3) by (intro exI [of _ s]) (simp add: MRVAStatusCommon_def on_state_Ret w_ok_def)
qed

text \<open>The artifact of a finished job is announced with its size and served byte for byte.\<close>

lemma served_artifact:
  assumes "w_ok w" and "w_resp w = response0" and "wf_JobSpec js" and "adm_spec js"
    and "jv_result (view w) js = Some r" and "result_at (w_artifacts w) (res_ResultLocation r) = Some d"
    and "EncodeJobSpec js = Inr tok" and "mux_var rq ''encoded_job_spec'' = tok"
  shows "\<exists>w'. MRVADownloadServe v rq w = (Ret (), w') \<and> reads_only w w'
    \<and> answered 200 ''application/octet-stream'' d (w_resp w')"
proof -
  have ok: "s_ok (w_state w)" "a_ok (w_artifacts w)" using assms(1) by (simp_all add: w_ok_def)
  have dec: "DecodeJobSpec tok = Inr js"
    using assms(3,7) by (auto simp: EncodeJobSpec_def DecodeJobSpec_def b64_decode_encode JobSpec_unmarshal)
  obtain s where s: "ss_GetResult (v_State v) js (w_state w) = (Ret (Inr r), s)" "s_ok s" "s_view s = view w"
    "issued s = issued (w_state w)"
    using st.get_result [OF ok(1) assms(4)] assms(5) by auto
  obtain a where a: "GetResult (v_Artifacts v) (res_ResultLocation r) (w_artifacts w) = (Ret (Inr d), a)" "a_ok a"
    "result_at a = result_at (w_artifacts w)"
    using ar.get_result_Some [OF ok(2) assms(6)] by blast
  let ?w' = "w\<lparr>w_state := s, w_artifacts := a,
    w_resp := rw_Write d (rw_SetHeader ''Content-Type'' ''application/octet-stream'' response0)\<rparr>"
  have "MRVADownloadServe v rq w = (Ret (), ?w')"
    using dec s(1) a(1) assms(2,8)
    by (simp add: MRVADownloadServe_def on_state_Ret on_artifacts_Ret respond_content)
  then show ?thesis
    using s a assms(1) answered_content [of "''application/octet-stream''" d] by (simp add: w_ok_def reads_only_def)
qed

lemma announced_artifact:
  assumes "w_ok w" and "w_resp w = response0" and "adm_spec js" and "EncodeJobSpec js = Inr tok"
    and "jv_status (view w) js = Some StatusSucceeded" and "jv_result (view w) js = Some r"
    and "result_at (w_artifacts w) (res_ResultLocation r) = Some d"
  shows "\<exists>w'. sendArtifactDownloadResponse E v rid js w = (Ret (), w') \<and> reads_only w w'
    \<and> answered 200 ''application/json'' (json_text (DownloadResponse_json (download_of E rid js r d tok))) (w_resp w')"
proof -
  have ok: "s_ok (w_state w)" "a_ok (w_artifacts w)" using assms(1) by (simp_all add: w_ok_def)
  obtain s1 where s1: "ss_GetStatus (v_State v) js (w_state w) = (Ret (Inr StatusSucceeded), s1)" "s_ok s1" "s_view s1 = view w"
    "issued s1 = issued (w_state w)"
    using st.get_status [OF ok(1) assms(3)] assms(5) by auto
  obtain s where s: "ss_GetResult (v_State v) js s1 = (Ret (Inr r), s)" "s_ok s" "s_view s = s_view s1"
    "issued s = issued s1"
    using st.get_result [OF s1(2) assms(3)] assms(6) s1(3) by auto
  obtain a where a: "GetResult (v_Artifacts v) (res_ResultLocation r) (w_artifacts w) = (Ret (Inr d), a)" "a_ok a"
    "result_at a = result_at (w_artifacts w)"
    using ar.get_result_Some [OF ok(2) assms(7)] by blast
  let ?body = "json_text (DownloadResponse_json (download_of E rid js r d tok))"
  let ?w' = "w\<lparr>w_state := s, w_artifacts := a,
    w_resp := rw_Write ?body (rw_SetHeader ''Content-Type'' ''application/json'' response0)\<rparr>"
  have "ToExternalString StatusSucceeded = ''succeeded''" by (simp add: ToExternalString_def status_defs)
  then have "sendArtifactDownloadResponse E v rid js w = (Ret (), ?w')"
    using s1(1) s(1) a(1) assms(2,4)
    by (simp add: sendArtifactDownloadResponse_def on_state_Ret on_artifacts_Ret respond_content Let_def download_of_def)
  then show ?thesis
    using s s1(3,4) a assms(1) answered_content [of "''application/json''" ?body] by (simp add: w_ok_def reads_only_def)
qed

text \<open>By number: the repository identifier of a status response leads to the same announcement.\<close>

lemma announced_by_id:
  assumes "w_ok w" and "w_resp w = response0" and "adm_spec js" and "EncodeJobSpec js = Inr tok"
    and "jv_status (view w) js = Some StatusSucceeded" and "jv_result (view w) js = Some r"
    and "result_at (w_artifacts w) (res_ResultLocation r) = Some d"
    and "repo_ids (w_state w) rid = Some (NWO js)"
    and "ParseInt 32 (mux_var rq ''codeql_variant_analysis_id'') = Inr (SessionID js)"
    and "ParseInt 32 (mux_var rq ''repository_id'') = Inr rid"
  shows "\<exists>w'. MRVADownloadArtifactID E v rq w = (Ret (), w') \<and> reads_only w w'
    \<and> answered 200 ''application/json'' (json_text (DownloadResponse_json (download_of E rid js r d tok))) (w_resp w')"
proof -
  have ok: "s_ok (w_state w)" using assms(1) by (simp add: w_ok_def)
  have js: "\<lparr>SessionID = SessionID js, NWO = NWO js\<rparr> = js" by simp
  obtain s where s: "ss_GetJobSpecByRepoId (v_State v) (SessionID js) rid (w_state w) = (Ret (Inr js), s)" "s_ok s"
    "s_view s = view w" "issued s = issued (w_state w)"
    using st.spec_by_repo_id [OF ok assms(8), of "SessionID js"] unfolding js by blast
  let ?w1 = "w\<lparr>w_state := s\<rparr>"
  have "MRVADownloadArtifactID E v rq w = sendArtifactDownloadResponse E v rid js ?w1"
    using s(1) assms(9,10) by (simp add: MRVADownloadArtifactID_def MRVADownloadArtifactCommon_def on_state_Ret)
  moreover have "w_ok ?w1" "w_resp ?w1 = response0" "view ?w1 = view w" "w_artifacts ?w1 = w_artifacts w"
    using assms(1,2) s by (simp_all add: w_ok_def)
  moreover have "reads_only w w'" if "reads_only ?w1 w'" for w' using that s(3,4) by (simp add: reads_only_def)
  ultimately show ?thesis using announced_artifact [of ?w1 js tok r d E rid] assms(3-7) by fastforce
qed

end

lemma status_bad_id:
  "ParseInt 32 idtext = Inl e \<Longrightarrow> MRVAStatusCommon v owner repo idtext w =
     (Ret (), w\<lparr>w_resp := http_Error (err_text e) 400 (w_resp w)\<rparr>)"
  by (simp add: MRVAStatusCommon_def respond_error)

end
