(* ===== verification/Client.thy ===== *)
theory Client
  imports Commander
begin

text \<open>
  What a client of the commander sends (the VS Code extension or \<^verbatim>\<open>gh-mrva\<close>): the
  JSON of a \<^verbatim>\<open>SubmitMsg\<close> whose query pack is the Base64 text of a gzip archive.  Every
  such message is a well-formed submission for the server.
\<close>

definition SubmitMsg_json :: "SubmitMsg \<Rightarrow> json" where
  "SubmitMsg_json m = JObj
     [(''action_repo_ref'', JStr (msg_ActionRepoRef m)), (''language'', JStr (msg_Language m)),
      (''query_pack'', JStr (msg_QueryPack m)), (''repositories'', JArr (map JStr (msg_Repositories m)))]"

definition wf_SubmitMsg :: "SubmitMsg \<Rightarrow> bool" where
  "wf_SubmitMsg m \<longleftrightarrow> valid_utf8 (msg_ActionRepoRef m) \<and> valid_utf8 (msg_Language m) \<and> valid_utf8 (msg_QueryPack m)
     \<and> list_all valid_utf8 (msg_Repositories m)"

lemma valid_utf8_submit_names [simp]:
  "valid_utf8 ''action_repo_ref''" "valid_utf8 ''language''" "valid_utf8 ''query_pack''"
  by (rule valid_utf8_ascii; simp)+

lemma SubmitMsg_dec_json: "SubmitMsg_dec (SubmitMsg_json m) v = Inr m"
  by (simp add: SubmitMsg_dec_def SubmitMsg_json_def json_dec_defs dec_elems_strings)

lemma tryParse_text: "wf_SubmitMsg m \<Longrightarrow> tryParseSubmitMsg (json_text (SubmitMsg_json m)) = Inr m"
proof -
  assume m: "wf_SubmitMsg m"
  have "elems_depth (map JStr (msg_Repositories m)) \<le> 9996" by (rule elems_depth_map) simp
  then have d: "json_depth (SubmitMsg_json m) \<le> 10000" by (simp add: SubmitMsg_json_def del: elems_depth.simps)
  have "wf_json (SubmitMsg_json m)" using m by (simp add: SubmitMsg_json_def wf_SubmitMsg_def list_all_iff)
  from json_parse_text [OF this d] have "\<exists>r. json_decode_first (json_text (SubmitMsg_json m)) = Some (SubmitMsg_json m, r)"
    by (auto simp: json_parse_def split: option.splits if_splits)
  then show ?thesis by (auto simp: tryParseSubmitMsg_def SubmitMsg_dec_json)
qed

definition client_request :: "string \<Rightarrow> string list \<Rightarrow> bytes \<Rightarrow> request" where
  "client_request lang entries tgz =
     \<lparr>rq_path = [], rq_vars = [],
      rq_body = Some (Inr (json_text (SubmitMsg_json
        \<lparr>msg_ActionRepoRef = ''main'', msg_Language = lang, msg_QueryPack = b64_encode StdEncoding tgz,
         msg_Repositories = entries\<rparr>)))\<rparr>"

lemma b64_char_ascii: "(of_char (b64_char alph n) :: nat) < 128"
  by (cases alph) (auto simp: b64_char_def)

lemma b64_encode_utf8: "valid_utf8 (b64_encode alph d)"
proof (rule valid_utf8_ascii)
  show "\<forall>c \<in> set (b64_encode alph d). (of_char c :: nat) < 128"
    by (induction alph d rule: b64_encode.induct) (simp_all add: Let_def b64_char_ascii)
qed

lemma client_request_msg:
  assumes "valid_utf8 lang" and "list_all valid_utf8 entries"
  obtains buf where "rq_body (client_request lang entries tgz) = Some (Inr buf)"
    and "tryParseSubmitMsg buf = Inr \<lparr>msg_ActionRepoRef = ''main'', msg_Language = lang, msg_QueryPack = b64_encode StdEncoding tgz,
      msg_Repositories = entries\<rparr>"
proof -
  have "valid_utf8 ''main''" by (rule valid_utf8_ascii) simp
  then have "wf_SubmitMsg \<lparr>msg_ActionRepoRef = ''main'', msg_Language = lang, msg_QueryPack = b64_encode StdEncoding tgz,
      msg_Repositories = entries\<rparr>"
    using assms b64_encode_utf8 by (simp add: wf_SubmitMsg_def)
  from tryParse_text [OF this] show thesis by (intro that) (auto simp: client_request_def)
qed

lemma client_request_good:
  assumes "valid_utf8 lang" and "list_all valid_utf8 entries" and "list_all one_slash entries"
    and "take 2 tgz = [CHR 0x1F, CHR 0x8B]"
  shows "good_submission (client_request lang entries tgz) lang entries tgz"
proof -
  obtain buf where "rq_body (client_request lang entries tgz) = Some (Inr buf)"
    "tryParseSubmitMsg buf = Inr \<lparr>msg_ActionRepoRef = ''main'', msg_Language = lang, msg_QueryPack = b64_encode StdEncoding tgz,
      msg_Repositories = entries\<rparr>"
    using client_request_msg [OF assms(1,2)] .
  then show ?thesis
    using assms(3,4) by (simp add: good_submission_def IsBase64Gzip_encode b64_decode_encode)
qed

end
