(* ===== verification/Json_Order.thy ===== *)
theory Json_Order
  imports Job_Codec "HOL-Library.Multiset"
begin

text \<open>
  PostgreSQL's type \<^verbatim>\<open>jsonb\<close> keeps a JSON value but not the order of the members of
  its objects.  This theory shows that the struct decoders do not depend on that order: each
  stored struct is read back from any reordering of the JSON it was written as.
\<close>

inductive jperm :: "json \<Rightarrow> json \<Rightarrow> bool" where
  jp_same: "jperm j j"
| jp_arr: "list_all2 jperm xs ys \<Longrightarrow> jperm (JArr xs) (JArr ys)"
| jp_obj: "list_all2 (\<lambda>p q. fst p = fst q \<and> jperm (snd p) (snd q)) ms ns \<Longrightarrow> mset ns = mset ns' \<Longrightarrow>
     jperm (JObj ms) (JObj ns')"

inductive_cases jperm_NumE: "jperm (JNum n) j"
inductive_cases jperm_StrE: "jperm (JStr s) j"
inductive_cases jperm_BoolE: "jperm (JBool b) j"
inductive_cases jperm_ArrE: "jperm (JArr xs) j"
inductive_cases jperm_ObjE: "jperm (JObj ms) j"

lemma jperm_leaf [simp]:
  "jperm (JStr s) j \<longleftrightarrow> j = JStr s" "jperm (JBool b) j \<longleftrightarrow> j = JBool b" "jperm (JNum n) j \<longleftrightarrow> j = JNum n"
  by (auto elim: jperm_StrE jperm_BoolE jperm_NumE intro: jp_same)

lemma jperm_arr [simp]: "jperm (JArr xs) j \<longleftrightarrow> (\<exists>ys. j = JArr ys \<and> list_all2 jperm xs ys)"
  by (auto elim!: jperm_ArrE intro: jp_same jp_arr list_all2_refl)

lemma jperm_obj:
  "jperm (JObj ms) j \<Longrightarrow>
     \<exists>ns ns'. j = JObj ns' \<and> mset ns = mset ns' \<and> list_all2 (\<lambda>p q. fst p = fst q \<and> jperm (snd p) (snd q)) ms ns"
  by (erule jperm_ObjE) (auto intro: jp_same list_all2_refl)

lemma decode_members_fold:
  assumes "\<And>p. p \<in> set ns \<Longrightarrow> \<exists>f. find_field fs (fst p) = Some f \<and> (\<forall>v. f (snd p) v = Inr (upd (fst p) v))"
  shows "decode_members b fs ns v = Inr (fold (\<lambda>p. upd (fst p)) ns v)"
  using assms
proof (induction ns arbitrary: v)
  case Nil
  then show ?case by simp
next
  case (Cons p ns)
  obtain k j where p: "p = (k, j)" by (cases p)
  with Cons.prems [of p] obtain f where f: "find_field fs k = Some f" "\<forall>v. f j v = Inr (upd k v)" by auto
  have "decode_members b fs ns (upd k v) = Inr (fold (\<lambda>p. upd (fst p)) ns (upd k v))"
    using Cons by simp
  with p f show ?case by simp
qed

text \<open>
  The rule for structs: every member decodes to an update of its own field, and the updates of
  different fields commute.
\<close>

lemma dec_struct_perm:
  assumes perm: "jperm (JObj ms) j'"
    and field: "\<And>k a a'. (k, a) \<in> set ms \<Longrightarrow> jperm a a' \<Longrightarrow>
      \<exists>f. find_field fs k = Some f \<and> (\<forall>v. f a' v = Inr (upd k v))"
    and comm: "\<And>k l. k \<in> fst ` set ms \<Longrightarrow> l \<in> fst ` set ms \<Longrightarrow> upd k \<circ> upd l = upd l \<circ> upd k"
  shows "dec_struct b fs j' v = Inr (fold (\<lambda>p. upd (fst p)) ms v)"
proof -
  obtain ns ns' where j': "j' = JObj ns'" "mset ns = mset ns'"
    and rel: "list_all2 (\<lambda>p q. fst p = fst q \<and> jperm (snd p) (snd q)) ms ns"
    using jperm_obj [OF perm] by blast
  have keys: "map fst ns = map fst ms"
    using rel by (induction rule: list_all2_induct) auto
  have each: "\<exists>f. find_field fs (fst q) = Some f \<and> (\<forall>v. f (snd q) v = Inr (upd (fst q) v))"
    if "q \<in> set ns'" for q
  proof -
    have "q \<in> set ns" using that j'(2) by (metis set_mset_mset)
    then obtain i where i: "i < length ns" "ns ! i = q" by (metis in_set_conv_nth)
    with rel have "fst (ms ! i) = fst q" "jperm (snd (ms ! i)) (snd q)" "i < length ms"
      by (auto simp: list_all2_conv_all_nth)
    then show ?thesis using field [of "fst q" "snd (ms ! i)" "snd q"] by (metis nth_mem prod.collapse)
  qed
  have "fold (\<lambda>p. upd (fst p)) ns = fold (\<lambda>p. upd (fst p)) ns'"
  proof (rule fold_multiset_equiv)
    fix p q
    assume "p \<in> set ns" "q \<in> set ns"
    then have "fst p \<in> fst ` set ms" "fst q \<in> fst ` set ms"
      using keys by (metis image_eqI list.set_map)+
    then show "upd (fst p) \<circ> upd (fst q) = upd (fst q) \<circ> upd (fst p)" by (rule comm)
  qed (simp add: j'(2))
  moreover have "fold (\<lambda>p. upd (fst p)) ns = fold (\<lambda>p. upd (fst p)) ms"
  proof -
    have "fold upd (map fst xs) = fold (\<lambda>p. upd (fst p)) xs" for xs :: "(string \<times> json) list"
      by (simp add: fold_map comp_def)
    from this [of ns] this [of ms] show ?thesis by (simp add: keys)
  qed
  moreover have "dec_struct b fs j' v = Inr (fold (\<lambda>p. upd (fst p)) ns' v)"
    using decode_members_fold [OF each] j'(1) by (simp add: dec_struct_def)
  ultimately show ?thesis by simp
qed

section \<open>The stored structs\<close>

text \<open>
  The rule in the form in which the structs below use it: each member with its JSON and the
  update that decoding it performs.
\<close>

lemma dec_struct_fields:
  fixes us :: "(string \<times> json \<times> ('a \<Rightarrow> 'a)) list"
  assumes perm: "jperm (JObj (map (\<lambda>(k, a, u). (k, a)) us)) j'"
    and keys: "distinct (map fst us)"
    and field: "\<forall>(k, a, u) \<in> set us. \<forall>a'. jperm a a' \<longrightarrow>
      (\<exists>f. map_of fs k = Some f \<and> (\<forall>v. f a' v = Inr (u v)))"
    and comm: "\<forall>(k, a, u) \<in> set us. \<forall>(l, b, w) \<in> set us. \<forall>v. u (w v) = w (u v)"
  shows "dec_struct b fs j' v = Inr (fold (\<lambda>(k, a, u). u) us v)"
proof -
  define upd where "upd k = the (map_of (map (\<lambda>(k, a, u). (k, u)) us) k)" for k
  have dist: "distinct (map fst (map (\<lambda>(k, a, u). (k, u)) us))"
    using keys by (simp add: case_prod_beta' comp_def)
  have upd: "upd k = u" if "(k, a, u) \<in> set us" for k a u
    using map_of_is_SomeI [OF dist, of k u] that by (force simp: upd_def)
  have fields: "\<exists>f. find_field fs k = Some f \<and> (\<forall>v. f a' v = Inr (upd k v))"
    if "(k, a) \<in> set (map (\<lambda>(k, a, u). (k, a)) us)" "jperm a a'" for k a a'
  proof -
    from that(1) have "\<exists>u. (k, a, u) \<in> set us" by auto
    then obtain u where u: "(k, a, u) \<in> set us" by blast
    with field that(2) have "\<exists>f. map_of fs k = Some f \<and> (\<forall>v. f a' v = Inr (u v))" by blast
    with upd [OF u] show ?thesis by (auto simp: find_field_def)
  qed
  have comms: "upd k \<circ> upd l = upd l \<circ> upd k"
    if kl: "k \<in> fst ` set (map (\<lambda>(k, a, u). (k, a)) us)" "l \<in> fst ` set (map (\<lambda>(k, a, u). (k, a)) us)" for k l
  proof -
    obtain a u b w where m: "(k, a, u) \<in> set us" "(l, b, w) \<in> set us" using kl by fastforce
    with comm have "\<forall>v. u (w v) = w (u v)" by blast
    with upd [OF m(1)] upd [OF m(2)] show ?thesis by (simp add: fun_eq_iff)
  qed
  have "fold (\<lambda>p. upd (fst p)) (map (\<lambda>(k, a, u). (k, a)) us) v = fold (\<lambda>(k, a, u). u) us v"
    unfolding fold_map by (rule fold_cong) (auto simp: upd)
  with dec_struct_perm [OF perm fields comms, where b = b and v = v] show ?thesis by simp
qed

lemma JobSpec_dec_perm:
  assumes "wf_JobSpec js" and "jperm (JobSpec_json js) j'"
  shows "JobSpec_dec j' v = Inr js"
  unfolding JobSpec_dec_def
  using assms
  by (subst dec_struct_fields [where us = "[(''SessionID'', JInt (SessionID js), SessionID_update (\<lambda>_. SessionID js)),
      (''Owner'', JStr (Owner (NWO js)), NWO_update (Owner_update (\<lambda>_. Owner (NWO js)))),
      (''Repo'', JStr (Repo (NWO js)), NWO_update (Repo_update (\<lambda>_. Repo (NWO js))))]"])
    (simp_all add: JobSpec_json_def JobSpec_members_def JInt_def json_dec_defs wf_JobSpec_def)

lemma ArtifactLocation_dec_perm:
  assumes "jperm (ArtifactLocation_json l) j'"
  shows "ArtifactLocation_dec j' v = Inr l"
  unfolding ArtifactLocation_dec_def
  using assms
  by (subst dec_struct_fields [where us = "[(''Key'', JStr (loc_Key l), loc_Key_update (\<lambda>_. loc_Key l)),
      (''Bucket'', JStr (loc_Bucket l), loc_Bucket_update (\<lambda>_. loc_Bucket l))]"])
    (simp_all add: ArtifactLocation_json_def json_dec_defs)

lemma AnalyzeJob_dec_perm:
  assumes "wf_AnalyzeJob j" and "jperm (AnalyzeJob_json j) j'"
  shows "AnalyzeJob_dec j' v = Inr j"
  unfolding AnalyzeJob_dec_def
  using assms
  by (subst dec_struct_fields [where us = "[(''Spec'', JobSpec_json (job_Spec j), job_Spec_update (\<lambda>_. job_Spec j)),
      (''QueryPackLocation'', ArtifactLocation_json (job_QueryPackLocation j),
         job_QueryPackLocation_update (\<lambda>_. job_QueryPackLocation j)),
      (''QueryLanguage'', JStr (job_QueryLanguage j), job_QueryLanguage_update (\<lambda>_. job_QueryLanguage j))]"])
    (simp_all add: AnalyzeJob_json_def json_dec_defs wf_AnalyzeJob_def JobSpec_dec_perm [of "job_Spec j"]
      ArtifactLocation_dec_perm [of "job_QueryPackLocation j"])

lemma AnalyzeResult_dec_perm:
  assumes "wf_AnalyzeResult r" and "jperm (AnalyzeResult_json r) j'"
  shows "AnalyzeResult_dec j' v = Inr r"
  unfolding AnalyzeResult_dec_def
  using assms
  by (subst dec_struct_fields [where us = "[(''Spec'', JobSpec_json (res_Spec r), res_Spec_update (\<lambda>_. res_Spec r)),
      (''Status'', JInt (res_Status r), res_Status_update (\<lambda>_. res_Status r)),
      (''ResultCount'', JInt (res_ResultCount r), res_ResultCount_update (\<lambda>_. res_ResultCount r)),
      (''ResultLocation'', ArtifactLocation_json (res_ResultLocation r),
         res_ResultLocation_update (\<lambda>_. res_ResultLocation r)),
      (''SourceLocationPrefix'', JStr (res_SourceLocationPrefix r),
         res_SourceLocationPrefix_update (\<lambda>_. res_SourceLocationPrefix r)),
      (''DatabaseSHA'', JStr (res_DatabaseSHA r), res_DatabaseSHA_update (\<lambda>_. res_DatabaseSHA r))]"])
    (simp_all add: AnalyzeResult_json_def JInt_def json_dec_defs wf_AnalyzeResult_def JobSpec_dec_perm [of "res_Spec r"]
      ArtifactLocation_dec_perm [of "res_ResultLocation r"])

lemma Repository_dec_perm:
  assumes "wf_Repository r" and "jperm (Repository_json r) j'"
  shows "Repository_dec j' v = Inr r"
  unfolding Repository_dec_def
  using assms
  by (subst dec_struct_fields [where us = "[(''id'', JInt (repo_ID r), repo_ID_update (\<lambda>_. repo_ID r)),
      (''name'', JStr (repo_Name r), repo_Name_update (\<lambda>_. repo_Name r)),
      (''full_name'', JStr (repo_FullName r), repo_FullName_update (\<lambda>_. repo_FullName r)),
      (''private'', JBool (repo_Private r), repo_Private_update (\<lambda>_. repo_Private r)),
      (''stargazers_count'', JInt (repo_StargazersCount r),
         repo_StargazersCount_update (\<lambda>_. repo_StargazersCount r)),
      (''updated_at'', JStr (repo_UpdatedAt r), repo_UpdatedAt_update (\<lambda>_. repo_UpdatedAt r))]"])
    (simp_all add: Repository_json_def JInt_def json_dec_defs wf_Repository_def)

lemma dec_elems_perm:
  assumes "\<And>a j'. a \<in> set as \<Longrightarrow> jperm (enc a) j' \<Longrightarrow> d j' z = Inr a"
    and "list_all2 jperm (map enc as) ys"
  shows "dec_elems d z ys = Inr as"
  using assms
proof (induction as arbitrary: ys)
  case Nil
  then show ?case by simp
next
  case (Cons a as)
  then obtain y zs where "ys = y # zs" "jperm (enc a) y" "list_all2 jperm (map enc as) zs"
    by (auto simp: list_all2_Cons1)
  moreover from this have "d y z = Inr a" "dec_elems d z zs = Inr as" using Cons by simp_all
  ultimately show ?case by simp
qed

lemma dec_elems_Repository_perm:
  "list_all wf_Repository rs \<Longrightarrow> list_all2 jperm (map Repository_json rs) ys \<Longrightarrow>
     dec_elems Repository_dec Repository0 ys = Inr rs"
  by (rule dec_elems_perm) (auto simp: list_all_iff Repository_dec_perm)

lemma dec_elems_strings_perm:
  "list_all2 jperm (map JStr ss) ys \<Longrightarrow> dec_elems (dec_str (\<lambda>s v. s)) [] ys = Inr ss"
  by (rule dec_elems_perm) (auto simp: dec_str_def)

lemma AccessMismatchRepos_dec_perm:
  assumes "int64_ok (amr_RepositoryCount r)" "list_all wf_Repository (amr_Repositories r)"
    and "jperm (AccessMismatchRepos_json r) j'"
  shows "AccessMismatchRepos_dec j' v = Inr r"
  unfolding AccessMismatchRepos_dec_def
  using assms
  by (subst dec_struct_fields [where us = "[(''repository_count'', JInt (amr_RepositoryCount r),
         amr_RepositoryCount_update (\<lambda>_. amr_RepositoryCount r)),
      (''repositories'', JArr (map Repository_json (amr_Repositories r)),
         amr_Repositories_update (\<lambda>_. amr_Repositories r))]"])
    (auto simp: AccessMismatchRepos_json_def JInt_def json_dec_defs dec_elems_Repository_perm)

lemma NotFoundRepos_dec_perm:
  assumes "int64_ok (nfr_RepositoryCount r)" and "jperm (NotFoundRepos_json r) j'"
  shows "NotFoundRepos_dec j' v = Inr r"
  unfolding NotFoundRepos_dec_def
  using assms
  by (subst dec_struct_fields [where us = "[(''repository_count'', JInt (nfr_RepositoryCount r),
         nfr_RepositoryCount_update (\<lambda>_. nfr_RepositoryCount r)),
      (''repository_full_names'', JArr (map JStr (nfr_RepositoryFullNames r)),
         nfr_RepositoryFullNames_update (\<lambda>_. nfr_RepositoryFullNames r))]"])
    (auto simp: NotFoundRepos_json_def JInt_def json_dec_defs dec_elems_strings_perm)

lemma NoCodeqlDBRepos_dec_perm:
  assumes "int64_ok (ndr_RepositoryCount r)" "list_all wf_Repository (ndr_Repositories r)"
    and "jperm (NoCodeqlDBRepos_json r) j'"
  shows "NoCodeqlDBRepos_dec j' v = Inr r"
  unfolding NoCodeqlDBRepos_dec_def
  using assms
  by (subst dec_struct_fields [where us = "[(''repository_count'', JInt (ndr_RepositoryCount r),
         ndr_RepositoryCount_update (\<lambda>_. ndr_RepositoryCount r)),
      (''repositories'', JArr (map Repository_json (ndr_Repositories r)),
         ndr_Repositories_update (\<lambda>_. ndr_Repositories r))]"])
    (auto simp: NoCodeqlDBRepos_json_def JInt_def json_dec_defs dec_elems_Repository_perm)

lemma OverLimitRepos_dec_perm:
  assumes "int64_ok (olr_RepositoryCount r)" "list_all wf_Repository (olr_Repositories r)"
    and "jperm (OverLimitRepos_json r) j'"
  shows "OverLimitRepos_dec j' v = Inr r"
  unfolding OverLimitRepos_dec_def
  using assms
  by (subst dec_struct_fields [where us = "[(''repository_count'', JInt (olr_RepositoryCount r),
         olr_RepositoryCount_update (\<lambda>_. olr_RepositoryCount r)),
      (''repositories'', JArr (map Repository_json (olr_Repositories r)),
         olr_Repositories_update (\<lambda>_. olr_Repositories r))]"])
    (auto simp: OverLimitRepos_json_def JInt_def json_dec_defs dec_elems_Repository_perm)

lemma SkippedRepositories_dec_perm:
  assumes "wf_SkippedRepositories s" and "jperm (SkippedRepositories_json s) j'"
  shows "SkippedRepositories_dec j' v = Inr s"
  unfolding SkippedRepositories_dec_def
  using assms
  by (subst dec_struct_fields [where us = "[(''access_mismatch_repos'',
         AccessMismatchRepos_json (skip_AccessMismatchRepos s),
         skip_AccessMismatchRepos_update (\<lambda>_. skip_AccessMismatchRepos s)),
      (''not_found_repos'', NotFoundRepos_json (skip_NotFoundRepos s),
         skip_NotFoundRepos_update (\<lambda>_. skip_NotFoundRepos s)),
      (''no_codeql_db_repos'', NoCodeqlDBRepos_json (skip_NoCodeqlDBRepos s),
         skip_NoCodeqlDBRepos_update (\<lambda>_. skip_NoCodeqlDBRepos s)),
      (''over_limit_repos'', OverLimitRepos_json (skip_OverLimitRepos s),
         skip_OverLimitRepos_update (\<lambda>_. skip_OverLimitRepos s))]"])
    (simp_all add: SkippedRepositories_json_def json_dec_defs wf_SkippedRepositories_def
      AccessMismatchRepos_dec_perm [of "skip_AccessMismatchRepos s"]
      NotFoundRepos_dec_perm [of "skip_NotFoundRepos s"]
      NoCodeqlDBRepos_dec_perm [of "skip_NoCodeqlDBRepos s"]
      OverLimitRepos_dec_perm [of "skip_OverLimitRepos s"])

lemma JobInfo_dec_perm:
  assumes "wf_JobInfo i" and "jperm (JobInfo_json i) j'"
  shows "JobInfo_dec j' v = Inr i"
  unfolding JobInfo_dec_def
  using assms
  by (subst dec_struct_fields [where us = "[(''QueryLanguage'', JStr (ji_QueryLanguage i),
         ji_QueryLanguage_update (\<lambda>_. ji_QueryLanguage i)),
      (''CreatedAt'', JStr (ji_CreatedAt i), ji_CreatedAt_update (\<lambda>_. ji_CreatedAt i)),
      (''UpdatedAt'', JStr (ji_UpdatedAt i), ji_UpdatedAt_update (\<lambda>_. ji_UpdatedAt i)),
      (''SkippedRepositories'', SkippedRepositories_json (ji_SkippedRepositories i),
         ji_SkippedRepositories_update (\<lambda>_. ji_SkippedRepositories i))]"])
    (simp_all add: JobInfo_json_def json_dec_defs wf_JobInfo_def
      SkippedRepositories_dec_perm [of "ji_SkippedRepositories i"])

end
