(* ===== verification/PG_State.thy ===== *)
theory PG_State
  imports Server_State Json_Order
begin

text \<open>
  The PostgreSQL implementation of the server state (\<^verbatim>\<open>pkg/state/state_postgres.go\<close>).
  The tables are part of the state, and each SQL statement of the source is the function on
  the tables that it denotes.  What the statements meet outside the program is the
  environment \<open>pg_env\<close>: a connection may fail at any statement, before or after the
  statement took effect, and in the middle of a result set; a \<^verbatim>\<open>jsonb\<close> column gives
  back some text for the JSON it was given; and the collation of the database decides the
  order of names.
\<close>

section \<open>The database\<close>

record pg_env =
  pg_fault :: "nat \<Rightarrow> (string \<times> bool) option"
  pg_cut :: "nat \<Rightarrow> nat option"
  pg_jsonb :: "string \<Rightarrow> string"
  pg_order :: "JobSpec list \<Rightarrow> JobSpec list"

text \<open>
  \<open>pg_fault n\<close> is the error of the \<open>n\<close>-th statement, with whether the statement was
  executed all the same; \<open>pg_cut n\<close> the number of rows that arrive before the connection
  is lost, when it is lost.  The tables keyed by \<^verbatim>\<open>(session_id, owner, repo)\<close> are
  maps from job specifications; \<open>pg_tables\<close> are the relations that exist.
\<close>

record PGState =
  pg_tables :: "string list"
  schema_lock :: bool
  job_repo_map :: "(int \<times> NameWithOwner) list"
  job_repo_seq :: int
  session_id_seq :: int
  analyze_results :: "(JobSpec, string) gomap"
  analyze_jobs :: "(JobSpec, string) gomap"
  job_info :: "(JobSpec, string) gomap"
  job_status :: "(JobSpec, Status) gomap"
  pg_clock :: nat

definition pg_exec :: "pg_env \<Rightarrow> string \<Rightarrow> (PGState \<Rightarrow> string + 'a \<times> PGState) \<Rightarrow> (PGState, 'a result) prog" where
  "pg_exec E tbl stmt s =
     (let n = pg_clock s; s' = s\<lparr>pg_clock := Suc n\<rparr> in
      if tbl \<notin> set (pg_tables s)
      then (Ret (Inl (ExtError (''relation '' @ tbl @ '' does not exist''))), s')
      else case stmt s' of
        Inl e \<Rightarrow> (Ret (Inl (ExtError e)), s')
      | Inr (a, t) \<Rightarrow>
          (case pg_fault E n of
             None \<Rightarrow> (Ret (Inr a), t)
           | Some (e, applied) \<Rightarrow> (Ret (Inl (ExtError e)), if applied then t else s')))"

text \<open>
  The values a column can hold: \<^verbatim>\<open>INTEGER\<close> has 32 bits, \<^verbatim>\<open>TEXT\<close> is valid UTF-8
  without NUL, and \<^verbatim>\<open>JSONB\<close> is JSON text whose strings have no NUL.
\<close>

definition int4_ok :: "int \<Rightarrow> bool" where
  "int4_ok i \<longleftrightarrow> - (2 ^ 31) \<le> i \<and> i \<le> max_int32"

definition text_ok :: "string \<Rightarrow> bool" where
  "text_ok t \<longleftrightarrow> valid_utf8 t \<and> CHR 0x00 \<notin> set t"

definition key_ok :: "JobSpec \<Rightarrow> bool" where
  "key_ok js \<longleftrightarrow> int4_ok (SessionID js) \<and> text_ok (Owner (NWO js)) \<and> text_ok (Repo (NWO js))"

fun no_nul :: "json \<Rightarrow> bool" where
  "no_nul (JStr t) = (CHR 0x00 \<notin> set t)"
| "no_nul (JArr js) = list_all no_nul js"
| "no_nul (JObj ms) = list_all (\<lambda>(k, j). CHR 0x00 \<notin> set k \<and> no_nul j) ms"
| "no_nul _ = True"

definition jsonb_ok :: "string \<Rightarrow> bool" where
  "jsonb_ok t \<longleftrightarrow> (case json_parse t of None \<Rightarrow> False | Some j \<Rightarrow> no_nul j)"

abbreviation bad_value :: string where "bad_value \<equiv> ''invalid input value''"

abbreviation no_rows :: string where "no_rows \<equiv> ''no rows in result set''"

section \<open>Setting up the schemas\<close>

abbreviation os_exit :: string where "os_exit \<equiv> ''exit status 1''"

definition schemas :: "string list" where
  "schemas = [''job_repo_map'', ''session_id_seq'', ''analyze_results'', ''analyze_jobs'',
              ''job_info'', ''job_status'']"

text \<open>
  \<^verbatim>\<open>CREATE ... IF NOT EXISTS\<close>.  The catalogue, under the name \<^verbatim>\<open>pg\<close>, always
  exists.
\<close>

definition create_schema :: "string \<Rightarrow> PGState \<Rightarrow> string + unit \<times> PGState" where
  "create_schema name s =
     Inr ((), if name \<in> set (pg_tables s) then s else s\<lparr>pg_tables := pg_tables s @ [name]\<rparr>)"

text \<open>
  The advisory lock is held by the connection: a process that exits gives it up.  A process
  that finds it taken waits.
\<close>

definition create_all :: "pg_env \<Rightarrow> (PGState, unit) prog" where
  "create_all E = forP schemas (\<lambda>name.
     bindP (pg_exec E ''pg'' (create_schema name)) (\<lambda>r.
       case r of
         Inl err \<Rightarrow> seqP (\<lambda>s. (Ret (), s\<lparr>schema_lock := False\<rparr>)) (panicP os_exit)
       | Inr _ \<Rightarrow> retP ()))"

definition SetupSchemas :: "pg_env \<Rightarrow> (PGState, unit) prog" where
  "SetupSchemas E =
     bindP (pg_exec E ''pg'' (\<lambda>s. Inr ((), s))) (\<lambda>acquired.
       case acquired of
         Inl err \<Rightarrow> panicP os_exit
       | Inr _ \<Rightarrow>
           (\<lambda>s. if schema_lock s then (Hang, s)
              else bindP (pg_exec E ''pg'' (\<lambda>s. Inr ((), s\<lparr>schema_lock := True\<rparr>))) (\<lambda>locked.
                case locked of
                  Inl err \<Rightarrow> seqP (\<lambda>s. (Ret (), s\<lparr>schema_lock := False\<rparr>)) (panicP os_exit)
                | Inr _ \<Rightarrow>
                    seqP (create_all E)
                      (seqP (pg_exec E ''pg'' (\<lambda>s. Inr ((), s\<lparr>schema_lock := False\<rparr>))) (retP ()))) s))"

section \<open>The methods\<close>

definition pg_panic :: "string \<Rightarrow> error \<Rightarrow> (PGState, 'a) prog" where
  "pg_panic name err = panicP (name @ '': '' @ (case err of ExtError e \<Rightarrow> e | _ \<Rightarrow> []))"

definition pg_NextID :: "pg_env \<Rightarrow> (PGState, int) prog" where
  "pg_NextID E =
     bindP (pg_exec E ''session_id_seq'' (\<lambda>s.
         if session_id_seq s \<ge> max_int64 then Inl ''nextval: reached maximum value of sequence''
         else Inr (session_id_seq s + 1, s\<lparr>session_id_seq := session_id_seq s + 1\<rparr>)))
       (\<lambda>r. case r of Inl err \<Rightarrow> pg_panic ''NextID()'' err | Inr i \<Rightarrow> retP i)"

definition pg_SetResult :: "pg_env \<Rightarrow> JobSpec \<Rightarrow> AnalyzeResult \<Rightarrow> (PGState, unit) prog" where
  "pg_SetResult E js ar =
     (let ar = ar\<lparr>res_Spec := js\<rparr>; jsonBytes = json_text (AnalyzeResult_json ar) in
      bindP (pg_exec E ''analyze_results'' (\<lambda>s.
          if \<not> key_ok js \<or> \<not> jsonb_ok jsonBytes then Inl bad_value
          else Inr ((), s\<lparr>analyze_results := gm_put js (pg_jsonb E jsonBytes) (analyze_results s)\<rparr>)))
        (\<lambda>r. case r of Inl err \<Rightarrow> pg_panic ''SetResult()'' err | Inr _ \<Rightarrow> retP ()))"

definition pg_select :: "(PGState \<Rightarrow> (JobSpec, 'v) gomap) \<Rightarrow> JobSpec \<Rightarrow> PGState \<Rightarrow> string + 'v \<times> PGState" where
  "pg_select tbl js s =
     (if \<not> key_ok js then Inl bad_value
      else case gm_get (tbl s) js of None \<Rightarrow> Inl no_rows | Some v \<Rightarrow> Inr (v, s))"

definition pg_GetResult :: "pg_env \<Rightarrow> JobSpec \<Rightarrow> (PGState, AnalyzeResult result) prog" where
  "pg_GetResult E js =
     bindP (pg_exec E ''analyze_results'' (pg_select analyze_results js)) (\<lambda>r.
       case r of
         Inl err \<Rightarrow> retP (Inl err)
       | Inr jsonBytes \<Rightarrow>
           (case json_unmarshal AnalyzeResult_dec AnalyzeResult0 jsonBytes of
              Inl err \<Rightarrow> retP (Inl (ErrWrap ''unmarshal AnalyzeResult: '' err))
            | Inr ar \<Rightarrow> retP (Inr ar)))"

definition pg_SetJobInfo :: "pg_env \<Rightarrow> JobSpec \<Rightarrow> JobInfo \<Rightarrow> (PGState, unit) prog" where
  "pg_SetJobInfo E js ji =
     (let jiJSON = json_text (JobInfo_json ji) in
      bindP (pg_exec E ''job_info'' (\<lambda>s.
          if \<not> key_ok js \<or> \<not> jsonb_ok jiJSON then Inl bad_value
          else Inr ((), s\<lparr>job_info := gm_put js (pg_jsonb E jiJSON) (job_info s)\<rparr>)))
        (\<lambda>r. case r of Inl err \<Rightarrow> pg_panic ''SetJobInfo()'' err | Inr _ \<Rightarrow> retP ()))"

definition pg_GetJobInfo :: "pg_env \<Rightarrow> JobSpec \<Rightarrow> (PGState, JobInfo result) prog" where
  "pg_GetJobInfo E js =
     bindP (pg_exec E ''job_info'' (pg_select job_info js)) (\<lambda>r.
       case r of
         Inl err \<Rightarrow> retP (Inl err)
       | Inr jsonBytes \<Rightarrow>
           (case json_unmarshal JobInfo_dec JobInfo0 jsonBytes of
              Inl err \<Rightarrow> retP (Inl (ErrWrap ''unmarshal JobInfo: '' err))
            | Inr ji \<Rightarrow> retP (Inr ji)))"

definition pg_SetStatus :: "pg_env \<Rightarrow> JobSpec \<Rightarrow> Status \<Rightarrow> (PGState, unit) prog" where
  "pg_SetStatus E js st =
     bindP (pg_exec E ''job_status'' (\<lambda>s.
         if \<not> key_ok js \<or> \<not> int4_ok st then Inl bad_value
         else Inr ((), s\<lparr>job_status := gm_put js st (job_status s)\<rparr>)))
       (\<lambda>r. case r of Inl err \<Rightarrow> pg_panic ''SetStatus()'' err | Inr _ \<Rightarrow> retP ())"

definition pg_statuses :: "PGState \<Rightarrow> int \<Rightarrow> Status list" where
  "pg_statuses s sid = map snd (filter (\<lambda>(js, st). SessionID js = sid) (job_status s))"

text \<open>
  The rows that arrive before the connection is lost.  \<^verbatim>\<open>rows.Next\<close> reports the end of
  the rows and a lost connection alike; \<^verbatim>\<open>GetSessionStatus\<close> does not ask which it was.
\<close>

definition rows_seen :: "pg_env \<Rightarrow> nat \<Rightarrow> 'a list \<Rightarrow> 'a list" where
  "rows_seen E n rows = (case pg_cut E n of None \<Rightarrow> rows | Some k \<Rightarrow> take k rows)"

definition pg_GetSessionStatus :: "pg_env \<Rightarrow> int \<Rightarrow> (PGState, StatusSummary result) prog" where
  "pg_GetSessionStatus E sessionID =
     bindP (pg_exec E ''job_status'' (\<lambda>s.
         if \<not> int4_ok sessionID then Inl bad_value
         else Inr (rows_seen E (pg_clock s) (pg_statuses s sessionID), s)))
       (\<lambda>rows. case rows of
          Inl err \<Rightarrow> retP (Inl err)
        | Inr sts \<Rightarrow>
            (case count_statuses sts init_counts 0 of
               (counts, tot) \<Rightarrow> retP (Inr \<lparr>Overall = overall_of counts tot, Counts = counts\<rparr>)))"

definition pg_GetStatus :: "pg_env \<Rightarrow> JobSpec \<Rightarrow> (PGState, Status result) prog" where
  "pg_GetStatus E js =
     bindP (pg_exec E ''job_status'' (pg_select job_status js)) (\<lambda>r.
       case r of Inl err \<Rightarrow> retP (Inl err) | Inr st \<Rightarrow> retP (Inr st))"

text \<open>
  \<^verbatim>\<open>INSERT ... ON CONFLICT DO UPDATE\<close>: the default of the serial column is taken from
  its sequence before the conflict is noticed, so every call uses up a number.
\<close>

definition find_repo :: "NameWithOwner \<Rightarrow> (int \<times> NameWithOwner) list \<Rightarrow> int option" where
  "find_repo nwo m = map_option fst (find (\<lambda>(i, n). n = nwo) m)"

definition upsert_repo :: "NameWithOwner \<Rightarrow> PGState \<Rightarrow> string + int \<times> PGState" where
  "upsert_repo nwo s =
     (if \<not> text_ok (Owner nwo) \<or> \<not> text_ok (Repo nwo) then Inl bad_value
      else if job_repo_seq s \<ge> max_int32 then Inl ''nextval: reached maximum value of sequence''
      else let i = job_repo_seq s + 1; s = s\<lparr>job_repo_seq := i\<rparr> in
        case find_repo nwo (job_repo_map s) of
          Some j \<Rightarrow> Inr (j, s)
        | None \<Rightarrow> Inr (i, s\<lparr>job_repo_map := job_repo_map s @ [(i, nwo)]\<rparr>))"

definition pg_GetRepoId :: "pg_env \<Rightarrow> NameWithOwner \<Rightarrow> (PGState, int) prog" where
  "pg_GetRepoId E cno =
     bindP (pg_exec E ''job_repo_map'' (upsert_repo cno)) (\<lambda>r.
       case r of Inl err \<Rightarrow> pg_panic ''GetRepoId'' err | Inr i \<Rightarrow> retP i)"

text \<open>
  The insertion of \<^verbatim>\<open>AddJob\<close> becomes visible when its transaction is committed; until
  then it is pending, and a panic rolls it back.  \<^verbatim>\<open>GetRepoId\<close> takes another
  connection of the pool and is not part of the transaction.
\<close>

definition insert_job :: "JobSpec \<Rightarrow> string \<Rightarrow> PGState \<Rightarrow> PGState" where
  "insert_job js payload s =
     (case gm_get (analyze_jobs s) js of
        Some _ \<Rightarrow> s
      | None \<Rightarrow> s\<lparr>analyze_jobs := gm_put js payload (analyze_jobs s)\<rparr>)"

definition pg_AddJob :: "pg_env \<Rightarrow> AnalyzeJob \<Rightarrow> (PGState, unit) prog" where
  "pg_AddJob E job =
     (let js = job_Spec job; jb = json_text (AnalyzeJob_json job) in
      bindP (pg_exec E ''pg'' (\<lambda>s. Inr ((), s))) (\<lambda>tx.
        case tx of
          Inl err \<Rightarrow> pg_panic ''AddJob()'' err
        | Inr _ \<Rightarrow>
            bindP (pg_exec E ''analyze_jobs'' (\<lambda>s.
                if \<not> key_ok js \<or> \<not> jsonb_ok jb then Inl bad_value
                else Inr (insert_job js (pg_jsonb E jb), s))) (\<lambda>pending.
              case pending of
                Inl err \<Rightarrow> pg_panic ''AddJob()'' err
              | Inr ins \<Rightarrow>
                  bindP (pg_GetRepoId E (NWO js)) (\<lambda>jobRepoID.
                    bindP (pg_exec E ''pg'' (\<lambda>s. Inr ((), ins s))) (\<lambda>committed.
                      case committed of
                        Inl err \<Rightarrow> pg_panic ''AddJob()'' err
                      | Inr _ \<Rightarrow> retP ())))))"

fun unmarshal_jobs :: "string list \<Rightarrow> AnalyzeJob list result" where
  "unmarshal_jobs [] = Inr []"
| "unmarshal_jobs (jsonBytes # rows) =
     (case json_unmarshal AnalyzeJob_dec AnalyzeJob0 jsonBytes of
        Inl err \<Rightarrow> Inl err
      | Inr job \<Rightarrow> (case unmarshal_jobs rows of Inl err \<Rightarrow> Inl err | Inr jobs \<Rightarrow> Inr (job # jobs)))"

definition pg_job_rows :: "pg_env \<Rightarrow> PGState \<Rightarrow> int \<Rightarrow> string list" where
  "pg_job_rows E s sid =
     List.map_filter (gm_get (analyze_jobs s))
       (pg_order E (filter (\<lambda>js. SessionID js = sid) (map fst (analyze_jobs s))))"

definition pg_GetJobList :: "pg_env \<Rightarrow> int \<Rightarrow> (PGState, AnalyzeJob list result) prog" where
  "pg_GetJobList E sessionId =
     bindP (pg_exec E ''analyze_jobs'' (\<lambda>s.
         if \<not> int4_ok sessionId then Inl bad_value
         else Inr ((pg_cut E (pg_clock s), rows_seen E (pg_clock s) (pg_job_rows E s sessionId)), s)))
       (\<lambda>rows. case rows of
          Inl err \<Rightarrow> retP (Inl err)
        | Inr (lost, payloads) \<Rightarrow>
            (case unmarshal_jobs payloads of
               Inl err \<Rightarrow> retP (Inl err)
             | Inr jobs \<Rightarrow>
                 (case lost of
                    Some _ \<Rightarrow> retP (Inl (ExtError ''unexpected EOF''))
                  | None \<Rightarrow> retP (Inr jobs))))"

definition pg_GetJobSpecByRepoId :: "pg_env \<Rightarrow> int \<Rightarrow> int \<Rightarrow> (PGState, JobSpec result) prog" where
  "pg_GetJobSpecByRepoId E sessionId jobRepoId =
     bindP (pg_exec E ''job_repo_map'' (\<lambda>s.
         if \<not> int4_ok jobRepoId then Inl bad_value
         else case map_of (job_repo_map s) jobRepoId of
           None \<Rightarrow> Inl no_rows
         | Some nwo \<Rightarrow> Inr (nwo, s)))
       (\<lambda>r. case r of
          Inl err \<Rightarrow> retP (Inl err)
        | Inr nwo \<Rightarrow> retP (Inr \<lparr>SessionID = sessionId, NWO = nwo\<rparr>))"

definition PG_ServerState :: "pg_env \<Rightarrow> PGState ServerState" where
  "PG_ServerState E =
     \<lparr>ss_NextID = pg_NextID E, ss_GetResult = pg_GetResult E,
      ss_GetJobSpecByRepoId = pg_GetJobSpecByRepoId E, ss_SetResult = pg_SetResult E,
      ss_GetJobList = pg_GetJobList E, ss_GetJobInfo = pg_GetJobInfo E, ss_SetJobInfo = pg_SetJobInfo E,
      ss_GetStatus = pg_GetStatus E, ss_GetSessionStatus = pg_GetSessionStatus E,
      ss_SetStatus = pg_SetStatus E, ss_AddJob = pg_AddJob E, ss_GetRepoId = pg_GetRepoId E\<rparr>"

definition PG_empty :: PGState where
  "PG_empty = \<lparr>pg_tables = [''pg''], schema_lock = False, job_repo_map = [], job_repo_seq = 0,
     session_id_seq = 0, analyze_results = [], analyze_jobs = [], job_info = [], job_status = [], pg_clock = 0\<rparr>"

section \<open>A database that works\<close>

text \<open>
  The documented behaviour of \<^verbatim>\<open>jsonb\<close>: JSON with integer numbers and without repeated
  member names comes back as the same value, with the members of objects in any order.
\<close>

fun plain_json :: "json \<Rightarrow> bool" where
  "plain_json (JNum n) = (\<exists>i. n = Itoa i)"
| "plain_json (JArr js) = list_all plain_json js"
| "plain_json (JObj ms) = (distinct (map fst ms) \<and> list_all (\<lambda>(k, j). plain_json j) ms)"
| "plain_json _ = True"

definition jsonb_faithful :: "(string \<Rightarrow> string) \<Rightarrow> bool" where
  "jsonb_faithful f \<longleftrightarrow>
     (\<forall>t j. json_parse t = Some j \<longrightarrow> plain_json j \<longrightarrow> no_nul j \<longrightarrow>
        (\<exists>j'. json_parse (f t) = Some j' \<and> jperm j j'))"

definition pg_healthy :: "pg_env \<Rightarrow> bool" where
  "pg_healthy E \<longleftrightarrow> (\<forall>n. pg_fault E n = None) \<and> (\<forall>n. pg_cut E n = None) \<and> jsonb_faithful (pg_jsonb E)
     \<and> (\<forall>xs. mset (pg_order E xs) = mset xs)"

lemma jsonb_read:
  assumes "pg_healthy E" and "wf_json j" and "json_depth j \<le> 10000" and "plain_json j" and "no_nul j"
    and "\<And>j'. jperm j j' \<Longrightarrow> d j' z = Inr r"
  shows "jsonb_ok (json_text j) \<and> json_unmarshal d z (pg_jsonb E (json_text j)) = Inr r"
proof -
  have p: "json_parse (json_text j) = Some j" using assms(2,3) by (rule json_parse_text)
  obtain j' where "json_parse (pg_jsonb E (json_text j)) = Some j'" "jperm j j'"
    using assms(1,4,5) p unfolding pg_healthy_def jsonb_faithful_def by metis
  with p assms(5,6) show ?thesis by (simp add: jsonb_ok_def json_unmarshal_def)
qed

lemma plain_JInt [simp]: "plain_json (JInt i)" "no_nul (JInt i)"
  by (auto simp: JInt_def)

definition pg_adm_result :: "AnalyzeResult \<Rightarrow> bool" where
  "pg_adm_result r \<longleftrightarrow> wf_AnalyzeResult r \<and> no_nul (AnalyzeResult_json r)"

definition pg_adm_job :: "AnalyzeJob \<Rightarrow> bool" where
  "pg_adm_job j \<longleftrightarrow> wf_AnalyzeJob j \<and> no_nul (AnalyzeJob_json j)"

definition pg_adm_info :: "JobInfo \<Rightarrow> bool" where
  "pg_adm_info i \<longleftrightarrow> wf_JobInfo i \<and> no_nul (JobInfo_json i)"

lemma stored_result:
  assumes "pg_healthy E" and "pg_adm_result r"
  shows "jsonb_ok (json_text (AnalyzeResult_json r)) \<and>
    json_unmarshal AnalyzeResult_dec z (pg_jsonb E (json_text (AnalyzeResult_json r))) = Inr r"
proof (rule jsonb_read [OF assms(1)])
  show "wf_json (AnalyzeResult_json r)" "json_depth (AnalyzeResult_json r) \<le> 10000"
    using assms(2) by (simp_all add: pg_adm_result_def AnalyzeResult_json_def wf_AnalyzeResult_def)
  show "plain_json (AnalyzeResult_json r)"
    by (simp add: AnalyzeResult_json_def JobSpec_json_def JobSpec_members_def ArtifactLocation_json_def)
qed (use assms(2) in \<open>simp_all add: pg_adm_result_def AnalyzeResult_dec_perm [of r]\<close>)

lemma stored_job:
  assumes "pg_healthy E" and "pg_adm_job j"
  shows "jsonb_ok (json_text (AnalyzeJob_json j)) \<and>
    json_unmarshal AnalyzeJob_dec z (pg_jsonb E (json_text (AnalyzeJob_json j))) = Inr j"
proof (rule jsonb_read [OF assms(1)])
  show "wf_json (AnalyzeJob_json j)" "json_depth (AnalyzeJob_json j) \<le> 10000"
    using assms(2) by (simp_all add: pg_adm_job_def AnalyzeJob_json_def wf_AnalyzeJob_def)
  show "plain_json (AnalyzeJob_json j)"
    by (simp add: AnalyzeJob_json_def JobSpec_json_def JobSpec_members_def ArtifactLocation_json_def)
qed (use assms(2) in \<open>simp_all add: pg_adm_job_def AnalyzeJob_dec_perm [of j]\<close>)

lemma stored_info:
  assumes "pg_healthy E" and "pg_adm_info i"
  shows "jsonb_ok (json_text (JobInfo_json i)) \<and>
    json_unmarshal JobInfo_dec z (pg_jsonb E (json_text (JobInfo_json i))) = Inr i"
proof (rule jsonb_read [OF assms(1)])
  show "wf_json (JobInfo_json i)" "json_depth (JobInfo_json i) \<le> 10000"
    using assms(2) by (simp_all add: pg_adm_info_def wf_JobInfo_json depth_JobInfo_json)
  show "plain_json (JobInfo_json i)"
    by (simp add: JobInfo_json_def SkippedRepositories_json_def AccessMismatchRepos_json_def
        NotFoundRepos_json_def NoCodeqlDBRepos_json_def OverLimitRepos_json_def Repository_json_def list_all_iff)
qed (use assms(2) in \<open>simp_all add: pg_adm_info_def JobInfo_dec_perm [of i]\<close>)

section \<open>The contract\<close>

text \<open>
  The invariant of the tables: the schemas exist, every row belongs to a session whose number
  was handed out, every stored JSON value reads back as a struct of its row, and the identifiers
  of repositories are unique.
\<close>

definition session_row :: "PGState \<Rightarrow> JobSpec \<Rightarrow> bool" where
  "session_row s js \<longleftrightarrow> 1 \<le> SessionID js \<and> SessionID js \<le> session_id_seq s"

definition pg_repos_ok :: "PGState \<Rightarrow> bool" where
  "pg_repos_ok s \<longleftrightarrow> 0 \<le> job_repo_seq s \<and> job_repo_seq s \<le> max_int32 \<and> distinct (map fst (job_repo_map s)) \<and>
     distinct (map snd (job_repo_map s)) \<and>
     (\<forall>i \<in> fst ` set (job_repo_map s). 1 \<le> i \<and> i \<le> job_repo_seq s)"

definition pg_inv :: "PGState \<Rightarrow> bool" where
  "pg_inv s \<longleftrightarrow> set (''pg'' # schemas) \<subseteq> set (pg_tables s) \<and>
     0 \<le> session_id_seq s \<and> session_id_seq s \<le> max_int32 \<and> pg_repos_ok s \<and>
     gm_wf (job_status s) \<and> gm_wf (analyze_jobs s) \<and>
     (\<forall>js st. gm_get (job_status s) js = Some st \<longrightarrow> session_row s js) \<and>
     (\<forall>js t. gm_get (analyze_results s) js = Some t \<longrightarrow> session_row s js \<and>
        (\<exists>r. json_unmarshal AnalyzeResult_dec AnalyzeResult0 t = Inr r \<and> res_Spec r = js)) \<and>
     (\<forall>js t. gm_get (analyze_jobs s) js = Some t \<longrightarrow> session_row s js \<and>
        (\<exists>j. json_unmarshal AnalyzeJob_dec AnalyzeJob0 t = Inr j \<and> job_Spec j = js)) \<and>
     (\<forall>js t. gm_get (job_info s) js = Some t \<longrightarrow> session_row s js \<and>
        (\<exists>i. json_unmarshal JobInfo_dec JobInfo0 t = Inr i))"

definition read_row :: "'a field_dec \<Rightarrow> 'a \<Rightarrow> string \<Rightarrow> 'a option" where
  "read_row d z t = (case json_unmarshal d z t of Inl e \<Rightarrow> None | Inr a \<Rightarrow> Some a)"

definition pg_view :: "PGState \<Rightarrow> job_view" where
  "pg_view s =
     \<lparr>jv_status = gm_get (job_status s),
      jv_result = (\<lambda>js. Option.bind (gm_get (analyze_results s) js) (read_row AnalyzeResult_dec AnalyzeResult0)),
      jv_info = (\<lambda>js. Option.bind (gm_get (job_info s) js) (read_row JobInfo_dec JobInfo0)),
      jv_specs = (\<lambda>sid. {js. gm_get (analyze_jobs s) js \<noteq> None \<and> SessionID js = sid})\<rparr>"

definition pg_issued :: "PGState \<Rightarrow> int \<Rightarrow> bool" where
  "pg_issued s i \<longleftrightarrow> 1 \<le> i \<and> i \<le> session_id_seq s"

definition pg_fits :: "PGState \<Rightarrow> nat \<Rightarrow> bool" where
  "pg_fits s n \<longleftrightarrow> job_repo_seq s + int n \<le> max_int32"

text \<open>The clock is not observable.\<close>

lemma pg_clock_irrelevant [simp]:
  "pg_inv (s\<lparr>pg_clock := n\<rparr>) = pg_inv s" "pg_view (s\<lparr>pg_clock := n\<rparr>) = pg_view s"
  "pg_issued (s\<lparr>pg_clock := n\<rparr>) = pg_issued s" "pg_fits (s\<lparr>pg_clock := n\<rparr>) = pg_fits s"
  by (auto simp: pg_inv_def pg_repos_ok_def session_row_def pg_view_def pg_issued_def pg_fits_def fun_eq_iff)

lemma pg_same:
  assumes "s\<lparr>pg_clock := 0\<rparr> = t\<lparr>pg_clock := 0\<rparr>"
  shows "pg_inv s = pg_inv t" "pg_view s = pg_view t" "pg_issued s = pg_issued t" "pg_fits s = pg_fits t"
  using pg_clock_irrelevant [of 0 s] pg_clock_irrelevant [of 0 t] by (simp_all add: assms)

lemma pg_inv_tables [simp]:
  "pg_inv s \<Longrightarrow> x \<in> set (''pg'' # schemas) \<Longrightarrow> x \<in> set (pg_tables s)"
  unfolding pg_inv_def by blast

lemma pg_exec_ok:
  "pg_healthy E \<Longrightarrow> pg_inv s \<Longrightarrow> tbl \<in> set (''pg'' # schemas) \<Longrightarrow>
     stmt (s\<lparr>pg_clock := Suc (pg_clock s)\<rparr>) = Inr (a, t) \<Longrightarrow> pg_exec E tbl stmt s = (Ret (Inr a), t)"
  using pg_inv_tables [of s tbl] by (simp add: pg_exec_def Let_def pg_healthy_def)

lemma pg_exec_err:
  "pg_inv s \<Longrightarrow> tbl \<in> set (''pg'' # schemas) \<Longrightarrow>
     stmt (s\<lparr>pg_clock := Suc (pg_clock s)\<rparr>) = Inl e \<Longrightarrow>
     pg_exec E tbl stmt s = (Ret (Inl (ExtError e)), s\<lparr>pg_clock := Suc (pg_clock s)\<rparr>)"
  using pg_inv_tables [of s tbl] by (simp add: pg_exec_def Let_def)

lemma issued_int4: "pg_inv s \<Longrightarrow> pg_issued s i \<Longrightarrow> int4_ok i"
  by (simp add: pg_inv_def pg_issued_def int4_ok_def)

lemma known_status_int4: "known_status st \<Longrightarrow> int4_ok st"
  by (auto simp: known_status_iff int4_ok_def status_defs)

lemma pg_NextID_run:
  assumes "pg_healthy E" and "pg_inv s" and "session_id_seq s < max_int32"
  shows "pg_NextID E s = (Ret (session_id_seq s + 1),
    s\<lparr>pg_clock := Suc (pg_clock s), session_id_seq := session_id_seq s + 1\<rparr>)"
  unfolding pg_NextID_def
  by (subst bindP_Ret, rule pg_exec_ok [OF assms(1,2)]) (use assms(3) in \<open>simp_all add: schemas_def\<close>)

lemma pg_SetStatus_run:
  assumes "pg_healthy E" and "pg_inv s" and "key_ok js" and "int4_ok st"
  shows "pg_SetStatus E js st s = (Ret (),
    s\<lparr>pg_clock := Suc (pg_clock s), job_status := gm_put js st (job_status s)\<rparr>)"
  unfolding pg_SetStatus_def
  by (subst bindP_Ret, rule pg_exec_ok [OF assms(1,2)]) (use assms(3,4) in \<open>simp_all add: schemas_def\<close>)

lemma pg_select_run:
  assumes "pg_healthy E" and "pg_inv s" and "key_ok js" and "tbl \<in> set (''pg'' # schemas)"
    and "T (s\<lparr>pg_clock := Suc (pg_clock s)\<rparr>) = T s"
  shows "pg_exec E tbl (pg_select T js) s =
    (Ret (case gm_get (T s) js of None \<Rightarrow> Inl (ExtError no_rows) | Some v \<Rightarrow> Inr v),
     s\<lparr>pg_clock := Suc (pg_clock s)\<rparr>)"
proof (cases "gm_get (T s) js")
  case None
  then show ?thesis by (subst pg_exec_err [OF assms(2,4)]) (use assms(3,5) in \<open>simp_all add: pg_select_def\<close>)
next
  case (Some v)
  then show ?thesis by (subst pg_exec_ok [OF assms(1,2,4)]) (use assms(3,5) in \<open>simp_all add: pg_select_def\<close>)
qed

lemma pg_SetResult_run:
  assumes "pg_healthy E" and "pg_inv s" and "key_ok js" and "pg_adm_result r" and "res_Spec r = js"
  shows "pg_SetResult E js r s = (Ret (), s\<lparr>pg_clock := Suc (pg_clock s),
    analyze_results := gm_put js (pg_jsonb E (json_text (AnalyzeResult_json r))) (analyze_results s)\<rparr>)"
proof -
  have r: "r\<lparr>res_Spec := js\<rparr> = r" using assms(5) by simp
  show ?thesis
    unfolding pg_SetResult_def Let_def r
    by (subst bindP_Ret, rule pg_exec_ok [OF assms(1,2)])
      (use assms(3) stored_result [OF assms(1,4)] in \<open>simp_all add: schemas_def\<close>)
qed

lemma pg_SetJobInfo_run:
  assumes "pg_healthy E" and "pg_inv s" and "key_ok js" and "pg_adm_info i"
  shows "pg_SetJobInfo E js i s = (Ret (), s\<lparr>pg_clock := Suc (pg_clock s),
    job_info := gm_put js (pg_jsonb E (json_text (JobInfo_json i))) (job_info s)\<rparr>)"
  unfolding pg_SetJobInfo_def Let_def
  by (subst bindP_Ret, rule pg_exec_ok [OF assms(1,2)])
    (use assms(3) stored_info [OF assms(1,4)] in \<open>simp_all add: schemas_def\<close>)

lemma find_repo_Some: "find_repo nwo m = Some i \<Longrightarrow> (i, nwo) \<in> set m"
  by (auto simp: find_repo_def find_Some_iff) (metis nth_mem)

lemma find_repo_None: "find_repo nwo m = None \<longleftrightarrow> nwo \<notin> snd ` set m"
  by (force simp: find_repo_def find_None_iff)

text \<open>
  The repository table after a call: the name has its identifier, every other pair is as
  before, and the invariant holds.
\<close>

lemma upsert_repo_ok:
  assumes "pg_repos_ok s" and "text_ok (Owner nwo)" and "text_ok (Repo nwo)" and "job_repo_seq s < max_int32"
  shows "\<exists>i m. upsert_repo nwo s = Inr (i, s\<lparr>job_repo_seq := job_repo_seq s + 1, job_repo_map := m\<rparr>)
    \<and> (i, nwo) \<in> set m \<and> set (job_repo_map s) \<subseteq> set m \<and> set m \<subseteq> insert (i, nwo) (set (job_repo_map s))
    \<and> pg_repos_ok (s\<lparr>job_repo_seq := job_repo_seq s + 1, job_repo_map := m\<rparr>)"
proof (cases "find_repo nwo (job_repo_map s)")
  case None
  then have "nwo \<notin> snd ` set (job_repo_map s)" by (simp add: find_repo_None)
  moreover have "job_repo_seq s + 1 \<notin> fst ` set (job_repo_map s)" using assms(1) by (auto simp: pg_repos_ok_def)
  ultimately show ?thesis
    using assms None
    by (intro exI [of _ "job_repo_seq s + 1"] exI [of _ "job_repo_map s @ [(job_repo_seq s + 1, nwo)]"])
      (auto simp: upsert_repo_def Let_def pg_repos_ok_def)
next
  case (Some i)
  then show ?thesis
    using assms find_repo_Some [OF Some]
    by (intro exI [of _ i] exI [of _ "job_repo_map s"]) (auto simp: upsert_repo_def Let_def pg_repos_ok_def)
qed

lemma pg_inv_repos:
  assumes "pg_inv s" and "pg_repos_ok (s\<lparr>job_repo_seq := n, job_repo_map := m\<rparr>)"
  shows "pg_inv (s\<lparr>job_repo_seq := n, job_repo_map := m\<rparr>)"
  using assms by (simp add: pg_inv_def session_row_def)

lemma pg_GetRepoId_run:
  assumes "pg_healthy E" and "pg_inv s" and "text_ok (Owner nwo)" and "text_ok (Repo nwo)"
    and "job_repo_seq s < max_int32"
  shows "\<exists>i m. pg_GetRepoId E nwo s = (Ret i,
      s\<lparr>pg_clock := Suc (pg_clock s), job_repo_seq := job_repo_seq s + 1, job_repo_map := m\<rparr>)
    \<and> (i, nwo) \<in> set m \<and> set (job_repo_map s) \<subseteq> set m
    \<and> pg_inv (s\<lparr>pg_clock := Suc (pg_clock s), job_repo_seq := job_repo_seq s + 1, job_repo_map := m\<rparr>)"
proof -
  let ?s = "s\<lparr>pg_clock := Suc (pg_clock s)\<rparr>"
  have inv: "pg_inv ?s" using assms(2) by simp
  then have "pg_repos_ok ?s" unfolding pg_inv_def by blast
  then obtain i m where m: "upsert_repo nwo ?s = Inr (i, ?s\<lparr>job_repo_seq := job_repo_seq s + 1, job_repo_map := m\<rparr>)"
    "(i, nwo) \<in> set m" "set (job_repo_map s) \<subseteq> set m"
    "pg_repos_ok (?s\<lparr>job_repo_seq := job_repo_seq s + 1, job_repo_map := m\<rparr>)"
    using upsert_repo_ok [of ?s nwo] assms(3-5) by auto
  have "pg_exec E ''job_repo_map'' (upsert_repo nwo) s =
      (Ret (Inr i), ?s\<lparr>job_repo_seq := job_repo_seq s + 1, job_repo_map := m\<rparr>)"
    by (rule pg_exec_ok [OF assms(1,2)]) (use m in \<open>simp_all add: schemas_def\<close>)
  then show ?thesis
    using m pg_inv_repos [OF inv m(4)] by (intro exI [of _ i] exI [of _ m]) (simp add: pg_GetRepoId_def)
qed

lemma insert_job_inv:
  assumes "pg_inv s" and "session_row s js"
    and "\<exists>j. json_unmarshal AnalyzeJob_dec AnalyzeJob0 t = Inr j \<and> job_Spec j = js"
  shows "pg_inv (insert_job js t s)"
  using assms by (auto simp: pg_inv_def pg_repos_ok_def session_row_def insert_job_def split: option.splits)

lemma insert_job_view:
  "pg_view (insert_job js t s) = (pg_view s)\<lparr>jv_specs := (jv_specs (pg_view s))
     (SessionID js := insert js (jv_specs (pg_view s) (SessionID js)))\<rparr>"
  by (auto simp: pg_view_def insert_job_def fun_eq_iff split: option.splits)

lemma insert_job_frame [simp]:
  "session_id_seq (insert_job js t s) = session_id_seq s" "job_repo_seq (insert_job js t s) = job_repo_seq s"
  "pg_issued (insert_job js t s) = pg_issued s"
  by (simp_all add: insert_job_def pg_issued_def fun_eq_iff split: option.splits)

lemma pg_AddJob_run:
  assumes E: "pg_healthy E" and s: "pg_inv s" and js: "key_ok (job_Spec j)" and j: "pg_adm_job j"
    and room: "job_repo_seq s < max_int32"
  shows "\<exists>c m. pg_AddJob E j s = (Ret (), insert_job (job_Spec j) (pg_jsonb E (json_text (AnalyzeJob_json j)))
      (s\<lparr>job_repo_seq := job_repo_seq s + 1, job_repo_map := m, pg_clock := c\<rparr>))
    \<and> pg_inv (s\<lparr>job_repo_seq := job_repo_seq s + 1, job_repo_map := m, pg_clock := c\<rparr>)"
proof -
  let ?t = "pg_jsonb E (json_text (AnalyzeJob_json j))"
  let ?s1 = "s\<lparr>pg_clock := Suc (pg_clock s)\<rparr>" and ?s2 = "s\<lparr>pg_clock := Suc (Suc (pg_clock s))\<rparr>"
  have 1: "pg_exec E ''pg'' (\<lambda>s. Inr ((), s)) s = (Ret (Inr ()), ?s1)"
    by (rule pg_exec_ok [OF E s]) simp_all
  have 2: "pg_exec E ''analyze_jobs'' (\<lambda>s.
       if \<not> key_ok (job_Spec j) \<or> \<not> jsonb_ok (json_text (AnalyzeJob_json j)) then Inl bad_value
       else Inr (insert_job (job_Spec j) ?t, s)) ?s1 = (Ret (Inr (insert_job (job_Spec j) ?t)), ?s2)"
    by (rule pg_exec_ok [OF E]) (use s js stored_job [OF E j] in \<open>simp_all add: schemas_def\<close>)
  have "\<exists>i m. pg_GetRepoId E (NWO (job_Spec j)) ?s2 = (Ret i,
      ?s2\<lparr>pg_clock := Suc (pg_clock ?s2), job_repo_seq := job_repo_seq ?s2 + 1, job_repo_map := m\<rparr>)
    \<and> (i, NWO (job_Spec j)) \<in> set m \<and> set (job_repo_map ?s2) \<subseteq> set m
    \<and> pg_inv (?s2\<lparr>pg_clock := Suc (pg_clock ?s2), job_repo_seq := job_repo_seq ?s2 + 1, job_repo_map := m\<rparr>)"
    by (rule pg_GetRepoId_run [OF E]) (use s js room in \<open>simp_all add: key_ok_def\<close>)
  then obtain i m c where 3: "pg_GetRepoId E (NWO (job_Spec j)) ?s2 = (Ret i,
      s\<lparr>pg_clock := c, job_repo_seq := job_repo_seq s + 1, job_repo_map := m\<rparr>)"
    and inv3: "pg_inv (s\<lparr>pg_clock := c, job_repo_seq := job_repo_seq s + 1, job_repo_map := m\<rparr>)"
    by auto
  let ?s3 = "s\<lparr>pg_clock := c, job_repo_seq := job_repo_seq s + 1, job_repo_map := m\<rparr>"
  have 4: "pg_exec E ''pg'' (\<lambda>s. Inr ((), insert_job (job_Spec j) ?t s)) ?s3 =
      (Ret (Inr ()), insert_job (job_Spec j) ?t (?s3\<lparr>pg_clock := Suc c\<rparr>))"
    by (rule pg_exec_ok [OF E inv3]) simp_all
  have "pg_inv (?s3\<lparr>pg_clock := Suc c\<rparr>)" using inv3 by (subst pg_clock_irrelevant)
  moreover have "pg_AddJob E j s = (Ret (), insert_job (job_Spec j) ?t (?s3\<lparr>pg_clock := Suc c\<rparr>))"
    unfolding pg_AddJob_def Let_def using 1 2 3 4 by simp
  ultimately show ?thesis by (intro exI [of _ "Suc c"] exI [of _ m]) simp
qed

lemma unmarshal_jobs_ok:
  "(\<And>t. t \<in> set ts \<Longrightarrow> json_unmarshal AnalyzeJob_dec AnalyzeJob0 t = Inr (f t)) \<Longrightarrow>
     unmarshal_jobs ts = Inr (map f ts)"
  by (induction ts) auto

lemma pg_GetJobList_run:
  assumes E: "pg_healthy E" and s: "pg_inv s" and sid: "int4_ok sid"
  shows "\<exists>js. pg_GetJobList E sid s = (Ret (Inr js), s\<lparr>pg_clock := Suc (pg_clock s)\<rparr>)
    \<and> job_Spec ` set js = jv_specs (pg_view s) sid \<and> distinct (map job_Spec js)"
proof -
  let ?dec = "json_unmarshal AnalyzeJob_dec AnalyzeJob0"
  let ?keys = "pg_order E (filter (\<lambda>js. SessionID js = sid) (map fst (analyze_jobs s)))"
  have keys: "set ?keys = {js. gm_get (analyze_jobs s) js \<noteq> None \<and> SessionID js = sid}"
    using E by (auto simp: pg_healthy_def map_of_eq_None_iff simp flip: set_mset_mset)
  have rows: "pg_job_rows E s sid = map (\<lambda>js. the (gm_get (analyze_jobs s) js)) ?keys"
  proof -
    have "filter (\<lambda>js. gm_get (analyze_jobs s) js \<noteq> None) ?keys = ?keys"
      unfolding filter_id_conv using keys by blast
    then show ?thesis by (simp add: pg_job_rows_def List.map_filter_def comp_def)
  qed
  have row: "\<exists>j. ?dec t = Inr j \<and> job_Spec j = js" if "gm_get (analyze_jobs s) js = Some t" for js t
    using s that by (simp add: pg_inv_def)
  let ?jobs = "map (\<lambda>t. projr (?dec t)) (pg_job_rows E s sid)"
  have um: "unmarshal_jobs (pg_job_rows E s sid) = Inr ?jobs"
  proof (rule unmarshal_jobs_ok)
    fix t
    assume "t \<in> set (pg_job_rows E s sid)"
    then obtain js where "gm_get (analyze_jobs s) js = Some t" using keys unfolding rows by auto
    from row [OF this] show "?dec t = Inr (projr (?dec t))" by auto
  qed
  have "pg_exec E ''analyze_jobs'' (\<lambda>s. if \<not> int4_ok sid then Inl bad_value
         else Inr ((pg_cut E (pg_clock s), rows_seen E (pg_clock s) (pg_job_rows E s sid)), s)) s =
      (Ret (Inr (None, pg_job_rows E s sid)), s\<lparr>pg_clock := Suc (pg_clock s)\<rparr>)"
    by (rule pg_exec_ok [OF E s])
      (use sid E in \<open>simp_all add: schemas_def pg_healthy_def rows_seen_def pg_job_rows_def\<close>)
  then have "pg_GetJobList E sid s = (Ret (Inr ?jobs), s\<lparr>pg_clock := Suc (pg_clock s)\<rparr>)"
    unfolding pg_GetJobList_def by (simp add: um)
  moreover have "job_Spec ` set ?jobs = (\<lambda>js. job_Spec (projr (?dec (the (gm_get (analyze_jobs s) js))))) ` set ?keys"
    unfolding rows by (simp add: image_image)
  moreover have "\<dots> = (\<lambda>js. js) ` set ?keys"
    by (rule image_cong [OF refl]) (use keys row in fastforce)
  moreover have "map job_Spec ?jobs = ?keys"
    unfolding rows map_map comp_def by (rule map_idI) (use keys row in fastforce)
  moreover have "distinct (map fst (analyze_jobs s))" using s by (simp add: pg_inv_def gm_wf_def)
  then have "distinct ?keys"
    using E by (metis (no_types, lifting) distinct_filter mset_eq_imp_distinct_iff pg_healthy_def)
  ultimately show ?thesis using keys by (intro exI [of _ ?jobs]) (simp add: pg_view_def)
qed

lemma pg_GetSessionStatus_run:
  assumes E: "pg_healthy E" and s: "pg_inv s" and sid: "int4_ok sid"
  shows "pg_GetSessionStatus E sid s =
    (Ret (Inr (summarize (pg_statuses s sid))), s\<lparr>pg_clock := Suc (pg_clock s)\<rparr>)"
proof -
  have "pg_exec E ''job_status'' (\<lambda>s. if \<not> int4_ok sid then Inl bad_value
         else Inr (rows_seen E (pg_clock s) (pg_statuses s sid), s)) s =
      (Ret (Inr (pg_statuses s sid)), s\<lparr>pg_clock := Suc (pg_clock s)\<rparr>)"
    by (rule pg_exec_ok [OF E s])
      (use sid E in \<open>simp_all add: schemas_def pg_healthy_def rows_seen_def pg_statuses_def\<close>)
  then show ?thesis
    unfolding pg_GetSessionStatus_def by (simp add: summarize_def split: prod.split)
qed

lemma set_pg_statuses: "pg_inv s \<Longrightarrow> set (pg_statuses s sid) = session_statuses (pg_view s) sid"
proof -
  assume "pg_inv s"
  then have "gm_wf (job_status s)" unfolding pg_inv_def by blast
  then show ?thesis
    by (force simp: pg_statuses_def session_statuses_def pg_view_def gm_in_set_iff)
qed

text \<open>A database that works, as a locale; the contract of the server state follows from it.\<close>

locale pg_server =
  fixes E :: pg_env
  assumes healthy: "pg_healthy E"

sublocale pg_server \<subseteq> job_state "PG_ServerState E" pg_inv pg_view pg_issued
  "\<lambda>s. session_id_seq s < max_int32" pg_fits key_ok pg_adm_job pg_adm_result pg_adm_info
proof (unfold_locales, goal_cases)
  case (1 s)
  let ?i = "session_id_seq s + 1"
  have row: "\<not> session_row s js" if "SessionID js = ?i" for js using that by (simp add: session_row_def)
  have "gm_get (job_status s) js = None" "gm_get (analyze_jobs s) js = None" if "SessionID js = ?i" for js
    using 1(1) row [OF that] unfolding pg_inv_def by (meson not_None_eq)+
  then have empty: "jv_specs (pg_view s) ?i = {}" "session_statuses (pg_view s) ?i = {}"
    by (auto simp: pg_view_def session_statuses_def)
  have mono: "session_row s js \<Longrightarrow> session_row (s\<lparr>session_id_seq := ?i\<rparr>) js" for js
    by (simp add: session_row_def)
  have "pg_inv (s\<lparr>session_id_seq := ?i\<rparr>)"
    using 1 mono unfolding pg_inv_def pg_repos_ok_def by simp
  moreover have "pg_issued (s\<lparr>session_id_seq := ?i\<rparr>) = (pg_issued s)(?i := True)"
    using 1(1) by (auto simp: pg_issued_def fun_eq_iff pg_inv_def)
  moreover have "pg_view (s\<lparr>session_id_seq := ?i\<rparr>) = pg_view s" "pg_fits (s\<lparr>session_id_seq := ?i\<rparr>) = pg_fits s"
    by (simp_all add: pg_view_def pg_fits_def fun_eq_iff)
  moreover note pg_same [of "s\<lparr>pg_clock := Suc (pg_clock s), session_id_seq := ?i\<rparr>" "s\<lparr>session_id_seq := ?i\<rparr>"]
  ultimately show ?case
    using pg_NextID_run [OF healthy 1] empty by (simp add: PG_ServerState_def pg_issued_def)
next
  case (2 s js st)
  let ?t = "s\<lparr>job_status := gm_put js st (job_status s)\<rparr>"
  have "pg_inv ?t"
    using 2(1,2) by (auto simp: pg_inv_def pg_repos_ok_def session_row_def pg_issued_def)
  moreover have "pg_view ?t = (pg_view s)\<lparr>jv_status := (jv_status (pg_view s))(js \<mapsto> st)\<rparr>"
    "pg_issued ?t = pg_issued s" "pg_fits ?t = pg_fits s"
    by (simp_all add: pg_view_def pg_issued_def pg_fits_def fun_eq_iff)
  moreover note pg_same [of "s\<lparr>pg_clock := Suc (pg_clock s), job_status := gm_put js st (job_status s)\<rparr>" ?t]
  ultimately show ?case
    using pg_SetStatus_run [OF healthy 2(1,3) known_status_int4 [OF 2(4)]] by (simp add: PG_ServerState_def)
next
  case (3 s js)
  then show ?case
    using pg_select_run [OF healthy 3, of "''job_status''" job_status]
    by (auto simp: PG_ServerState_def pg_GetStatus_def schemas_def pg_view_def split: option.splits)
next
  case (4 s js r)
  let ?t = "s\<lparr>analyze_results := gm_put js (pg_jsonb E (json_text (AnalyzeResult_json r))) (analyze_results s)\<rparr>"
  note r = stored_result [OF healthy 4(4)]
  have "pg_inv ?t"
    using 4(1,2,5) r by (auto simp: pg_inv_def pg_repos_ok_def session_row_def pg_issued_def)
  moreover have "pg_view ?t = (pg_view s)\<lparr>jv_result := (jv_result (pg_view s))(js \<mapsto> r)\<rparr>"
    "pg_issued ?t = pg_issued s" "pg_fits ?t = pg_fits s"
    using r by (simp_all add: pg_view_def pg_issued_def pg_fits_def read_row_def fun_eq_iff)
  moreover note pg_same [of "s\<lparr>pg_clock := Suc (pg_clock s),
    analyze_results := gm_put js (pg_jsonb E (json_text (AnalyzeResult_json r))) (analyze_results s)\<rparr>" ?t]
  ultimately show ?case
    using pg_SetResult_run [OF healthy 4(1,3,4,5)] by (simp add: PG_ServerState_def)
next
  case (5 s js)
  have "\<exists>r. json_unmarshal AnalyzeResult_dec AnalyzeResult0 t = Inr r"
    if "gm_get (analyze_results s) js = Some t" for t using 5(1) that unfolding pg_inv_def by blast
  then show ?case
    using pg_select_run [OF healthy 5, of "''analyze_results''" analyze_results]
    by (cases "gm_get (analyze_results s) js")
      (auto simp: 5(1) PG_ServerState_def pg_GetResult_def schemas_def pg_view_def read_row_def)
next
  case (6 s js i)
  let ?t = "s\<lparr>job_info := gm_put js (pg_jsonb E (json_text (JobInfo_json i))) (job_info s)\<rparr>"
  note r = stored_info [OF healthy 6(4)]
  have "pg_inv ?t"
    using 6(1,2) r by (auto simp: pg_inv_def pg_repos_ok_def session_row_def pg_issued_def)
  moreover have "pg_view ?t = (pg_view s)\<lparr>jv_info := (jv_info (pg_view s))(js \<mapsto> i)\<rparr>"
    "pg_issued ?t = pg_issued s" "pg_fits ?t = pg_fits s"
    using r by (simp_all add: pg_view_def pg_issued_def pg_fits_def read_row_def fun_eq_iff)
  moreover note pg_same [of "s\<lparr>pg_clock := Suc (pg_clock s),
    job_info := gm_put js (pg_jsonb E (json_text (JobInfo_json i))) (job_info s)\<rparr>" ?t]
  ultimately show ?case
    using pg_SetJobInfo_run [OF healthy 6(1,3,4)] by (simp add: PG_ServerState_def)
next
  case (7 s js)
  have "\<exists>r. json_unmarshal JobInfo_dec JobInfo0 t = Inr r"
    if "gm_get (job_info s) js = Some t" for t using 7(1) that unfolding pg_inv_def by blast
  then show ?case
    using pg_select_run [OF healthy 7, of "''job_info''" job_info]
    by (cases "gm_get (job_info s) js")
      (auto simp: 7(1) PG_ServerState_def pg_GetJobInfo_def schemas_def pg_view_def read_row_def)
next
  case (8 s j n)
  have "job_repo_seq s < max_int32" using 8(5) by (simp add: pg_fits_def)
  from pg_AddJob_run [OF healthy 8(1,3,4) this]
  obtain c m where add: "pg_AddJob E j s =
      (Ret (), insert_job (job_Spec j) (pg_jsonb E (json_text (AnalyzeJob_json j)))
        (s\<lparr>job_repo_seq := job_repo_seq s + 1, job_repo_map := m, pg_clock := c\<rparr>))"
    and inv: "pg_inv (s\<lparr>job_repo_seq := job_repo_seq s + 1, job_repo_map := m, pg_clock := c\<rparr>)"
    by blast
  let ?u = "s\<lparr>job_repo_seq := job_repo_seq s + 1, job_repo_map := m, pg_clock := c\<rparr>"
  have "pg_inv (insert_job (job_Spec j) (pg_jsonb E (json_text (AnalyzeJob_json j))) ?u)"
    by (rule insert_job_inv [OF inv])
      (use 8(2) stored_job [OF healthy 8(4)] in \<open>simp_all add: session_row_def pg_issued_def\<close>)
  moreover have "pg_view ?u = pg_view s" "pg_issued ?u = pg_issued s"
    by (simp_all add: pg_view_def pg_issued_def fun_eq_iff)
  moreover have "pg_fits (insert_job (job_Spec j) (pg_jsonb E (json_text (AnalyzeJob_json j))) ?u) n"
    using 8(5) by (simp add: pg_fits_def)
  ultimately show ?case
    using add by (simp add: PG_ServerState_def insert_job_view del: pg_clock_irrelevant)
next
  case (9 s sid)
  then show ?case
    using pg_GetJobList_run [OF healthy 9(1) issued_int4 [OF 9]] by (auto simp: PG_ServerState_def)
next
  case (10 s sid)
  then show ?case
    using pg_GetSessionStatus_run [OF healthy 10(1) issued_int4 [OF 10(1,2)]] set_pg_statuses [of s sid]
    by (simp add: PG_ServerState_def summarize_overall)
qed

lemma pg_GetJobSpecByRepoId_run:
  assumes "pg_healthy E" and "pg_inv s" and "map_of (job_repo_map s) i = Some nwo" and "job_repo_seq s \<le> max_int32"
  shows "pg_GetJobSpecByRepoId E sid i s =
    (Ret (Inr \<lparr>SessionID = sid, NWO = nwo\<rparr>), s\<lparr>pg_clock := Suc (pg_clock s)\<rparr>)"
proof -
  have "i \<in> fst ` set (job_repo_map s)" using assms(3) by (auto dest: map_of_SomeD intro: rev_image_eqI)
  then have "int4_ok i" using assms(2,4) by (force simp: pg_inv_def pg_repos_ok_def int4_ok_def)
  then have "pg_exec E ''job_repo_map'' (\<lambda>s. if \<not> int4_ok i then Inl bad_value
         else case map_of (job_repo_map s) i of None \<Rightarrow> Inl no_rows | Some nwo \<Rightarrow> Inr (nwo, s)) s =
      (Ret (Inr nwo), s\<lparr>pg_clock := Suc (pg_clock s)\<rparr>)"
    by (intro pg_exec_ok [OF assms(1,2)]) (use assms(3) in \<open>simp_all add: schemas_def\<close>)
  then show ?thesis by (simp add: pg_GetJobSpecByRepoId_def)
qed

definition pg_repo_ids :: "PGState \<Rightarrow> int \<Rightarrow> NameWithOwner option" where
  "pg_repo_ids s i = map_of (job_repo_map s) i"

lemma keeps_ids_exec:
  assumes "\<And>s a t i n. stmt s = Inr (a, t) \<Longrightarrow> pg_repo_ids s i = Some n \<Longrightarrow> pg_repo_ids t i = Some n"
  shows "keeps_ids pg_repo_ids (pg_exec E tbl stmt)"
  using assms unfolding keeps_ids_def pg_exec_def Let_def
  by (auto simp: pg_repo_ids_def split: sum.splits option.splits prod.splits)

lemma pg_keeps_ids:
  "keeps_ids pg_repo_ids (pg_NextID E)" "keeps_ids pg_repo_ids (pg_GetResult E js)"
  "keeps_ids pg_repo_ids (pg_GetJobSpecByRepoId E sid k)" "keeps_ids pg_repo_ids (pg_SetResult E js r)"
  "keeps_ids pg_repo_ids (pg_GetJobList E sid)" "keeps_ids pg_repo_ids (pg_GetJobInfo E js)"
  "keeps_ids pg_repo_ids (pg_SetJobInfo E js ji)" "keeps_ids pg_repo_ids (pg_GetStatus E js)"
  "keeps_ids pg_repo_ids (pg_GetSessionStatus E sid)" "keeps_ids pg_repo_ids (pg_SetStatus E js st)"
  "keeps_ids pg_repo_ids (pg_GetRepoId E nwo)"
  unfolding pg_NextID_def pg_GetResult_def pg_GetJobSpecByRepoId_def pg_SetResult_def pg_GetJobList_def
    pg_GetJobInfo_def pg_SetJobInfo_def pg_GetStatus_def pg_GetSessionStatus_def pg_SetStatus_def pg_GetRepoId_def
    pg_panic_def Let_def
  by (auto intro!: keeps_ids_bindP keeps_ids_exec
      simp: pg_select_def upsert_repo_def pg_repo_ids_def Let_def
      split: sum.splits option.splits prod.splits if_splits)

lemma pg_exec_value: "pg_exec E tbl stmt s = (Ret (Inr a), t) \<Longrightarrow> \<exists>s' t'. stmt s' = Inr (a, t')"
  by (auto simp: pg_exec_def Let_def split: if_splits sum.splits option.splits intro!: exI)

lemma pg_AddJob_keeps_ids: "keeps_ids pg_repo_ids (pg_AddJob E job)"
proof -
  let ?js = "job_Spec job" and ?jb = "json_text (AnalyzeJob_json job)"
  let ?ins = "pg_exec E ''analyze_jobs'' (\<lambda>s. if \<not> key_ok ?js \<or> \<not> jsonb_ok ?jb then Inl bad_value
      else Inr (insert_job ?js (pg_jsonb E ?jb), s))"
  let ?rest = "\<lambda>ins. bindP (pg_GetRepoId E (NWO ?js)) (\<lambda>jobRepoID.
      bindP (pg_exec E ''pg'' (\<lambda>s. Inr ((), ins s))) (\<lambda>committed.
        case committed of Inl err \<Rightarrow> pg_panic ''AddJob()'' err | Inr _ \<Rightarrow> retP ()))"
  have panic: "keeps_ids pg_repo_ids (pg_panic name err)" for name err by (simp add: pg_panic_def)
  have ins: "keeps_ids pg_repo_ids ?ins" by (rule keeps_ids_exec) (auto split: if_splits)
  have "keeps_ids pg_repo_ids (?rest (insert_job ?js (pg_jsonb E ?jb)))"
    by (auto intro!: keeps_ids_bindP keeps_ids_exec pg_keeps_ids panic
        simp: insert_job_def pg_repo_ids_def split: sum.splits option.splits)
  then have "keeps_ids pg_repo_ids (case pending of Inl err \<Rightarrow> pg_panic ''AddJob()'' err | Inr ins \<Rightarrow> ?rest ins)"
    if "?ins s = (Ret pending, t)" for pending s t
    using that pg_exec_value [of E "''analyze_jobs''" _ s _ t] by (cases pending) (fastforce simp: panic split: if_splits)+
  then have "keeps_ids pg_repo_ids (bindP ?ins (\<lambda>pending.
      case pending of Inl err \<Rightarrow> pg_panic ''AddJob()'' err | Inr ins \<Rightarrow> ?rest ins))"
    by (rule keeps_ids_bindP_post [OF ins])
  then show ?thesis
    unfolding pg_AddJob_def Let_def
    by (intro keeps_ids_bindP keeps_ids_exec) (auto intro: panic split: sum.splits)
qed

sublocale pg_server \<subseteq> server_state "PG_ServerState E" pg_inv pg_view pg_issued
  "\<lambda>s. session_id_seq s < max_int32" pg_fits key_ok pg_adm_job pg_adm_result pg_adm_info pg_repo_ids
proof (unfold_locales, goal_cases)
  case (1 s js n)
  have "text_ok (Owner (NWO js))" "text_ok (Repo (NWO js))" "job_repo_seq s < max_int32"
    using 1(2,3) by (simp_all add: key_ok_def pg_fits_def)
  from pg_GetRepoId_run [OF healthy 1(1) this]
  obtain i m where run: "pg_GetRepoId E (NWO js) s = (Ret i,
      s\<lparr>pg_clock := Suc (pg_clock s), job_repo_seq := job_repo_seq s + 1, job_repo_map := m\<rparr>)"
    and m: "(i, NWO js) \<in> set m" "set (job_repo_map s) \<subseteq> set m"
    and inv: "pg_inv (s\<lparr>pg_clock := Suc (pg_clock s), job_repo_seq := job_repo_seq s + 1, job_repo_map := m\<rparr>)"
    by blast
  let ?t = "s\<lparr>pg_clock := Suc (pg_clock s), job_repo_seq := job_repo_seq s + 1, job_repo_map := m\<rparr>"
  have "distinct (map fst m)" using inv by (simp add: pg_inv_def pg_repos_ok_def)
  then have "map_of m i = Some (NWO js)" using m by (auto dest: map_of_SomeD)
  moreover have "pg_view ?t = pg_view s" "pg_issued ?t = pg_issued s" "pg_fits ?t n"
    using 1(3) by (simp_all add: pg_view_def pg_issued_def pg_fits_def fun_eq_iff)
  ultimately show ?case using run inv by (simp add: PG_ServerState_def pg_repo_ids_def)
next
  case (2 s i nwo sid)
  have "job_repo_seq s \<le> max_int32" using 2(1) by (simp add: pg_inv_def pg_repos_ok_def)
  then show ?case
    using pg_GetJobSpecByRepoId_run [OF healthy 2(1), of i nwo sid] 2
    by (simp add: PG_ServerState_def pg_repo_ids_def fun_eq_iff)
next
  case (3 s sid js t)
  then show ?case
    using pg_GetJobList_run [OF healthy 3(1) issued_int4 [OF 3(1,2)]] by (simp add: PG_ServerState_def)
qed (simp_all add: PG_ServerState_def pg_keeps_ids pg_AddJob_keeps_ids)

context pg_server
begin

lemma contract: "server_state (PG_ServerState E) pg_inv pg_view pg_issued (\<lambda>s. session_id_seq s < max_int32) pg_fits
    key_ok pg_adm_job pg_adm_result pg_adm_info pg_repo_ids"
  by unfold_locales

end

text \<open>The laws hold of an actual environment: no faults, JSON kept as it is, rows as they come.\<close>

definition pg_plain :: pg_env where
  "pg_plain = \<lparr>pg_fault = (\<lambda>_. None), pg_cut = (\<lambda>_. None), pg_jsonb = (\<lambda>t. t), pg_order = (\<lambda>xs. xs)\<rparr>"

lemma pg_plain_healthy: "pg_healthy pg_plain"
  by (auto simp: pg_healthy_def pg_plain_def jsonb_faithful_def intro: jp_same)

interpretation pg: pg_server pg_plain
  by unfold_locales (rule pg_plain_healthy)

end
