(* ===== verification/RabbitMQ.thy ===== *)
theory RabbitMQ
  imports Queue
begin

text \<open>
  The queue on a RabbitMQ server, \<^verbatim>\<open>pkg/queue/queue_rabbitmq.go\<close>.  The AMQP client
  library is the parameter \<open>amqp\<close>, a record of the calls that the code makes; connections
  and channels are handles.  The loops \<^verbatim>\<open>ConsumeJobs\<close> and \<^verbatim>\<open>ConsumeResults\<close> run
  forever; one iteration of each is a definition.  The Go channels \<^verbatim>\<open>jobs\<close> and
  \<^verbatim>\<open>results\<close> have no buffer, and a message that a consumer sends is with its receiver; the
  endpoint keeps the list of the messages that were handed over.  Under the laws of a working
  broker a server endpoint, the broker and an agent endpoint together satisfy the contract of a queue.
\<close>

record 'b amqp =
  amqp_Dial :: "string \<Rightarrow> ('b, nat result) prog"
  amqp_IsClosed :: "nat \<Rightarrow> ('b, bool) prog"
  amqp_CloseConn :: "nat \<Rightarrow> ('b, unit) prog"
  amqp_Channel :: "nat \<Rightarrow> ('b, nat result) prog"
  amqp_CloseChannel :: "nat \<Rightarrow> ('b, unit) prog"
  amqp_QueueDeclare :: "nat \<Rightarrow> string \<Rightarrow> ('b, unit result) prog"
  amqp_Qos :: "nat \<Rightarrow> int \<Rightarrow> ('b, unit result) prog"
  amqp_Get :: "nat \<Rightarrow> string \<Rightarrow> ('b, (nat \<times> bytes) option result) prog"
  amqp_Ack :: "nat \<Rightarrow> nat \<Rightarrow> ('b, unit result) prog"
  amqp_Nack :: "nat \<Rightarrow> nat \<Rightarrow> ('b, unit result) prog"
  amqp_Confirm :: "nat \<Rightarrow> ('b, unit result) prog"
  amqp_NotifyPublish :: "nat \<Rightarrow> nat \<Rightarrow> ('b, nat) prog"
  amqp_Publish :: "nat \<Rightarrow> string \<Rightarrow> bytes \<Rightarrow> ('b, unit result) prog"
  amqp_Confirmation :: "nat \<Rightarrow> nat \<Rightarrow> ('b, bool) prog"

text \<open>
  \<open>amqp_Get\<close> with manual acknowledgement returns an error, nothing, or a delivery with its
  tag.  \<open>amqp_NotifyPublish ch n\<close> registers with the channel a listener for confirmations with
  \<open>n\<close> places and returns its number, and \<open>amqp_Confirmation ch l\<close> receives from listener
  \<open>l\<close>.
\<close>

record RabbitMQQueue =
  rq_conn :: "nat option"
  rq_channel :: "nat option"
  rq_connString :: string
  rq_isAgent :: bool

record 'b endpoint =
  ep_q :: RabbitMQQueue
  ep_net :: 'b
  ep_jobs :: "AnalyzeJob list"
  ep_results :: "AnalyzeResult list"

definition endpoint_at :: "RabbitMQQueue \<Rightarrow> 'b \<Rightarrow> 'b endpoint" where
  "endpoint_at q b = \<lparr>ep_q = q, ep_net = b, ep_jobs = [], ep_results = []\<rparr>"

lemma endpoint_at_sel [simp]:
  "ep_q (endpoint_at q b) = q" "ep_net (endpoint_at q b) = b" "ep_jobs (endpoint_at q b) = []" "ep_results (endpoint_at q b) = []"
  "(endpoint_at q b)\<lparr>ep_net := b'\<rparr> = endpoint_at q b'"
  by (simp_all add: endpoint_at_def)

definition net :: "('b, 'a) prog \<Rightarrow> ('b endpoint, 'a) prog" where
  "net m e = (case m (ep_net e) of (r, b) \<Rightarrow> (r, e\<lparr>ep_net := b\<rparr>))"

abbreviation nil_panic :: string where
  "nil_panic \<equiv> ''runtime error: invalid memory address or nil pointer dereference''"

section \<open>Connecting\<close>

abbreviation jobsQueueName :: string where "jobsQueueName \<equiv> ''tasks''"
abbreviation resultsQueueName :: string where "resultsQueueName \<equiv> ''results''"

fun dial_retry :: "'b amqp \<Rightarrow> string \<Rightarrow> nat \<Rightarrow> ('b, nat result) prog" where
  "dial_retry A url 0 = retP (Inl (ErrMsg ''no attempts''))"
| "dial_retry A url (Suc n) =
     bindP (amqp_Dial A url) (\<lambda>r.
       case r of
         Inr conn \<Rightarrow> retP (Inr conn)
       | Inl err \<Rightarrow> if n = 0 then retP (Inl err) else dial_retry A url n)"

definition tryCount :: nat where "tryCount = 5"

definition rabbit_url :: "string \<Rightarrow> int \<Rightarrow> string \<Rightarrow> string \<Rightarrow> string" where
  "rabbit_url host port user password =
     ''amqp://'' @ user @ '':'' @ password @ ''@'' @ host @ '':'' @ Itoa port @ ''/''"

definition close_with :: "'b amqp \<Rightarrow> nat \<Rightarrow> string \<Rightarrow> error \<Rightarrow> ('b, 'a result) prog" where
  "close_with A conn what err = seqP (amqp_CloseConn A conn) (retP (Inl (ErrWrap what err)))"

definition NewRabbitMQQueue ::
  "'b amqp \<Rightarrow> string \<Rightarrow> int \<Rightarrow> string \<Rightarrow> string \<Rightarrow> bool \<Rightarrow> ('b, RabbitMQQueue result) prog" where
  "NewRabbitMQQueue A host port user password isAgent =
     (let rabbitMQURL = rabbit_url host port user password in
      bindP (dial_retry A rabbitMQURL tryCount) (\<lambda>d.
        case d of
          Inl err \<Rightarrow> retP (Inl (ErrWrap ''failed to connect: '' err))
        | Inr conn \<Rightarrow>
            bindP (amqp_Channel A conn) (\<lambda>c.
              case c of
                Inl err \<Rightarrow> close_with A conn ''failed to open a channel: '' err
              | Inr ch \<Rightarrow>
                  bindP (amqp_QueueDeclare A ch jobsQueueName) (\<lambda>r1.
                    case r1 of
                      Inl err \<Rightarrow> close_with A conn ''failed to declare tasks queue: '' err
                    | Inr _ \<Rightarrow>
                        bindP (amqp_QueueDeclare A ch resultsQueueName) (\<lambda>r2.
                          case r2 of
                            Inl err \<Rightarrow> close_with A conn ''failed to declare results queue: '' err
                          | Inr _ \<Rightarrow>
                              bindP (amqp_Qos A ch 1) (\<lambda>r3.
                                case r3 of
                                  Inl err \<Rightarrow> close_with A conn ''failed to set QoS: '' err
                                | Inr _ \<Rightarrow>
                                    retP (Inr \<lparr>rq_conn = Some conn, rq_channel = Some ch,
                                      rq_connString = rabbitMQURL, rq_isAgent = isAgent\<rparr>)))))))"

definition rq_Close :: "'b amqp \<Rightarrow> ('b endpoint, unit) prog" where
  "rq_Close A = (\<lambda>e.
     case (rq_channel (ep_q e), rq_conn (ep_q e)) of
       (Some ch, Some conn) \<Rightarrow> seqP (net (amqp_CloseChannel A ch)) (net (amqp_CloseConn A conn)) e
     | (Some ch, None) \<Rightarrow> seqP (net (amqp_CloseChannel A ch)) (panicP nil_panic) e
     | (None, _) \<Rightarrow> (Panic nil_panic, e))"

definition reconnectIfNeeded :: "'b amqp \<Rightarrow> ('b endpoint, unit result) prog" where
  "reconnectIfNeeded A = (\<lambda>e.
     bindP
       (case rq_conn (ep_q e) of
          None \<Rightarrow> retP False
        | Some conn \<Rightarrow>
            bindP (net (amqp_IsClosed A conn)) (\<lambda>closed. retP (\<not> closed \<and> rq_channel (ep_q e) \<noteq> None)))
       (\<lambda>valid.
          if valid then retP (Inr ())
          else bindP (net (amqp_Dial A (rq_connString (ep_q e)))) (\<lambda>d.
            case d of
              Inl err \<Rightarrow> retP (Inl (ErrWrap ''failed to reconnect: '' err))
            | Inr conn \<Rightarrow>
                bindP (net (amqp_Channel A conn)) (\<lambda>c.
                  case c of
                    Inl err \<Rightarrow>
                      seqP (net (amqp_CloseConn A conn)) (retP (Inl (ErrWrap ''failed to open channel: '' err)))
                  | Inr ch \<Rightarrow>
                      (\<lambda>e. (Ret (Inr ()), e\<lparr>ep_q := (ep_q e)\<lparr>rq_conn := Some conn, rq_channel := Some ch\<rparr>\<rparr>)))))
       e)"

definition invalidateConnection :: "'b amqp \<Rightarrow> ('b endpoint, unit) prog" where
  "invalidateConnection A = (\<lambda>e.
     seqP (case rq_channel (ep_q e) of Some ch \<Rightarrow> net (amqp_CloseChannel A ch) | None \<Rightarrow> retP ())
       (seqP (case rq_conn (ep_q e) of Some conn \<Rightarrow> net (amqp_CloseConn A conn) | None \<Rightarrow> retP ())
          (\<lambda>e. (Ret (), e\<lparr>ep_q := (ep_q e)\<lparr>rq_channel := None, rq_conn := None\<rparr>\<rparr>))) e)"

section \<open>Publishing\<close>

text \<open>
  Publishing goes on after a failed \<^verbatim>\<open>Confirm\<close> or \<^verbatim>\<open>PublishWithContext\<close> and waits
  for a confirmation in every case.  Every publication registers a listener of its own, which it
  reads once and leaves registered.  A queue whose channel was given up panics.
\<close>

definition confirmChannelSize :: nat where "confirmChannelSize = 99999"

definition publish :: "'b amqp \<Rightarrow> string \<Rightarrow> bytes \<Rightarrow> ('b endpoint, unit) prog" where
  "publish A queueName body = (\<lambda>e.
     case rq_channel (ep_q e) of
       None \<Rightarrow> (Panic nil_panic, e)
     | Some ch \<Rightarrow>
         seqP (net (amqp_Confirm A ch))
           (bindP (net (amqp_NotifyPublish A ch confirmChannelSize)) (\<lambda>confirmations.
              seqP (net (amqp_Publish A ch queueName body))
                (seqP (net (amqp_Confirmation A ch confirmations)) (retP ())))) e)"

definition publishResult :: "'b amqp \<Rightarrow> string \<Rightarrow> AnalyzeResult \<Rightarrow> ('b endpoint, unit) prog" where
  "publishResult A queueName result = publish A queueName (json_text (AnalyzeResult_json result))"

definition publishJob :: "'b amqp \<Rightarrow> string \<Rightarrow> AnalyzeJob \<Rightarrow> ('b endpoint, unit) prog" where
  "publishJob A queueName job = publish A queueName (json_text (AnalyzeJob_json job))"

text \<open>The publishers serve their Go channel until it is closed.\<close>

definition PublishResults :: "'b amqp \<Rightarrow> string \<Rightarrow> AnalyzeResult list \<Rightarrow> ('b endpoint, unit) prog" where
  "PublishResults A queueName sent = forP sent (publishResult A queueName)"

definition PublishJobs :: "'b amqp \<Rightarrow> string \<Rightarrow> AnalyzeJob list \<Rightarrow> ('b endpoint, unit) prog" where
  "PublishJobs A queueName sent = forP sent (publishJob A queueName)"

section \<open>Consuming\<close>

text \<open>
  A message is handed over on the Go channel first, which waits for a worker that receives it, and
  acknowledged to the broker then.  The lists of the endpoint hold what was handed over, in order.
\<close>

definition to_jobs :: "AnalyzeJob \<Rightarrow> ('b endpoint, unit) prog" where
  "to_jobs j e = (Ret (), e\<lparr>ep_jobs := ep_jobs e @ [j]\<rparr>)"

definition to_results :: "AnalyzeResult \<Rightarrow> ('b endpoint, unit) prog" where
  "to_results r e = (Ret (), e\<lparr>ep_results := ep_results e @ [r]\<rparr>)"

definition ConsumeJobs_iter :: "'b amqp \<Rightarrow> string \<Rightarrow> ('b endpoint, unit) prog" where
  "ConsumeJobs_iter A queueName =
     bindP (reconnectIfNeeded A) (\<lambda>r.
       case r of
         Inl err \<Rightarrow> retP ()
       | Inr _ \<Rightarrow> (\<lambda>e.
           case rq_channel (ep_q e) of
             None \<Rightarrow> (Panic nil_panic, e)
           | Some ch \<Rightarrow>
               bindP (net (amqp_Get A ch queueName)) (\<lambda>g.
                 case g of
                   Inl err \<Rightarrow> invalidateConnection A
                 | Inr None \<Rightarrow> retP ()
                 | Inr (Some (tag, body)) \<Rightarrow>
                     (case json_unmarshal AnalyzeJob_dec AnalyzeJob0 body of
                        Inl err \<Rightarrow> seqP (net (amqp_Nack A ch tag)) (retP ())
                      | Inr job \<Rightarrow>
                          seqP (to_jobs job)
                            (seqP (net (amqp_Ack A ch tag)) (retP ())))) e))"

definition ConsumeResults_iter :: "'b amqp \<Rightarrow> string \<Rightarrow> ('b endpoint, unit) prog" where
  "ConsumeResults_iter A queueName =
     bindP (reconnectIfNeeded A) (\<lambda>r.
       case r of
         Inl err \<Rightarrow> retP ()
       | Inr _ \<Rightarrow> (\<lambda>e.
           case rq_channel (ep_q e) of
             None \<Rightarrow> (Panic nil_panic, e)
           | Some ch \<Rightarrow>
               bindP (net (amqp_Get A ch queueName)) (\<lambda>g.
                 case g of
                   Inl err \<Rightarrow> retP ()
                 | Inr None \<Rightarrow> retP ()
                 | Inr (Some (tag, body)) \<Rightarrow>
                     (case json_unmarshal AnalyzeResult_dec AnalyzeResult0 body of
                        Inl err \<Rightarrow> seqP (net (amqp_Nack A ch tag)) (retP ())
                      | Inr result \<Rightarrow>
                          seqP (to_results result)
                            (seqP (net (amqp_Ack A ch tag)) (retP ())))) e))"

section \<open>Two endpoints and a broker\<close>

record 'b rabbit_system =
  rs_server :: RabbitMQQueue
  rs_agent :: RabbitMQQueue
  rs_net :: 'b

definition at_server :: "('b endpoint, 'a) prog \<Rightarrow> ('b rabbit_system, 'a) prog" where
  "at_server m s = (case m (endpoint_at (rs_server s) (rs_net s)) of
     (r, e) \<Rightarrow> (r, s\<lparr>rs_server := ep_q e, rs_net := ep_net e\<rparr>))"

definition at_agent :: "('b endpoint, 'a) prog \<Rightarrow> ('b rabbit_system, 'a) prog" where
  "at_agent m s = (case m (endpoint_at (rs_agent s) (rs_net s)) of
     (r, e) \<Rightarrow> (r, s\<lparr>rs_agent := ep_q e, rs_net := ep_net e\<rparr>))"

text \<open>
  A receiver on the Go channel gets the message that the consumer's iteration handed over, and
  waits while the iterations hand over nothing.
\<close>

definition await :: "('b endpoint, unit) prog \<Rightarrow> ('b endpoint \<Rightarrow> 'x list) \<Rightarrow> ('b endpoint, 'x option) prog" where
  "await iter handed = bindP iter (\<lambda>_ e. case handed e of x # _ \<Rightarrow> (Ret (Some x), e) | [] \<Rightarrow> (Hang, e))"

definition Rabbit_Queue :: "'b amqp \<Rightarrow> 'b rabbit_system Queue" where
  "Rabbit_Queue A =
     \<lparr>q_SendJob = (\<lambda>j. at_server (publishJob A jobsQueueName j)),
      q_RecvJob = at_agent (await (ConsumeJobs_iter A jobsQueueName) ep_jobs),
      q_SendResult = (\<lambda>r. at_agent (publishResult A resultsQueueName r)),
      q_RecvResult = at_server (await (ConsumeResults_iter A resultsQueueName) ep_results),
      q_Close = seqP (at_server (rq_Close A)) (at_agent (rq_Close A))\<rparr>"

section \<open>A working broker\<close>

text \<open>
  What the code relies on of a broker that is up: a queue is a first-in first-out list of
  messages; publishing appends, getting removes the oldest, acknowledging changes no queue; the
  open connections and channels stay open.  The listeners of a channel have a capacity and a
  number of confirmations that wait to be read.  The client library hands the confirmation of a
  message to the listeners of the channel one after the other, in the order of their registration,
  and waits where the buffer is full: no listener after a full one gets it.
\<close>

record broker_view =
  bv_msgs :: "string \<Rightarrow> bytes list"
  bv_conns :: "nat set"
  bv_chans :: "nat set"
  bv_listeners :: "nat \<Rightarrow> (nat \<times> nat) list"

definition full :: "nat \<times> nat \<Rightarrow> bool" where
  "full l \<longleftrightarrow> fst l \<le> snd l"

definition amqp_laws :: "'b amqp \<Rightarrow> ('b \<Rightarrow> bool) \<Rightarrow> ('b \<Rightarrow> broker_view) \<Rightarrow> bool" where
  "amqp_laws A up V \<longleftrightarrow>
     (\<forall>b c. up b \<and> c \<in> bv_conns (V b) \<longrightarrow> (\<exists>b'. amqp_IsClosed A c b = (Ret False, b') \<and> up b' \<and> V b' = V b)) \<and>
     (\<forall>b ch. up b \<and> ch \<in> bv_chans (V b) \<longrightarrow> (\<exists>r b'. amqp_Confirm A ch b = (Ret r, b') \<and> up b' \<and> V b' = V b)) \<and>
     (\<forall>b ch n. up b \<and> ch \<in> bv_chans (V b) \<longrightarrow>
        (\<exists>b'. amqp_NotifyPublish A ch n b = (Ret (length (bv_listeners (V b) ch)), b') \<and> up b' \<and>
           V b' = (V b)\<lparr>bv_listeners := (bv_listeners (V b))(ch := bv_listeners (V b) ch @ [(n, 0)])\<rparr>)) \<and>
     (\<forall>b ch q m. up b \<and> ch \<in> bv_chans (V b) \<and> \<not> list_ex full (bv_listeners (V b) ch) \<longrightarrow>
        (\<exists>b'. amqp_Publish A ch q m b = (Ret (Inr ()), b') \<and> up b' \<and>
           V b' = (V b)\<lparr>bv_msgs := (bv_msgs (V b))(q := bv_msgs (V b) q @ [m]),
             bv_listeners := (bv_listeners (V b))(ch := map (apsnd Suc) (bv_listeners (V b) ch))\<rparr>)) \<and>
     (\<forall>b ch ls n q m. up b \<and> ch \<in> bv_chans (V b) \<and> bv_listeners (V b) ch = ls @ [(n, 0)] \<and> list_ex full ls \<longrightarrow>
        (\<exists>r b'. amqp_Publish A ch q m b = (Ret r, b') \<and> fst (amqp_Confirmation A ch (length ls) b') = Hang)) \<and>
     (\<forall>b ch l n k. up b \<and> ch \<in> bv_chans (V b) \<and> l < length (bv_listeners (V b) ch) \<and> bv_listeners (V b) ch ! l = (n, Suc k) \<longrightarrow>
        (\<exists>r b'. amqp_Confirmation A ch l b = (Ret r, b') \<and> up b' \<and>
           V b' = (V b)\<lparr>bv_listeners := (bv_listeners (V b))(ch := (bv_listeners (V b) ch)[l := (n, k)])\<rparr>)) \<and>
     (\<forall>b ch q m ms. up b \<and> ch \<in> bv_chans (V b) \<and> bv_msgs (V b) q = m # ms \<longrightarrow>
        (\<exists>tag b'. amqp_Get A ch q b = (Ret (Inr (Some (tag, m))), b') \<and> up b' \<and>
           V b' = (V b)\<lparr>bv_msgs := (bv_msgs (V b))(q := ms)\<rparr>)) \<and>
     (\<forall>b ch tag. up b \<and> ch \<in> bv_chans (V b) \<longrightarrow>
        (\<exists>r b'. amqp_Ack A ch tag b = (Ret r, b') \<and> up b' \<and> V b' = V b))"

lemma amqp_lawsD:
  assumes "amqp_laws A up V" and "up b"
  shows "c \<in> bv_conns (V b) \<Longrightarrow> \<exists>b'. amqp_IsClosed A c b = (Ret False, b') \<and> up b' \<and> V b' = V b"
    and "ch \<in> bv_chans (V b) \<Longrightarrow> \<exists>r b'. amqp_Confirm A ch b = (Ret r, b') \<and> up b' \<and> V b' = V b"
    and "ch \<in> bv_chans (V b) \<Longrightarrow> bv_msgs (V b) q = m # ms \<Longrightarrow>
        \<exists>tag b'. amqp_Get A ch q b = (Ret (Inr (Some (tag, m))), b') \<and> up b' \<and>
           V b' = (V b)\<lparr>bv_msgs := (bv_msgs (V b))(q := ms)\<rparr>"
    and "ch \<in> bv_chans (V b) \<Longrightarrow> \<exists>r b'. amqp_Ack A ch tag b = (Ret r, b') \<and> up b' \<and> V b' = V b"
  using assms unfolding amqp_laws_def by meson+

lemma amqp_publishD:
  assumes "amqp_laws A up V" and "up b"
  shows "ch \<in> bv_chans (V b) \<Longrightarrow> \<exists>b'. amqp_NotifyPublish A ch n b = (Ret (length (bv_listeners (V b) ch)), b') \<and> up b' \<and>
           V b' = (V b)\<lparr>bv_listeners := (bv_listeners (V b))(ch := bv_listeners (V b) ch @ [(n, 0)])\<rparr>"
    and "ch \<in> bv_chans (V b) \<Longrightarrow> \<not> list_ex full (bv_listeners (V b) ch) \<Longrightarrow>
        \<exists>b'. amqp_Publish A ch q m b = (Ret (Inr ()), b') \<and> up b' \<and>
           V b' = (V b)\<lparr>bv_msgs := (bv_msgs (V b))(q := bv_msgs (V b) q @ [m]),
             bv_listeners := (bv_listeners (V b))(ch := map (apsnd Suc) (bv_listeners (V b) ch))\<rparr>"
    and "ch \<in> bv_chans (V b) \<Longrightarrow> bv_listeners (V b) ch = ls @ [(n, 0)] \<Longrightarrow> list_ex full ls \<Longrightarrow>
        \<exists>r b'. amqp_Publish A ch q m b = (Ret r, b') \<and> fst (amqp_Confirmation A ch (length ls) b') = Hang"
    and "ch \<in> bv_chans (V b) \<Longrightarrow> l < length (bv_listeners (V b) ch) \<Longrightarrow> bv_listeners (V b) ch ! l = (n, Suc k) \<Longrightarrow>
        \<exists>r b'. amqp_Confirmation A ch l b = (Ret r, b') \<and> up b' \<and>
           V b' = (V b)\<lparr>bv_listeners := (bv_listeners (V b))(ch := (bv_listeners (V b) ch)[l := (n, k)])\<rparr>"
  using assms unfolding amqp_laws_def by meson+

definition connected :: "broker_view \<Rightarrow> RabbitMQQueue \<Rightarrow> bool" where
  "connected v q \<longleftrightarrow> (\<exists>c ch. rq_conn q = Some c \<and> rq_channel q = Some ch \<and> c \<in> bv_conns v \<and> ch \<in> bv_chans v)"

text \<open>
  A publication on a channel without a full listener: the message is queued, its confirmation is
  read, and every older listener has one more confirmation that nobody reads.  With a full
  listener the confirmation never arrives.
\<close>

definition published :: "broker_view \<Rightarrow> nat \<Rightarrow> string \<Rightarrow> bytes \<Rightarrow> broker_view" where
  "published v ch q m = v\<lparr>bv_msgs := (bv_msgs v)(q := bv_msgs v q @ [m]),
     bv_listeners := (bv_listeners v)(ch := map (apsnd Suc) (bv_listeners v ch) @ [(confirmChannelSize, 0)])\<rparr>"

lemma published_sel [simp]:
  "bv_msgs (published v ch q m) = (bv_msgs v)(q := bv_msgs v q @ [m])"
  "bv_conns (published v ch q m) = bv_conns v" "bv_chans (published v ch q m) = bv_chans v"
  "bv_listeners (published v ch q m) =
     (bv_listeners v)(ch := map (apsnd Suc) (bv_listeners v ch) @ [(confirmChannelSize, 0)])"
  "connected (published v ch q m) rq = connected v rq"
  by (simp_all add: published_def connected_def)

lemma publish_run:
  assumes L: "amqp_laws A up V" and e: "up (ep_net e)" "connected (V (ep_net e)) (ep_q e)"
    and ch: "rq_channel (ep_q e) = Some ch" and free: "\<not> list_ex full (bv_listeners (V (ep_net e)) ch)"
  shows "\<exists>b. publish A q m e = (Ret (), e\<lparr>ep_net := b\<rparr>) \<and> up b \<and> V b = published (V (ep_net e)) ch q m"
proof -
  let ?ls = "bv_listeners (V (ep_net e)) ch"
  have open_ch: "ch \<in> bv_chans (V (ep_net e))" using e(2) ch by (auto simp: connected_def)
  obtain r1 b1 where b1: "amqp_Confirm A ch (ep_net e) = (Ret r1, b1)" "up b1" "V b1 = V (ep_net e)"
    using amqp_lawsD(2) [OF L e(1) open_ch] by blast
  obtain b2 where b2: "amqp_NotifyPublish A ch confirmChannelSize b1 = (Ret (length ?ls), b2)" "up b2"
    "V b2 = (V (ep_net e))\<lparr>bv_listeners := (bv_listeners (V (ep_net e)))(ch := ?ls @ [(confirmChannelSize, 0)])\<rparr>"
    using amqp_publishD(1) [OF L b1(2)] open_ch b1(3) by metis
  have "\<not> list_ex full (bv_listeners (V b2) ch)"
    using free b2(3) by (simp add: full_def confirmChannelSize_def)
  then obtain b3 where b3: "amqp_Publish A ch q m b2 = (Ret (Inr ()), b3)" "up b3"
    "V b3 = (V b2)\<lparr>bv_msgs := (bv_msgs (V b2))(q := bv_msgs (V b2) q @ [m]),
       bv_listeners := (bv_listeners (V b2))(ch := map (apsnd Suc) (bv_listeners (V b2) ch))\<rparr>"
    using amqp_publishD(2) [OF L b2(2), of ch q m] open_ch b2(3) by auto
  have "ch \<in> bv_chans (V b3)" "length ?ls < length (bv_listeners (V b3) ch)"
    "bv_listeners (V b3) ch ! length ?ls = (confirmChannelSize, Suc 0)"
    using open_ch b2(3) b3(3) by (simp_all add: nth_append)
  then obtain r4 b4 where b4: "amqp_Confirmation A ch (length ?ls) b3 = (Ret r4, b4)" "up b4"
    "V b4 = (V b3)\<lparr>bv_listeners := (bv_listeners (V b3))(ch := (bv_listeners (V b3) ch)[length ?ls := (confirmChannelSize, 0)])\<rparr>"
    using amqp_publishD(4) [OF L b3(2)] by blast
  have "V b4 = published (V (ep_net e)) ch q m"
    using b2(3) b3(3) b4(3) by (simp add: published_def list_update_append)
  then show ?thesis using ch b1 b2 b3 b4 by (intro exI [of _ b4]) (simp add: publish_def net_def bindP_def seqP_def)
qed

lemma publish_blocks:
  assumes L: "amqp_laws A up V" and e: "up (ep_net e)" "connected (V (ep_net e)) (ep_q e)"
    and ch: "rq_channel (ep_q e) = Some ch" and full: "list_ex full (bv_listeners (V (ep_net e)) ch)"
  shows "fst (publish A q m e) = Hang"
proof -
  let ?ls = "bv_listeners (V (ep_net e)) ch"
  have open_ch: "ch \<in> bv_chans (V (ep_net e))" using e(2) ch by (auto simp: connected_def)
  obtain r1 b1 where b1: "amqp_Confirm A ch (ep_net e) = (Ret r1, b1)" "up b1" "V b1 = V (ep_net e)"
    using amqp_lawsD(2) [OF L e(1) open_ch] by blast
  obtain b2 where b2: "amqp_NotifyPublish A ch confirmChannelSize b1 = (Ret (length ?ls), b2)" "up b2"
    "V b2 = (V (ep_net e))\<lparr>bv_listeners := (bv_listeners (V (ep_net e)))(ch := ?ls @ [(confirmChannelSize, 0)])\<rparr>"
    using amqp_publishD(1) [OF L b1(2)] open_ch b1(3) by metis
  have "ch \<in> bv_chans (V b2)" "bv_listeners (V b2) ch = ?ls @ [(confirmChannelSize, 0)]"
    using open_ch b2(3) by simp_all
  then obtain r3 b3 where b3: "amqp_Publish A ch q m b2 = (Ret r3, b3)" "fst (amqp_Confirmation A ch (length ?ls) b3) = Hang"
    using amqp_publishD(3) [OF L b2(2) _ _ full] by blast
  then obtain b4 where "amqp_Confirmation A ch (length ?ls) b3 = (Hang, b4)"
    by (cases "amqp_Confirmation A ch (length ?ls) b3") simp
  then show ?thesis using ch b1 b2 b3(1) by (simp add: publish_def net_def bindP_def seqP_def)
qed

text \<open>The number of messages that can still be published on a channel with these listeners.\<close>

definition listen_free :: "(nat \<times> nat) list \<Rightarrow> nat \<Rightarrow> bool" where
  "listen_free ls n \<longleftrightarrow> n \<le> Suc confirmChannelSize \<and> (\<forall>(c, k) \<in> set ls. k + n \<le> c)"

lemma listen_free_Suc:
  "listen_free ls (Suc n) \<longleftrightarrow> \<not> list_ex full ls \<and> listen_free (map (apsnd Suc) ls @ [(confirmChannelSize, 0)]) n"
  by (fastforce simp: listen_free_def full_def list_ex_iff)

text \<open>A connected endpoint does not reconnect.\<close>

lemma reconnect_run:
  assumes L: "amqp_laws A up V" and e: "up (ep_net e)" "connected (V (ep_net e)) (ep_q e)"
  shows "\<exists>b. reconnectIfNeeded A e = (Ret (Inr ()), e\<lparr>ep_net := b\<rparr>) \<and> up b \<and> V b = V (ep_net e)"
proof -
  obtain c ch where c: "rq_conn (ep_q e) = Some c" "rq_channel (ep_q e) = Some ch" "c \<in> bv_conns (V (ep_net e))"
    using e(2) by (auto simp: connected_def)
  obtain b where "amqp_IsClosed A c (ep_net e) = (Ret False, b)" "up b" "V b = V (ep_net e)"
    using amqp_lawsD(1) [OF L e(1) c(3)] by blast
  moreover from this have "net (amqp_IsClosed A c) e = (Ret False, e\<lparr>ep_net := b\<rparr>)" by (simp add: net_def)
  ultimately show ?thesis using c by (intro exI [of _ b]) (simp add: reconnectIfNeeded_def bindP_def)
qed

text \<open>One iteration on a queue whose oldest message decodes: the message is handed on.\<close>

lemma consume_run:
  assumes L: "amqp_laws A up V" and e: "up (ep_net e)" "connected (V (ep_net e)) (ep_q e)"
    and q: "bv_msgs (V (ep_net e)) q = m # ms"
  shows "json_unmarshal AnalyzeJob_dec AnalyzeJob0 m = Inr j \<Longrightarrow>
      \<exists>b. ConsumeJobs_iter A q e = (Ret (), e\<lparr>ep_net := b, ep_jobs := ep_jobs e @ [j]\<rparr>) \<and> up b \<and>
        V b = (V (ep_net e))\<lparr>bv_msgs := (bv_msgs (V (ep_net e)))(q := ms)\<rparr>" (is "_ \<Longrightarrow> ?jobs")
    and "json_unmarshal AnalyzeResult_dec AnalyzeResult0 m = Inr r \<Longrightarrow>
      \<exists>b. ConsumeResults_iter A q e = (Ret (), e\<lparr>ep_net := b, ep_results := ep_results e @ [r]\<rparr>) \<and> up b \<and>
        V b = (V (ep_net e))\<lparr>bv_msgs := (bv_msgs (V (ep_net e)))(q := ms)\<rparr>" (is "_ \<Longrightarrow> ?results")
proof -
  obtain b where b: "reconnectIfNeeded A e = (Ret (Inr ()), e\<lparr>ep_net := b\<rparr>)" "up b" "V b = V (ep_net e)"
    using reconnect_run [OF L e] by blast
  obtain ch where ch: "rq_channel (ep_q e) = Some ch" "ch \<in> bv_chans (V b)"
    using e(2) b(3) by (auto simp: connected_def)
  obtain tag b1 where b1: "amqp_Get A ch q b = (Ret (Inr (Some (tag, m))), b1)" "up b1"
    "V b1 = (V b)\<lparr>bv_msgs := (bv_msgs (V b))(q := ms)\<rparr>"
    using amqp_lawsD(3) [OF L b(2) ch(2)] q b(3) by metis
  obtain r2 b2 where b2: "amqp_Ack A ch tag b1 = (Ret r2, b2)" "up b2" "V b2 = V b1"
    using amqp_lawsD(4) [OF L b1(2), of ch tag] ch(2) b1(3) by auto
  show "json_unmarshal AnalyzeJob_dec AnalyzeJob0 m = Inr j \<Longrightarrow> ?jobs"
    using b ch b1 b2 by (intro exI [of _ b2]) (simp add: ConsumeJobs_iter_def net_def to_jobs_def bindP_def seqP_def)
  show "json_unmarshal AnalyzeResult_dec AnalyzeResult0 m = Inr r \<Longrightarrow> ?results"
    using b ch b1 b2 by (intro exI [of _ b2]) (simp add: ConsumeResults_iter_def net_def to_results_def bindP_def seqP_def)
qed

definition decodes :: "'a field_dec \<Rightarrow> 'a \<Rightarrow> bytes \<Rightarrow> bool" where
  "decodes d z m \<longleftrightarrow> \<not> isl (json_unmarshal d z m)"

text \<open>The server and the agent have each a channel of their own.\<close>

definition rabbit_ok :: "('b \<Rightarrow> bool) \<Rightarrow> ('b \<Rightarrow> broker_view) \<Rightarrow> 'b rabbit_system \<Rightarrow> bool" where
  "rabbit_ok up V s \<longleftrightarrow> up (rs_net s) \<and> connected (V (rs_net s)) (rs_server s) \<and>
     connected (V (rs_net s)) (rs_agent s) \<and> rq_channel (rs_server s) \<noteq> rq_channel (rs_agent s) \<and>
     list_all (decodes AnalyzeJob_dec AnalyzeJob0) (bv_msgs (V (rs_net s)) jobsQueueName) \<and>
     list_all (decodes AnalyzeResult_dec AnalyzeResult0) (bv_msgs (V (rs_net s)) resultsQueueName)"

definition rabbit_jobs :: "('b \<Rightarrow> broker_view) \<Rightarrow> 'b rabbit_system \<Rightarrow> AnalyzeJob list" where
  "rabbit_jobs V s = map (\<lambda>m. projr (json_unmarshal AnalyzeJob_dec AnalyzeJob0 m)) (bv_msgs (V (rs_net s)) jobsQueueName)"

definition rabbit_results :: "('b \<Rightarrow> broker_view) \<Rightarrow> 'b rabbit_system \<Rightarrow> AnalyzeResult list" where
  "rabbit_results V s =
     map (\<lambda>m. projr (json_unmarshal AnalyzeResult_dec AnalyzeResult0 m)) (bv_msgs (V (rs_net s)) resultsQueueName)"

text \<open>The server can publish \<open>n\<close> more jobs, and the agent \<open>n\<close> more results.\<close>

definition channel_free :: "broker_view \<Rightarrow> RabbitMQQueue \<Rightarrow> nat \<Rightarrow> bool" where
  "channel_free v q n = (case rq_channel q of Some ch \<Rightarrow> listen_free (bv_listeners v ch) n | None \<Rightarrow> False)"

definition rabbit_free_jobs :: "('b \<Rightarrow> broker_view) \<Rightarrow> 'b rabbit_system \<Rightarrow> nat \<Rightarrow> bool" where
  "rabbit_free_jobs V s = channel_free (V (rs_net s)) (rs_server s)"

definition rabbit_free_results :: "('b \<Rightarrow> broker_view) \<Rightarrow> 'b rabbit_system \<Rightarrow> nat \<Rightarrow> bool" where
  "rabbit_free_results V s = channel_free (V (rs_net s)) (rs_agent s)"

lemmas rabbit_view_defs = rabbit_ok_def rabbit_jobs_def rabbit_results_def rabbit_free_jobs_def rabbit_free_results_def

lemma connected_msgs [simp]:
  "connected (v\<lparr>bv_msgs := ms\<rparr>) q = connected v q" "channel_free (v\<lparr>bv_msgs := ms\<rparr>) q = channel_free v q"
  by (simp_all add: connected_def channel_free_def fun_eq_iff split: option.split)

lemma channel_free_published:
  "rq_channel q = Some ch \<Longrightarrow> channel_free v q (Suc n) \<Longrightarrow> channel_free (published v ch name m) q n"
  "rq_channel q = Some ch \<Longrightarrow> channel_free v q (Suc n) \<Longrightarrow> \<not> list_ex full (bv_listeners v ch)"
  "rq_channel q \<noteq> Some ch \<Longrightarrow> channel_free (published v ch name m) q = channel_free v q"
  by (auto simp: channel_free_def listen_free_Suc fun_eq_iff split: option.split)

lemma decodes_iff: "decodes d z m \<Longrightarrow> json_unmarshal d z m = Inr (projr (json_unmarshal d z m))"
  by (auto simp: decodes_def isl_def)

text \<open>A publication by one endpoint either returns with its effect or waits forever.\<close>

lemma publish_or_blocks:
  assumes L: "amqp_laws A up V" and s: "up b" "connected (V b) q"
  obtains (sent) ch b' where "rq_channel q = Some ch" "publish A name m (endpoint_at q b) = (Ret (), endpoint_at q b')" "up b'"
      "V b' = published (V b) ch name m"
    | (blocked) "fst (publish A name m (endpoint_at q b)) = Hang" "\<forall>n. \<not> channel_free (V b) q (Suc n)"
proof -
  obtain ch where ch: "rq_channel q = Some ch" using s(2) by (auto simp: connected_def)
  show thesis
  proof (cases "list_ex full (bv_listeners (V b) ch)")
    case True
    then show thesis
      using publish_blocks [OF L, of "endpoint_at q b" ch name m] s ch blocked channel_free_published(2) [OF ch] by auto
  next
    case False
    then show thesis using publish_run [OF L, of "endpoint_at q b" ch name m] s ch sent by auto
  qed
qed

lemma rabbit_job_queue:
  assumes L: "amqp_laws A up V"
  shows "job_queue (Rabbit_Queue A) (rabbit_ok up V) (rabbit_jobs V) (rabbit_results V)
    (rabbit_free_jobs V) (rabbit_free_results V) wf_AnalyzeJob wf_AnalyzeResult"
proof (unfold_locales, goal_cases)
  case (1 s j)
  then have s: "up (rs_net s)" "connected (V (rs_net s)) (rs_server s)" by (simp_all add: rabbit_ok_def)
  from L s show ?case
  proof (cases rule: publish_or_blocks [where name = jobsQueueName and m = "json_text (AnalyzeJob_json j)"])
    case (sent ch b)
    with 1 AnalyzeJob_unmarshal [OF 1(2)] show ?thesis
      by (auto simp: rabbit_view_defs Rabbit_Queue_def publishJob_def at_server_def decodes_def
          channel_free_published(3) intro: channel_free_published(1) [OF sent(1)])
  next
    case blocked
    then show ?thesis
      by (auto simp: rabbit_free_jobs_def Rabbit_Queue_def publishJob_def at_server_def split: prod.split)
  qed
next
  case (2 s j js)
  let ?e = "endpoint_at (rs_agent s) (rs_net s)"
  obtain m ms where m: "bv_msgs (V (rs_net s)) jobsQueueName = m # ms"
    using 2(2) by (auto simp: rabbit_jobs_def)
  have "decodes AnalyzeJob_dec AnalyzeJob0 m" using 2(1) m by (simp add: rabbit_ok_def)
  then have "json_unmarshal AnalyzeJob_dec AnalyzeJob0 m = Inr j"
    using decodes_iff 2(2) m by (fastforce simp: rabbit_jobs_def)
  then show ?case
    using consume_run(1) [OF L, of ?e jobsQueueName m ms j] 2 m
    by (auto simp: rabbit_view_defs Rabbit_Queue_def at_agent_def await_def)
next
  case (3 s r)
  then have s: "up (rs_net s)" "connected (V (rs_net s)) (rs_agent s)" by (simp_all add: rabbit_ok_def)
  from L s show ?case
  proof (cases rule: publish_or_blocks [where name = resultsQueueName and m = "json_text (AnalyzeResult_json r)"])
    case (sent ch b)
    with 3 AnalyzeResult_unmarshal [OF 3(2)] show ?thesis
      by (auto simp: rabbit_view_defs Rabbit_Queue_def publishResult_def at_agent_def decodes_def
          channel_free_published(3) intro: channel_free_published(1) [OF sent(1)])
  next
    case blocked
    then show ?thesis
      by (auto simp: rabbit_free_results_def Rabbit_Queue_def publishResult_def at_agent_def split: prod.split)
  qed
next
  case (4 s r rs)
  let ?e = "endpoint_at (rs_server s) (rs_net s)"
  obtain m ms where m: "bv_msgs (V (rs_net s)) resultsQueueName = m # ms"
    using 4(2) by (auto simp: rabbit_results_def)
  have "decodes AnalyzeResult_dec AnalyzeResult0 m" using 4(1) m by (simp add: rabbit_ok_def)
  then have "json_unmarshal AnalyzeResult_dec AnalyzeResult0 m = Inr r"
    using decodes_iff 4(2) m by (fastforce simp: rabbit_results_def)
  then show ?case
    using consume_run(2) [OF L, of ?e resultsQueueName m ms r] 4 m
    by (auto simp: rabbit_view_defs Rabbit_Queue_def at_server_def await_def)
next
  case (5 s n)
  then show ?case by (auto simp: rabbit_free_jobs_def channel_free_def listen_free_def split: option.splits)
next
  case (6 s n)
  then show ?case by (auto simp: rabbit_free_results_def channel_free_def listen_free_def split: option.splits)
qed

section \<open>Delivery\<close>

text \<open>\<open>n\<close> iterations of the consumer.\<close>

fun ConsumeJobs_run :: "'b amqp \<Rightarrow> nat \<Rightarrow> ('b endpoint, unit) prog" where
  "ConsumeJobs_run A 0 = retP ()"
| "ConsumeJobs_run A (Suc n) = seqP (ConsumeJobs_iter A jobsQueueName) (ConsumeJobs_run A n)"

lemma publish_jobs_run:
  assumes L: "amqp_laws A up V" and "up b" and "connected (V b) q" and "channel_free (V b) q (length js)"
  shows "\<exists>b'. PublishJobs A name js (endpoint_at q b) = (Ret (), endpoint_at q b') \<and> up b'
    \<and> (\<forall>q'. connected (V b') q' = connected (V b) q')
    \<and> bv_msgs (V b') = (bv_msgs (V b))(name := bv_msgs (V b) name @ map (\<lambda>j. json_text (AnalyzeJob_json j)) js)"
  using assms(2-)
proof (induction js arbitrary: b)
  case Nil
  then show ?case by (intro exI [of _ b]) (simp add: PublishJobs_def)
next
  case (Cons j js)
  from L Cons.prems(1,2) show ?case
  proof (cases rule: publish_or_blocks [where name = name and m = "json_text (AnalyzeJob_json j)"])
    case (sent ch c)
    have "connected (V c) q" "channel_free (V c) q (length js)"
      using Cons.prems(2,3) sent(4) by (simp_all add: channel_free_published(1) [OF sent(1)])
    from Cons.IH [OF sent(3) this] obtain b' where "PublishJobs A name js (endpoint_at q c) = (Ret (), endpoint_at q b')" "up b'"
      "\<forall>q'. connected (V b') q' = connected (V c) q'"
      "bv_msgs (V b') = (bv_msgs (V c))(name := bv_msgs (V c) name @ map (\<lambda>j. json_text (AnalyzeJob_json j)) js)"
      by blast
    with sent show ?thesis by (intro exI [of _ b']) (simp add: PublishJobs_def publishJob_def)
  next
    case blocked
    with Cons.prems(3) show ?thesis by simp
  qed
qed

lemma publish_jobs_block:
  assumes L: "amqp_laws A up V" and "up b" and "connected (V b) q" and "rq_channel q = Some ch"
    and "\<not> listen_free (bv_listeners (V b) ch) (length js)" and "\<forall>(c, k) \<in> set (bv_listeners (V b) ch). k \<le> c"
  shows "fst (PublishJobs A name js (endpoint_at q b)) = Hang"
  using assms(2,3,5,6)
proof (induction js arbitrary: b)
  case Nil
  then show ?case by (simp add: listen_free_def)
next
  case (Cons j js)
  let ?e = "endpoint_at q b"
  show ?case
  proof (cases "list_ex full (bv_listeners (V b) ch)")
    case True
    then have "fst (publishJob A name j ?e) = Hang"
      using publish_blocks [OF L, of ?e ch name] Cons.prems(1,2) assms(4) by (simp add: publishJob_def)
    then show ?thesis by (cases "publishJob A name j ?e") (simp add: PublishJobs_def)
  next
    case False
    then obtain c where c: "publishJob A name j ?e = (Ret (), endpoint_at q c)" "up c"
      "V c = published (V b) ch name (json_text (AnalyzeJob_json j))"
      using publish_run [OF L, of ?e ch name] Cons.prems(1,2) assms(4) by (auto simp: publishJob_def)
    have "\<forall>(n, k) \<in> set (bv_listeners (V c) ch). k \<le> n"
      using False Cons.prems(4) by (fastforce simp: c(3) full_def list_ex_iff)
    then have "fst (PublishJobs A name js (endpoint_at q c)) = Hang"
      using Cons.IH [of c] Cons.prems c(2,3) False by (simp add: listen_free_Suc)
    with c(1) show ?thesis by (simp add: PublishJobs_def)
  qed
qed

lemma consume_jobs_run:
  assumes L: "amqp_laws A up V" and e: "up (ep_net e)" "connected (V (ep_net e)) (ep_q e)"
    and "bv_msgs (V (ep_net e)) jobsQueueName = map (\<lambda>j. json_text (AnalyzeJob_json j)) js @ ms"
    and "\<forall>j \<in> set js. wf_AnalyzeJob j"
  shows "\<exists>b. ConsumeJobs_run A (length js) e = (Ret (), e\<lparr>ep_net := b, ep_jobs := ep_jobs e @ js\<rparr>)
    \<and> bv_msgs (V b) jobsQueueName = ms"
  using assms(2-)
proof (induction js arbitrary: e)
  case Nil
  then show ?case by (intro exI [of _ "ep_net e"]) simp
next
  case (Cons j js)
  let ?ms = "map (\<lambda>j. json_text (AnalyzeJob_json j)) js @ ms"
  have dec: "json_unmarshal AnalyzeJob_dec AnalyzeJob0 (json_text (AnalyzeJob_json j)) = Inr j"
    using AnalyzeJob_unmarshal Cons.prems(4) by simp
  have q: "bv_msgs (V (ep_net e)) jobsQueueName = json_text (AnalyzeJob_json j) # ?ms"
    using Cons.prems(3) by simp
  obtain b where b: "ConsumeJobs_iter A jobsQueueName e = (Ret (), e\<lparr>ep_net := b, ep_jobs := ep_jobs e @ [j]\<rparr>)" "up b"
    "V b = (V (ep_net e))\<lparr>bv_msgs := (bv_msgs (V (ep_net e)))(jobsQueueName := ?ms)\<rparr>"
    using consume_run(1) [OF L Cons.prems(1,2) q dec] by blast
  obtain b' where "ConsumeJobs_run A (length js) (e\<lparr>ep_net := b, ep_jobs := ep_jobs e @ [j]\<rparr>) =
      (Ret (), e\<lparr>ep_net := b', ep_jobs := ep_jobs e @ j # js\<rparr>)" "bv_msgs (V b') jobsQueueName = ms"
    using Cons.IH [of "e\<lparr>ep_net := b, ep_jobs := ep_jobs e @ [j]\<rparr>"] b(2,3) Cons.prems(2,4) by auto
  with b show ?case by (intro exI [of _ b']) simp
qed

text \<open>
  A broker that satisfies the laws: the queues as lists, every handle open, and the listeners of
  every channel.  Connections and channels are numbered in the order in which they are made.
\<close>

record list_net =
  ln_queues :: "string \<Rightarrow> bytes list"
  ln_conns :: nat
  ln_chans :: nat
  ln_listeners :: "nat \<Rightarrow> (nat \<times> nat) list"

definition list_net0 :: list_net where
  "list_net0 = \<lparr>ln_queues = \<lambda>_. [], ln_conns = 0, ln_chans = 0, ln_listeners = \<lambda>_. []\<rparr>"

fun hand_round :: "(nat \<times> nat) list \<Rightarrow> (nat \<times> nat) list" where
  "hand_round [] = []"
| "hand_round (l # ls) = (if full l then l # ls else apsnd Suc l # hand_round ls)"

definition list_amqp :: "list_net amqp" where
  "list_amqp = \<lparr>amqp_Dial = (\<lambda>_ b. (Ret (Inr (ln_conns b)), b\<lparr>ln_conns := Suc (ln_conns b)\<rparr>)), amqp_IsClosed = (\<lambda>_. retP False),
     amqp_CloseConn = (\<lambda>_. retP ()),
     amqp_Channel = (\<lambda>_ b. (Ret (Inr (ln_chans b)),
       b\<lparr>ln_chans := Suc (ln_chans b), ln_listeners := (ln_listeners b)(ln_chans b := [])\<rparr>)), amqp_CloseChannel = (\<lambda>_. retP ()),
     amqp_QueueDeclare = (\<lambda>_ _. retP (Inr ())), amqp_Qos = (\<lambda>_ _. retP (Inr ())),
     amqp_Get = (\<lambda>_ q b. case ln_queues b q of [] \<Rightarrow> (Ret (Inr None), b)
       | m # ms \<Rightarrow> (Ret (Inr (Some (0, m))), b\<lparr>ln_queues := (ln_queues b)(q := ms)\<rparr>)),
     amqp_Ack = (\<lambda>_ _. retP (Inr ())), amqp_Nack = (\<lambda>_ _. retP (Inr ())), amqp_Confirm = (\<lambda>_. retP (Inr ())),
     amqp_NotifyPublish = (\<lambda>ch n b. (Ret (length (ln_listeners b ch)),
       b\<lparr>ln_listeners := (ln_listeners b)(ch := ln_listeners b ch @ [(n, 0)])\<rparr>)),
     amqp_Publish = (\<lambda>ch q m b. (Ret (Inr ()), b\<lparr>ln_queues := (ln_queues b)(q := ln_queues b q @ [m]),
       ln_listeners := (ln_listeners b)(ch := hand_round (ln_listeners b ch))\<rparr>)),
     amqp_Confirmation = (\<lambda>ch l b. case ln_listeners b ch ! l of
         (n, Suc k) \<Rightarrow> (Ret True, b\<lparr>ln_listeners := (ln_listeners b)(ch := (ln_listeners b ch)[l := (n, k)])\<rparr>)
       | _ \<Rightarrow> (Hang, b))\<rparr>"

definition list_broker :: "list_net \<Rightarrow> broker_view" where
  "list_broker b = \<lparr>bv_msgs = ln_queues b, bv_conns = {..<ln_conns b}, bv_chans = {..<ln_chans b}, bv_listeners = ln_listeners b\<rparr>"

lemma hand_round_free: "\<not> list_ex full ls \<Longrightarrow> hand_round ls = map (apsnd Suc) ls"
  by (induction ls) auto

lemma hand_round_stuck: "list_ex full ls \<Longrightarrow> length (hand_round ls) = length ls \<and> hand_round (ls @ [l]) = hand_round ls @ [l]"
  by (induction ls) (auto simp: hand_round_free)

lemma list_amqp_laws: "amqp_laws list_amqp (\<lambda>_. True) list_broker"
  unfolding amqp_laws_def
  by (auto simp: list_amqp_def list_broker_def hand_round_free hand_round_stuck nth_append)

interpretation rabbit: job_queue "Rabbit_Queue list_amqp" "rabbit_ok (\<lambda>_. True) list_broker"
  "rabbit_jobs list_broker" "rabbit_results list_broker" "rabbit_free_jobs list_broker" "rabbit_free_results list_broker"
  wf_AnalyzeJob wf_AnalyzeResult
  by (rule rabbit_job_queue [OF list_amqp_laws])

definition demo_rq :: "bool \<Rightarrow> RabbitMQQueue" where
  "demo_rq agent = \<lparr>rq_conn = Some (if agent then 1 else 0), rq_channel = Some (if agent then 1 else 0),
     rq_connString = ''amqp://u:p@h:5672/'', rq_isAgent = agent\<rparr>"

text \<open>The broker after the server and the agent have connected.\<close>

definition demo_net :: list_net where
  "demo_net = list_net0\<lparr>ln_conns := 2, ln_chans := 2\<rparr>"

definition demo_job :: AnalyzeJob where
  "demo_job = \<lparr>job_Spec = \<lparr>SessionID = 1, NWO = \<lparr>Owner = ''o'', Repo = ''r''\<rparr>\<rparr>,
     job_QueryPackLocation = \<lparr>loc_Key = ''1-packs'', loc_Bucket = ''mrvabucket''\<rparr>, job_QueryLanguage = ''cpp''\<rparr>"

lemma wf_demo_job: "wf_AnalyzeJob demo_job"
  by (simp add: demo_job_def wf_AnalyzeJob_def wf_JobSpec_def wf_ArtifactLocation_def int64_ok_def valid_utf8_ascii)

text \<open>
  C10. Jobs cross the message broker unchanged and in order, up to a limit.  On a channel of a
  working broker on which nothing was published yet, up to 100000 jobs that the server publishes
  to an empty queue are exactly the jobs, in the same order, that as many iterations of the agent's
  consumer hand to the workers, and the queue is empty afterwards.  With more than 100000 jobs
  the publisher never gets past them: every publication leaves a listener with 99999 places
  registered, and the library waits for the oldest one, which nobody reads.
\<close>

theorem rabbit_jobs_delivered:
  assumes "amqp_laws A up V" and "up b" and "connected (V b) server" and "connected (V b) agent"
    and "rq_channel server = Some ch" and "bv_listeners (V b) ch = []"
    and "bv_msgs (V b) ''tasks'' = []" and "\<forall>j \<in> set js. wf_AnalyzeJob j"
  shows "(length js \<le> 100000 \<longrightarrow>
      (\<exists>b1 b2. PublishJobs A ''tasks'' js (endpoint_at server b) = (Ret (), endpoint_at server b1) \<and>
        ConsumeJobs_run A (length js) (endpoint_at agent b1) = (Ret (), (endpoint_at agent b2)\<lparr>ep_jobs := js\<rparr>) \<and>
        bv_msgs (V b2) ''tasks'' = []))
    \<and> (100000 < length js \<longrightarrow> fst (PublishJobs A ''tasks'' js (endpoint_at server b)) = Hang)"
proof (intro conjI impI)
  assume "length js \<le> 100000"
  then have "channel_free (V b) server (length js)"
    using assms(5,6) by (simp add: channel_free_def listen_free_def confirmChannelSize_def)
  then obtain b1 where b1: "PublishJobs A jobsQueueName js (endpoint_at server b) = (Ret (), endpoint_at server b1)" "up b1"
    "\<forall>q. connected (V b1) q = connected (V b) q" "bv_msgs (V b1) = (bv_msgs (V b))(jobsQueueName := map (\<lambda>j. json_text (AnalyzeJob_json j)) js)"
    using publish_jobs_run [OF assms(1-3), of js jobsQueueName] assms(7) by auto
  obtain b2 where "ConsumeJobs_run A (length js) (endpoint_at agent b1) = (Ret (), (endpoint_at agent b2)\<lparr>ep_jobs := js\<rparr>)"
    "bv_msgs (V b2) jobsQueueName = []"
    using consume_jobs_run [OF assms(1), of "endpoint_at agent b1" js "[]"] b1(2-4) assms(4,8) by auto
  with b1(1) show "\<exists>b1 b2. PublishJobs A ''tasks'' js (endpoint_at server b) = (Ret (), endpoint_at server b1) \<and>
      ConsumeJobs_run A (length js) (endpoint_at agent b1) = (Ret (), (endpoint_at agent b2)\<lparr>ep_jobs := js\<rparr>) \<and>
      bv_msgs (V b2) ''tasks'' = []" by blast
next
  assume "100000 < length js"
  then show "fst (PublishJobs A ''tasks'' js (endpoint_at server b)) = Hang"
    using publish_jobs_block [OF assms(1-3,5)] assms(6) by (simp add: listen_free_def confirmChannelSize_def)
qed

theorem rabbit_jobs_delivered_witness:
  "(\<exists>b1 b2. PublishJobs list_amqp ''tasks'' [demo_job] (endpoint_at (demo_rq False) demo_net) =
      (Ret (), endpoint_at (demo_rq False) b1) \<and>
    ConsumeJobs_run list_amqp (length [demo_job]) (endpoint_at (demo_rq True) b1) =
      (Ret (), (endpoint_at (demo_rq True) b2)\<lparr>ep_jobs := [demo_job]\<rparr>) \<and>
    bv_msgs (list_broker b2) ''tasks'' = [])
   \<and> fst (PublishJobs list_amqp ''tasks'' (replicate 100001 demo_job) (endpoint_at (demo_rq False) demo_net)) = Hang"
proof -
  have c: "connected (list_broker demo_net) (demo_rq False)" "connected (list_broker demo_net) (demo_rq True)"
    "rq_channel (demo_rq False) = Some 0" "bv_listeners (list_broker demo_net) 0 = []" "bv_msgs (list_broker demo_net) ''tasks'' = []"
    by (simp_all add: connected_def demo_rq_def list_broker_def demo_net_def list_net0_def)
  have "\<forall>j \<in> set [demo_job]. wf_AnalyzeJob j" "\<forall>j \<in> set (replicate 100001 demo_job). wf_AnalyzeJob j"
    by (simp_all add: wf_demo_job)
  from rabbit_jobs_delivered [OF list_amqp_laws TrueI c this(1)] rabbit_jobs_delivered [OF list_amqp_laws TrueI c this(2)]
  show ?thesis by (simp only: length_replicate) simp
qed

text \<open>
  C22. A publisher does not survive a consumer that gave up the connection: after
  \<^verbatim>\<open>invalidateConnection\<close>, which \<^verbatim>\<open>ConsumeJobs\<close> calls on a polling error,
  publishing a result panics; only an iteration of a consumer reconnects.
\<close>

theorem publish_after_invalidate_panics:
  assumes "invalidateConnection A e = (Ret (), e')"
  shows "publishResult A q r e' = (Panic nil_panic, e') \<and> publishJob A q j e' = (Panic nil_panic, e')"
proof -
  have "rq_channel (ep_q e') = None"
    using assms unfolding invalidateConnection_def
    by (auto simp: seqP_def bindP_def split: prod.splits go.splits)
  then show ?thesis by (simp add: publishResult_def publishJob_def publish_def)
qed

theorem publish_after_invalidate_panics_witness:
  "invalidateConnection list_amqp (endpoint_at (demo_rq True) demo_net) =
     (Ret (), endpoint_at ((demo_rq True)\<lparr>rq_channel := None, rq_conn := None\<rparr>) demo_net) \<and>
   publishResult list_amqp ''results'' AnalyzeResult0 (endpoint_at ((demo_rq True)\<lparr>rq_channel := None, rq_conn := None\<rparr>) demo_net) =
     (Panic nil_panic, endpoint_at ((demo_rq True)\<lparr>rq_channel := None, rq_conn := None\<rparr>) demo_net) \<and>
   publishJob list_amqp ''tasks'' AnalyzeJob0 (endpoint_at ((demo_rq True)\<lparr>rq_channel := None, rq_conn := None\<rparr>) demo_net) =
     (Panic nil_panic, endpoint_at ((demo_rq True)\<lparr>rq_channel := None, rq_conn := None\<rparr>) demo_net)"
proof -
  have "invalidateConnection list_amqp (endpoint_at (demo_rq True) demo_net) =
     (Ret (), endpoint_at ((demo_rq True)\<lparr>rq_channel := None, rq_conn := None\<rparr>) demo_net)"
    by (simp add: invalidateConnection_def demo_rq_def list_amqp_def net_def seqP_def bindP_def endpoint_at_def)
  with publish_after_invalidate_panics [OF this] show ?thesis by blast
qed

section \<open>Attempts to connect\<close>

text \<open>
  The connections that are made and given up, over any client: \<open>logged A\<close> behaves as
  \<open>A\<close> and writes down the answer to every dial and every connection that was closed.
\<close>

datatype conn_event = E_Dial "nat result" | E_Close nat

definition on_net :: "('b, 'a) prog \<Rightarrow> ('b \<times> conn_event list, 'a) prog" where
  "on_net m s = (case m (fst s) of (r, b) \<Rightarrow> (r, (b, snd s)))"

definition noting :: "('a \<Rightarrow> conn_event) \<Rightarrow> ('b, 'a) prog \<Rightarrow> ('b \<times> conn_event list, 'a) prog" where
  "noting ev m = bindP (on_net m) (\<lambda>x s. (Ret x, (fst s, snd s @ [ev x])))"

definition logged :: "'b amqp \<Rightarrow> ('b \<times> conn_event list) amqp" where
  "logged A = \<lparr>amqp_Dial = (\<lambda>url. noting E_Dial (amqp_Dial A url)), amqp_IsClosed = (\<lambda>c. on_net (amqp_IsClosed A c)),
     amqp_CloseConn = (\<lambda>c. noting (\<lambda>_. E_Close c) (amqp_CloseConn A c)), amqp_Channel = (\<lambda>c. on_net (amqp_Channel A c)),
     amqp_CloseChannel = (\<lambda>ch. on_net (amqp_CloseChannel A ch)), amqp_QueueDeclare = (\<lambda>ch q. on_net (amqp_QueueDeclare A ch q)),
     amqp_Qos = (\<lambda>ch n. on_net (amqp_Qos A ch n)), amqp_Get = (\<lambda>ch q. on_net (amqp_Get A ch q)),
     amqp_Ack = (\<lambda>ch t. on_net (amqp_Ack A ch t)), amqp_Nack = (\<lambda>ch t. on_net (amqp_Nack A ch t)),
     amqp_Confirm = (\<lambda>ch. on_net (amqp_Confirm A ch)), amqp_NotifyPublish = (\<lambda>ch n. on_net (amqp_NotifyPublish A ch n)),
     amqp_Publish = (\<lambda>ch q m. on_net (amqp_Publish A ch q m)), amqp_Confirmation = (\<lambda>ch l. on_net (amqp_Confirmation A ch l))\<rparr>"

lemma logged_sel [simp]:
  "amqp_Dial (logged A) url = noting E_Dial (amqp_Dial A url)"
  "amqp_CloseConn (logged A) c = noting (\<lambda>_. E_Close c) (amqp_CloseConn A c)"
  "amqp_Channel (logged A) c = on_net (amqp_Channel A c)"
  "amqp_QueueDeclare (logged A) ch q = on_net (amqp_QueueDeclare A ch q)"
  "amqp_Qos (logged A) ch n = on_net (amqp_Qos A ch n)"
  by (simp_all add: logged_def)

text \<open>A run over the logged client that returns, returns over the client, with the same value.\<close>

lemma on_net_Ret: "on_net m s = (Ret x, t) \<longleftrightarrow> m (fst s) = (Ret x, fst t) \<and> snd t = snd s"
  by (cases t) (auto simp: on_net_def split: prod.splits)

lemma noting_Ret: "noting ev m s = (Ret x, t) \<longleftrightarrow> m (fst s) = (Ret x, fst t) \<and> snd t = snd s @ [ev x]"
  by (cases t) (auto simp: noting_def on_net_def bindP_def split: prod.splits go.splits)

lemma bindP_Ret_iff: "bindP m k s = (Ret x, t) \<longleftrightarrow> (\<exists>y u. m s = (Ret y, u) \<and> k y u = (Ret x, t))"
  by (auto simp: bindP_def split: prod.splits go.splits)

lemma case_sum_Ret_iff:
  "case_sum f g d s = (Ret x, t) \<longleftrightarrow> (\<exists>e. d = Inl e \<and> f e s = (Ret x, t)) \<or> (\<exists>y. d = Inr y \<and> g y s = (Ret x, t))"
  by (cases d) simp_all

lemmas Ret_iffs = bindP_Ret_iff on_net_Ret noting_Ret case_sum_Ret_iff retP_def

definition failed_dials :: "error list \<Rightarrow> conn_event list" where
  "failed_dials errs = map (\<lambda>e. E_Dial (Inl e)) errs"

lemma failed_dials_eq [simp]: "failed_dials xs = failed_dials ys \<longleftrightarrow> xs = ys"
  by (auto simp: failed_dials_def inj_def inj_map_eq_map)

lemma dial_retry_logged:
  assumes "dial_retry (logged A) url (Suc n) (b, evs) = (Ret d, (b', evs'))"
  shows "dial_retry A url (Suc n) b = (Ret d, b') \<and>
    (case d of Inl err \<Rightarrow> \<exists>errs. length errs = Suc n \<and> last errs = err \<and> evs' = evs @ failed_dials errs
     | Inr c \<Rightarrow> \<exists>errs. length errs \<le> n \<and> evs' = evs @ failed_dials errs @ [E_Dial (Inr c)])"
  using assms
proof (induction n arbitrary: b evs)
  case 0
  then obtain r where "amqp_Dial A url b = (Ret r, b')" "evs' = evs @ [E_Dial r]" "r = d"
    by (auto simp: Ret_iffs)
  then show ?case by (cases d) (auto simp: failed_dials_def retP_def intro: exI [of _ "[_]"])
next
  case (Suc n)
  from Suc.prems obtain r c where r: "amqp_Dial A url b = (Ret r, c)"
    and k: "(case r of Inr conn \<Rightarrow> retP (Inr conn) | Inl err \<Rightarrow> dial_retry (logged A) url (Suc n)) (c, evs @ [E_Dial r]) = (Ret d, (b', evs'))"
    by (subst (asm) dial_retry.simps(2)) (auto simp: bindP_Ret_iff noting_Ret simp del: dial_retry.simps)
  show ?case
  proof (cases r)
    case (Inr conn)
    with r k show ?thesis by (auto simp: retP_def failed_dials_def)
  next
    case (Inl err)
    with k Suc.IH [of c "evs @ [E_Dial r]"] have IH: "dial_retry A url (Suc n) c = (Ret d, b')"
      "case d of Inl e \<Rightarrow> \<exists>errs. length errs = Suc n \<and> last errs = e \<and> evs' = (evs @ [E_Dial r]) @ failed_dials errs
       | Inr c \<Rightarrow> \<exists>errs. length errs \<le> n \<and> evs' = (evs @ [E_Dial r]) @ failed_dials errs @ [E_Dial (Inr c)]"
      by simp_all
    have run: "dial_retry A url (Suc (Suc n)) b = (Ret d, b')"
      using r Inl IH(1) by (subst dial_retry.simps(2)) (simp add: bindP_def del: dial_retry.simps)
    have more: "(evs @ [E_Dial r]) @ failed_dials errs = evs @ failed_dials (err # errs)" for errs
      using Inl by (simp add: failed_dials_def)
    show ?thesis
    proof (cases d)
      case (Inl e)
      with IH(2) obtain errs where "length errs = Suc n" "last errs = e" "evs' = evs @ failed_dials (err # errs)"
        unfolding more by auto
      then have "length (err # errs) = Suc (Suc n) \<and> last (err # errs) = e \<and> evs' = evs @ failed_dials (err # errs)" by auto
      with run Inl show ?thesis by (simp del: dial_retry.simps length_Cons last.simps)
    next
      case (Inr conn)
      with IH(2) obtain errs where "length errs \<le> n"
        "evs' = (evs @ [E_Dial r]) @ failed_dials errs @ [E_Dial (Inr conn)]" by auto
      then have "length errs \<le> n" "evs' = evs @ failed_dials (err # errs) @ [E_Dial (Inr conn)]"
        using \<open>r = Inl err\<close> by (simp_all add: failed_dials_def)
      then have "length (err # errs) \<le> Suc n \<and> evs' = evs @ failed_dials (err # errs) @ [E_Dial (Inr conn)]" by simp
      with run Inr show ?thesis by (simp del: dial_retry.simps length_Cons)
    qed
  qed
qed

lemma close_with_logged:
  "close_with (logged A) conn what err s = (Ret x, t) \<longleftrightarrow>
     close_with A conn what err (fst s) = (Ret x, fst t) \<and> x = Inl (ErrWrap what err) \<and> snd t = snd s @ [E_Close conn]"
  by (cases t) (auto simp: close_with_def seqP_def bindP_Ret_iff noting_Ret retP_def)

text \<open>
  C31. Connecting to the broker, with any client library, when \<^verbatim>\<open>NewRabbitMQQueue\<close> returns:
  either all five dials failed, and the error of the last one is returned; or fewer than five
  failed and the first successful one was the last, and then either the queue that is returned
  uses that connection, or a later step failed, the connection was closed again and an error is
  returned.  No connection is left open without a queue that owns it.
\<close>

theorem dial_attempts:
  assumes "NewRabbitMQQueue (logged A) host port user password isAgent (b, []) = (Ret x, (b', evs))"
  shows "NewRabbitMQQueue A host port user password isAgent b = (Ret x, b') \<and>
    ((\<exists>errs. length errs = 5 \<and> evs = failed_dials errs \<and> x = Inl (ErrWrap ''failed to connect: '' (last errs)))
   \<or> (\<exists>errs c q. length errs < 5 \<and> evs = failed_dials errs @ [E_Dial (Inr c)] \<and> x = Inr q \<and> rq_conn q = Some c
        \<and> rq_connString q = rabbit_url host port user password \<and> rq_isAgent q = isAgent)
   \<or> (\<exists>errs c what err. length errs < 5 \<and> evs = failed_dials errs @ [E_Dial (Inr c), E_Close c] \<and> x = Inl (ErrWrap what err)
        \<and> what \<in> {''failed to open a channel: '', ''failed to declare tasks queue: '',
             ''failed to declare results queue: '', ''failed to set QoS: ''}))"
proof -
  let ?url = "rabbit_url host port user password"
  have five: "tryCount = Suc 4" by (simp add: tryCount_def)
  obtain d c evs1 where d: "dial_retry (logged A) ?url (Suc 4) (b, []) = (Ret d, (c, evs1))"
    using assms unfolding NewRabbitMQQueue_def Let_def five bindP_Ret_iff by (metis surj_pair)
  note dial = dial_retry_logged [OF d]
  show ?thesis
  proof (cases d)
    case (Inl err)
    with assms d dial show ?thesis
      by (auto simp: NewRabbitMQQueue_def Let_def five Ret_iffs simp del: dial_retry.simps)
  next
    case (Inr conn)
    then obtain errs where errs: "length errs < 5" "evs1 = failed_dials errs @ [E_Dial (Inr conn)]"
      "dial_retry A ?url (Suc 4) b = (Ret (Inr conn), c)" using dial by fastforce
    from assms d errs(3) Inr show ?thesis
      unfolding NewRabbitMQQueue_def Let_def five
      by (auto simp: Ret_iffs close_with_logged errs(2) errs(1) simp del: dial_retry.simps)
  qed
qed

text \<open>A client that refuses two dials and then accepts, and one that fails to open a channel.\<close>

definition refusing :: "nat \<Rightarrow> nat result \<Rightarrow> list_net amqp" where
  "refusing n ch = list_amqp\<lparr>amqp_Dial := (\<lambda>_ b. (Ret (if ln_conns b < n then Inl (ExtError ''refused'') else Inr (ln_conns b)),
     b\<lparr>ln_conns := Suc (ln_conns b)\<rparr>)), amqp_Channel := (\<lambda>_. retP ch)\<rparr>"

theorem dial_attempts_witness:
  "NewRabbitMQQueue (refusing 2 (Inl (ExtError ''no channel''))) ''rabbit'' 5672 ''u'' ''p'' True list_net0 =
     (Ret (Inl (ErrWrap ''failed to open a channel: '' (ExtError ''no channel''))), list_net0\<lparr>ln_conns := 3\<rparr>)
   \<and> snd (snd (NewRabbitMQQueue (logged (refusing 2 (Inl (ExtError ''no channel'')))) ''rabbit'' 5672 ''u'' ''p'' True (list_net0, []))) =
     [E_Dial (Inl (ExtError ''refused'')), E_Dial (Inl (ExtError ''refused'')), E_Dial (Inr 2), E_Close 2]"
proof -
  have run: "NewRabbitMQQueue (logged (refusing 2 (Inl (ExtError ''no channel'')))) ''rabbit'' 5672 ''u'' ''p'' True (list_net0, []) =
    (Ret (Inl (ErrWrap ''failed to open a channel: '' (ExtError ''no channel''))),
      (list_net0\<lparr>ln_conns := 3\<rparr>, [E_Dial (Inl (ExtError ''refused'')), E_Dial (Inl (ExtError ''refused'')), E_Dial (Inr 2), E_Close 2]))"
    by (simp add: NewRabbitMQQueue_def Let_def tryCount_def eval_nat_numeral refusing_def list_amqp_def list_net0_def
        noting_def on_net_def bindP_def close_with_def seqP_def retP_def)
  with dial_attempts [OF run] show ?thesis by simp
qed

end
