(* ===== verification/Deployment.thy ===== *)
theory Deployment
  imports Commander_Read Client PG_State RabbitMQ
begin

text \<open>
  The server as it is deployed in containers (\<^verbatim>\<open>pkg/deploy/init.go\<close>): the queue on
  RabbitMQ, the state in PostgreSQL, the artifacts in MinIO and the databases on a HEPC server.
  The locale \<open>deployment\<close> names the laws of the four services; the contract
  \<open>commander\<close> follows from them.
\<close>

section \<open>Texts that every service can store\<close>

lemma utf8_width_append: "utf8_width s \<noteq> 0 \<Longrightarrow> utf8_width (s @ r) = utf8_width s"
  by (cases s) (auto simp: Let_def split: list.splits if_splits)

lemma valid_utf8_append: "valid_utf8 a \<Longrightarrow> valid_utf8 b \<Longrightarrow> valid_utf8 (a @ b)"
proof (induction a rule: valid_utf8.induct)
  case (1 s)
  show ?case
  proof (cases "s = []")
    case False
    then have w: "utf8_width s \<noteq> 0" "valid_utf8 (drop (utf8_width s) s)"
      using "1.prems"(1) valid_utf8.simps [of s] by metis+
    then have "valid_utf8 (drop (utf8_width s) s @ b)" using "1.IH" False "1.prems"(2) by blast
    then show ?thesis
      using w(1) utf8_width_append [OF w(1), of b] utf8_width_le [of s] False
      by (subst valid_utf8.simps) simp
  qed (use "1.prems" in simp)
qed

lemma text_ok_append: "text_ok a \<Longrightarrow> text_ok b \<Longrightarrow> text_ok (a @ b)"
  by (auto simp: text_ok_def valid_utf8_append)

lemma text_ok_ascii: "\<forall>c \<in> set s. 0 < (of_char c :: nat) \<and> (of_char c :: nat) < 128 \<Longrightarrow> text_ok s"
  using valid_utf8_ascii [of s] by (force simp: text_ok_def)

lemma digits10_ascii: "\<forall>c \<in> set (digits10 n). 0 < (of_char c :: nat) \<and> (of_char c :: nat) < 128"
proof (induction n rule: digits10.induct)
  case (1 n)
  have d: "of_char (digit_char k) = 48 + k" if "k < 10" for k using that by (simp add: digit_char_def)
  show ?case using 1 d [of n] d [of "n mod 10"] by (subst digits10.simps) auto
qed

lemma text_ok_Itoa: "text_ok (Itoa i)"
  using digits10_ascii [of "nat i"] digits10_ascii [of "nat (- i)"] by (intro text_ok_ascii) (auto simp: Itoa_def)

lemma text_ok_pack_key: "text_ok (pack_key i)"
proof -
  have "text_ok ''-packs''" by (rule text_ok_ascii) simp
  then show ?thesis unfolding pack_key_def by (intro text_ok_append text_ok_Itoa)
qed

lemma text_ok_full_name: "text_ok (Owner n) \<Longrightarrow> text_ok (Repo n) \<Longrightarrow> text_ok (full_name n)"
proof -
  assume "text_ok (Owner n)" "text_ok (Repo n)"
  moreover have "text_ok ''/''" by (rule text_ok_ascii) simp
  ultimately show ?thesis unfolding full_name_def by (intro text_ok_append)
qed

definition text_ok_nwo :: "NameWithOwner \<Rightarrow> bool" where
  "text_ok_nwo n \<longleftrightarrow> text_ok (Owner n) \<and> text_ok (Repo n)"

lemma mk_job_storable:
  assumes "int4_ok sid" and "text_ok_nwo n" and "text_ok lang" and "loc_Key l = pack_key sid" and "text_ok (loc_Bucket l)"
  shows "key_ok (job_Spec (mk_job l sid lang n)) \<and> pg_adm_job (mk_job l sid lang n) \<and> wf_AnalyzeJob (mk_job l sid lang n)"
proof -
  have "wf_AnalyzeJob (mk_job l sid lang n)"
    using assms text_ok_pack_key [of sid]
    by (auto simp: mk_job_def wf_AnalyzeJob_def wf_JobSpec_def wf_ArtifactLocation_def int64_ok_def int4_ok_def
        text_ok_def text_ok_nwo_def)
  moreover have "no_nul (AnalyzeJob_json (mk_job l sid lang n))"
    using assms text_ok_pack_key [of sid]
    by (auto simp: mk_job_def AnalyzeJob_json_def JobSpec_json_def JobSpec_members_def ArtifactLocation_json_def
        text_ok_def text_ok_nwo_def)
  ultimately show ?thesis using assms(1,2) by (simp add: key_ok_def pg_adm_job_def mk_job_def text_ok_nwo_def)
qed

lemma info_storable:
  assumes "text_ok lang" and "text_ok (sv_now E n)" and "text_ok (sv_now E (Suc n))" and "\<forall>r \<in> set nf. text_ok_nwo r"
    and "int (length nf) \<le> max_int64"
  shows "pg_adm_info (info_of E n lang nf)"
proof -
  have "\<forall>r \<in> set nf. text_ok (full_name r)" using assms(4) text_ok_full_name by (simp add: text_ok_nwo_def)
  then have n: "\<forall>r \<in> set nf. valid_utf8 (full_name r) \<and> CHR 0x00 \<notin> set (full_name r)" by (simp add: text_ok_def)
  have "wf_JobInfo (info_of E n lang nf)"
    using assms n by (simp add: info_of_def skipped_of_def wf_JobInfo_def wf_SkippedRepositories_def text_ok_def
        int64_ok_def list_all_iff)
  moreover have "no_nul (JobInfo_json (info_of E n lang nf))"
    using assms n by (simp add: info_of_def skipped_of_def JobInfo_json_def SkippedRepositories_json_def
        AccessMismatchRepos_json_def NotFoundRepos_json_def NoCodeqlDBRepos_json_def OverLimitRepos_json_def
        text_ok_def list_all_iff)
  ultimately show ?thesis by (simp add: pg_adm_info_def)
qed

section \<open>The deployed server\<close>

definition container_server ::
  "'b amqp \<Rightarrow> pg_env \<Rightarrow> BucketNames \<Rightarrow> 'm minio_client \<Rightarrow> hepc_env \<Rightarrow>
   ('b rabbit_system, PGState, 'm, HepcStore) Visibles" where
  "container_server A P bkt C H =
     \<lparr>v_Queue = Rabbit_Queue A, v_State = PG_ServerState P, v_Artifacts = MinIO_Store bkt C,
      v_CodeQLDBStore = Hepc_DBStore H\<rparr>"

definition services_ok ::
  "'b amqp \<Rightarrow> ('b \<Rightarrow> bool) \<Rightarrow> ('b \<Rightarrow> broker_view) \<Rightarrow> pg_env \<Rightarrow> BucketNames \<Rightarrow> 'm minio_client \<Rightarrow> ('m \<Rightarrow> bool) \<Rightarrow>
   ('m \<Rightarrow> string \<Rightarrow> string \<Rightarrow> bytes option) \<Rightarrow> bool" where
  "services_ok A up V P bkt C healthy obj \<longleftrightarrow> amqp_laws A up V \<and> pg_healthy P \<and> minio_laws bkt C healthy obj"

definition at_loc :: "('m \<Rightarrow> string \<Rightarrow> string \<Rightarrow> bytes option) \<Rightarrow> 'm \<Rightarrow> ArtifactLocation \<Rightarrow> bytes option" where
  "at_loc obj m l = obj m (loc_Bucket l) (loc_Key l)"

locale deployment =
  fixes A :: "'b amqp" and up :: "'b \<Rightarrow> bool" and V :: "'b \<Rightarrow> broker_view" and P :: pg_env
    and bkt :: BucketNames and C :: "'m minio_client" and healthy :: "'m \<Rightarrow> bool"
    and obj :: "'m \<Rightarrow> string \<Rightarrow> string \<Rightarrow> bytes option" and H :: hepc_env
  assumes services: "services_ok A up V P bkt C healthy obj"

sublocale deployment \<subseteq> commander "container_server A P bkt C H" pg_inv pg_view pg_issued
  "\<lambda>s. session_id_seq s < max_int32" pg_fits key_ok pg_adm_job pg_adm_result pg_adm_info pg_repo_ids
  "rabbit_ok up V" "rabbit_jobs V" "rabbit_results V" "rabbit_free_jobs V" "rabbit_free_results V" wf_AnalyzeJob wf_AnalyzeResult
  healthy "at_loc obj" "at_loc obj" "bucket_of bkt" "\<lambda>h. \<not> hs_cacheMutex h"
proof -
  have pg: "pg_server P" using services by unfold_locales (simp add: services_ok_def)
  have q: "job_queue (Rabbit_Queue A) (rabbit_ok up V) (rabbit_jobs V) (rabbit_results V)
      (rabbit_free_jobs V) (rabbit_free_results V) wf_AnalyzeJob wf_AnalyzeResult"
    using services by (intro rabbit_job_queue) (simp add: services_ok_def)
  have a: "artifact_store (MinIO_Store bkt C) healthy (at_loc obj) (at_loc obj) (bucket_of bkt)"
    using services minio_artifact_store [of bkt C healthy obj] by (simp add: services_ok_def at_loc_def [abs_def])
  have d: "qldb_store (Hepc_DBStore H) (\<lambda>h. \<not> hs_cacheMutex h)" by unfold_locales
  have s: "server_state (PG_ServerState P) pg_inv pg_view pg_issued (\<lambda>s. session_id_seq s < max_int32) pg_fits key_ok
      pg_adm_job pg_adm_result pg_adm_info pg_repo_ids"
    using pg by (rule pg_server.contract)
  show "commander (container_server A P bkt C H) pg_inv pg_view pg_issued
    (\<lambda>s. session_id_seq s < max_int32) pg_fits key_ok pg_adm_job pg_adm_result pg_adm_info pg_repo_ids
    (rabbit_ok up V) (rabbit_jobs V) (rabbit_results V) (rabbit_free_jobs V) (rabbit_free_results V) wf_AnalyzeJob wf_AnalyzeResult
    healthy (at_loc obj) (at_loc obj) (bucket_of bkt) (\<lambda>h. \<not> hs_cacheMutex h)"
    using s q a d by (simp add: commander_def container_server_def)
qed

text \<open>The state of the deployed server: every part in order, and the response still empty.\<close>

definition sys_ok ::
  "('b \<Rightarrow> bool) \<Rightarrow> ('b \<Rightarrow> broker_view) \<Rightarrow> ('m \<Rightarrow> bool) \<Rightarrow> ('b rabbit_system, PGState, 'm, HepcStore) world \<Rightarrow> bool" where
  "sys_ok up V healthy w \<longleftrightarrow>
     pg_inv (w_state w) \<and> rabbit_ok up V (w_queue w) \<and> healthy (w_artifacts w) \<and> \<not> hs_cacheMutex (w_dbs w)"

text \<open>After a request that only reads: nothing has changed that another request could notice.\<close>

definition undisturbed ::
  "('b \<Rightarrow> bool) \<Rightarrow> ('b \<Rightarrow> broker_view) \<Rightarrow> ('m \<Rightarrow> bool) \<Rightarrow> ('m \<Rightarrow> string \<Rightarrow> string \<Rightarrow> bytes option) \<Rightarrow>
   ('b rabbit_system, PGState, 'm, HepcStore) world \<Rightarrow> ('b rabbit_system, PGState, 'm, HepcStore) world \<Rightarrow> bool" where
  "undisturbed up V healthy obj w w' \<longleftrightarrow> sys_ok up V healthy w' \<and> pg_view (w_state w') = pg_view (w_state w) \<and>
     w_queue w' = w_queue w \<and> pg_issued (w_state w') = pg_issued (w_state w) \<and>
     at_loc obj (w_artifacts w') = at_loc obj (w_artifacts w)"

text \<open>A submission whose texts the services can store, and for which there are numbers left.\<close>

definition storable :: "server_env \<Rightarrow> BucketNames \<Rightarrow> nat \<Rightarrow> string \<Rightarrow> string list \<Rightarrow> bool" where
  "storable E bkt n lang entries \<longleftrightarrow> text_ok lang \<and> text_ok (sv_now E n) \<and> text_ok (sv_now E (Suc n)) \<and>
     text_ok (AF_BUCKETNAME_RESULTS bkt) \<and> text_ok (AF_BUCKETNAME_PACKS bkt) \<and>
     (\<forall>e \<in> set entries. text_ok_nwo (nwo_of e)) \<and> int (length entries) \<le> max_int64"

definition numbers_left :: "PGState \<Rightarrow> nat \<Rightarrow> bool" where
  "numbers_left s n \<longleftrightarrow> session_id_seq s < max_int32 \<and> job_repo_seq s + int n \<le> max_int32"

text \<open>A session of which every job is recorded, with its status and, if it succeeded, its artifact.\<close>

definition session_reportable ::
  "('m \<Rightarrow> string \<Rightarrow> string \<Rightarrow> bytes option) \<Rightarrow> ('b rabbit_system, PGState, 'm, HepcStore) world \<Rightarrow> int \<Rightarrow> JobInfo \<Rightarrow> bool" where
  "session_reportable obj w sid ji \<longleftrightarrow>
     pg_issued (w_state w) sid \<and> jv_specs (pg_view (w_state w)) sid \<noteq> {} \<and>
     pg_fits (w_state w) (card (jv_specs (pg_view (w_state w)) sid)) \<and>
     (\<forall>x \<in> jv_specs (pg_view (w_state w)) sid. key_ok x \<and> jv_info (pg_view (w_state w)) x = Some ji \<and>
        reported (pg_view (w_state w)) (at_loc obj (w_artifacts w)) x)"

context deployment
begin

lemma reportable_iff: "session_reportable obj w sid ji \<longleftrightarrow> reportable w sid ji"
  by (auto simp: reportable_def session_reportable_def pg_view_def)

lemma w_ok_sys: "w_ok w = sys_ok up V healthy w"
  by (simp add: w_ok_def sys_ok_def)

lemma undisturbed_iff: "reads_only w w' = undisturbed up V healthy obj w w'"
  by (simp add: reads_only_def undisturbed_def w_ok_sys)

lemma deployed_submission:
  assumes w: "sys_ok up V healthy w" "w_resp w = response0" "numbers_left (w_state w) (length entries)"
    and sub: "good_submission r lang entries tgz" "storable E bkt (w_ticks w) lang entries"
  shows "(\<exists>sid l nf found w'. MRVARequestCommon E (container_server A P bkt C H) r w = (Ret (), w')
    \<and> sys_ok up V healthy w'
    \<and> FindAvailableDBs (Hepc_DBStore H) (map nwo_of entries) (w_dbs w) = (Ret (nf, found), w_dbs w')
    \<and> \<not> pg_issued (w_state w) sid \<and> pg_issued (w_state w') = (pg_issued (w_state w))(sid := True)
    \<and> map nwo_of entries \<in> shuffles nf found
    \<and> loc_Key l = pack_key sid \<and> at_loc obj (w_artifacts w') l = Some tgz
    \<and> rabbit_jobs V (w_queue w') = rabbit_jobs V (w_queue w) @ map (mk_job l sid lang) found
    \<and> rabbit_results V (w_queue w') = rabbit_results V (w_queue w)
    \<and> dom (at_loc obj (w_artifacts w)) \<subseteq> dom (at_loc obj (w_artifacts w'))
    \<and> jv_specs (pg_view (w_state w')) = (jv_specs (pg_view (w_state w)))(sid := (\<lambda>n. \<lparr>SessionID = sid, NWO = n\<rparr>) ` set found)
    \<and> (\<forall>n \<in> set found. jv_status (pg_view (w_state w')) \<lparr>SessionID = sid, NWO = n\<rparr> = Some StatusPending
         \<and> jv_info (pg_view (w_state w')) \<lparr>SessionID = sid, NWO = n\<rparr> = Some (info_of E (w_ticks w) lang nf))
    \<and> (\<forall>x. x \<notin> (\<lambda>n. \<lparr>SessionID = sid, NWO = n\<rparr>) ` set found \<longrightarrow> jv_status (pg_view (w_state w')) x = jv_status (pg_view (w_state w)) x
         \<and> jv_info (pg_view (w_state w')) x = jv_info (pg_view (w_state w)) x)
    \<and> jv_result (pg_view (w_state w')) = jv_result (pg_view (w_state w))
    \<and> answered 200 ''application/json''
         (json_text (SubmitResponse_json (submit_response sid (info_of E (w_ticks w) lang nf)))) (w_resp w'))
    \<or> fst (MRVARequestCommon E (container_server A P bkt C H) r w) = Hang \<and>
      (fst (FindAvailableDBs (Hepc_DBStore H) (map nwo_of entries) (w_dbs w)) = Hang
       \<or> \<not> rabbit_free_jobs V (w_queue w) (length entries))"
proof -
  have db: "v_CodeQLDBStore (container_server A P bkt C H) = Hepc_DBStore H" by (simp add: container_server_def)
  show ?thesis
  proof (rule submission_effect [OF _ _ w(2) sub(1), unfolded w_ok_sys db])
    have st: "text_ok lang" "text_ok (sv_now E (w_ticks w))" "text_ok (sv_now E (Suc (w_ticks w)))"
      "text_ok (AF_BUCKETNAME_RESULTS bkt)" "text_ok (AF_BUCKETNAME_PACKS bkt)" "\<forall>n \<in> nwo_of ` set entries. text_ok_nwo n"
      "int (length entries) \<le> max_int64"
      using sub(2) by (simp_all add: storable_def)
    show "sendable (mk_job l sid lang n)"
      if "pg_inv s" "pg_issued s sid" "n \<in> nwo_of ` set entries" "loc_Key l = pack_key sid" "bucket_of bkt (loc_Bucket l)"
      for s sid l n
      using that mk_job_storable [OF issued_int4 [OF that(1,2)] _ st(1) that(4), of n] st(4-6)
      by (auto simp: sendable_def bucket_of_def)
    show "pg_adm_info (info_of E (w_ticks w) lang nf)"
      if "set nf \<subseteq> nwo_of ` set entries" "length nf \<le> length entries" for nf
      using that st by (intro info_storable) auto
  qed (use w in \<open>simp_all add: numbers_left_def pg_fits_def\<close>)
qed

lemmas deployed_rejection = rejected_submission [unfolded w_ok_sys]
lemmas deployed_panic = panicking_submission [unfolded w_ok_sys]
lemmas deployed_status = status_effect [unfolded w_ok_sys undisturbed_iff reportable_iff [symmetric]]

lemma deployed_result:
  assumes w: "sys_ok up V healthy w" and r: "rabbit_results V (w_queue w) = r # rs" "pg_adm_result r" "key_ok (res_Spec r)"
      "known_status (res_Status r)" "pg_issued (w_state w) (SessionID (res_Spec r))"
  shows "\<exists>w1. ConsumeResults_once (container_server A P bkt C H) w = (Ret (), w1) \<and> sys_ok up V healthy w1
    \<and> w_artifacts w1 = w_artifacts w \<and> rabbit_results V (w_queue w1) = rs
    \<and> rabbit_jobs V (w_queue w1) = rabbit_jobs V (w_queue w) \<and> pg_issued (w_state w1) = pg_issued (w_state w)
    \<and> pg_view (w_state w1) = (pg_view (w_state w))
        \<lparr>jv_result := (jv_result (pg_view (w_state w)))(res_Spec r \<mapsto> r),
         jv_status := (jv_status (pg_view (w_state w)))(res_Spec r \<mapsto> res_Status r)\<rparr>"
proof -
  have "st.consumable r" using r by (simp add: st.consumable_def)
  from consume_once_effect [OF _ r(1) this r(5), unfolded w_ok_sys, OF w]
  obtain q t where "ConsumeResults_once (container_server A P bkt C H) w = (Ret (), w\<lparr>w_queue := q, w_state := t\<rparr>)"
    "sys_ok up V healthy (w\<lparr>w_queue := q, w_state := t\<rparr>)" "rabbit_results V q = rs" "rabbit_jobs V q = rabbit_jobs V (w_queue w)"
    "pg_issued t = pg_issued (w_state w)" "pg_view t = (pg_view (w_state w))
        \<lparr>jv_result := (jv_result (pg_view (w_state w)))(res_Spec r \<mapsto> r),
         jv_status := (jv_status (pg_view (w_state w)))(res_Spec r \<mapsto> res_Status r)\<rparr>"
    by blast
  then show ?thesis by (intro exI [of _ "w\<lparr>w_queue := q, w_state := t\<rparr>"]) simp
qed

lemma deployed_download:
  assumes w: "sys_ok up V healthy w" "w_resp w = response0" and js: "key_ok js" "EncodeJobSpec js = Inr tok"
    and r: "jv_status (pg_view (w_state w)) js = Some StatusSucceeded" "jv_result (pg_view (w_state w)) js = Some r"
      "at_loc obj (w_artifacts w) (res_ResultLocation r) = Some d"
  shows "mux_var rq ''encoded_job_spec'' = tok \<Longrightarrow>
      \<exists>w'. MRVADownloadServe (container_server A P bkt C H) rq w = (Ret (), w') \<and> undisturbed up V healthy obj w w'
        \<and> answered 200 ''application/octet-stream'' d (w_resp w')"
    and "pg_repo_ids (w_state w) rid = Some (NWO js) \<Longrightarrow>
      ParseInt 32 (mux_var rq ''codeql_variant_analysis_id'') = Inr (SessionID js) \<Longrightarrow>
      ParseInt 32 (mux_var rq ''repository_id'') = Inr rid \<Longrightarrow>
      \<exists>w'. MRVADownloadArtifactID E (container_server A P bkt C H) rq w = (Ret (), w') \<and> undisturbed up V healthy obj w w'
        \<and> answered 200 ''application/json'' (json_text (DownloadResponse_json (download_of E rid js r d tok))) (w_resp w')"
proof -
  have "wf_JobSpec js" using js(1) by (simp add: wf_JobSpec_def key_ok_def int4_ok_def int64_ok_def text_ok_def)
  then show "mux_var rq ''encoded_job_spec'' = tok \<Longrightarrow> \<exists>w'. MRVADownloadServe (container_server A P bkt C H) rq w = (Ret (), w') \<and> undisturbed up V healthy obj w w'
        \<and> answered 200 ''application/octet-stream'' d (w_resp w')"
    using served_artifact [OF _ w(2) _ js(1) r(2,3) js(2), of rq, unfolded w_ok_sys undisturbed_iff, OF w(1)] by blast
  show "\<exists>w'. MRVADownloadArtifactID E (container_server A P bkt C H) rq w = (Ret (), w') \<and> undisturbed up V healthy obj w w'
        \<and> answered 200 ''application/json'' (json_text (DownloadResponse_json (download_of E rid js r d tok))) (w_resp w')"
    if "pg_repo_ids (w_state w) rid = Some (NWO js)"
      "ParseInt 32 (mux_var rq ''codeql_variant_analysis_id'') = Inr (SessionID js)"
      "ParseInt 32 (mux_var rq ''repository_id'') = Inr rid"
    using announced_by_id [OF _ w(2) js(1,2) r that, unfolded w_ok_sys undisturbed_iff, OF w(1)] by blast
qed

end

section \<open>Services that keep everything in memory\<close>

text \<open>They satisfy the laws, so the deployment has an instance.\<close>

lemma list_services_ok:
  "services_ok list_amqp (\<lambda>_. True) list_broker pg_plain AF_BUCKETNAMES list_minio (\<lambda>_. True) (\<lambda>m b k. gm_get m (b, k))"
  by (simp add: services_ok_def list_amqp_laws pg_plain_healthy list_minio_laws)

interpretation plain: deployment list_amqp "\<lambda>_. True" list_broker pg_plain AF_BUCKETNAMES list_minio "\<lambda>_. True"
  "\<lambda>m b k. gm_get m (b, k)" hepc_demo
  by unfold_locales (rule list_services_ok)

definition demo_pg :: PGState where
  "demo_pg = PG_empty\<lparr>pg_tables := ''pg'' # schemas\<rparr>"

definition demo_world :: "(list_net rabbit_system, PGState, (string \<times> string, bytes) gomap, HepcStore) world" where
  "demo_world =
     \<lparr>w_queue = \<lparr>rs_server = demo_rq False, rs_agent = demo_rq True, rs_net = demo_net\<rparr>, w_state = demo_pg,
      w_artifacts = [], w_dbs = hepc_demo_store, w_ticks = 0, w_resp = response0\<rparr>"

definition demo_env :: server_env where
  "demo_env = \<lparr>sv_getenv = (\<lambda>_. []), sv_now = (\<lambda>_. ''2024-01-01T00:00:00Z''), sv_match = (\<lambda>_ _. None)\<rparr>"

lemma demo_world_ok: "sys_ok (\<lambda>_. True) list_broker (\<lambda>_. True) demo_world"
  by (auto simp: sys_ok_def demo_world_def demo_pg_def PG_empty_def pg_inv_def pg_repos_ok_def rabbit_ok_def connected_def
      demo_rq_def demo_net_def list_net0_def list_broker_def hepc_demo_store_def)

lemma demo_world_open:
  "rabbit_free_jobs list_broker (w_queue demo_world) 1" "fst (FindAvailableDBs (Hepc_DBStore hepc_demo) rs (w_dbs demo_world)) \<noteq> Hang"
proof -
  show "rabbit_free_jobs list_broker (w_queue demo_world) 1"
    by (simp add: demo_world_def rabbit_free_jobs_def channel_free_def demo_rq_def demo_net_def list_net0_def
        list_broker_def listen_free_def)
  have "answering hepc_demo" "\<not> hs_cacheMutex (w_dbs demo_world)"
    by (simp_all add: answering_def hepc_demo_def demo_world_def hepc_demo_store_def)
  then show "fst (FindAvailableDBs (Hepc_DBStore hepc_demo) rs (w_dbs demo_world)) \<noteq> Hang" by (rule hepc_answers(1))
qed

lemma demo_world_fields [simp]: "w_resp demo_world = response0" "w_ticks demo_world = 0" "w_state demo_world = demo_pg"
  by (simp_all add: demo_world_def)

text \<open>A world with one pending job, whose result waits in the queue and whose artifact is stored.\<close>

definition demo_spec :: JobSpec where
  "demo_spec = \<lparr>SessionID = 1, NWO = \<lparr>Owner = ''o'', Repo = ''r''\<rparr>\<rparr>"

definition demo_result :: AnalyzeResult where
  "demo_result = \<lparr>res_Spec = demo_spec, res_Status = StatusSucceeded, res_ResultCount = 3,
     res_ResultLocation = \<lparr>loc_Key = ''k'', loc_Bucket = ''mrvabucket''\<rparr>, res_SourceLocationPrefix = ''/src'',
     res_DatabaseSHA = ''abc''\<rparr>"

definition demo_info :: JobInfo where
  "demo_info = info_of demo_env 0 ''cpp'' []"

definition demo_session :: PGState where
  "demo_session = demo_pg\<lparr>session_id_seq := 1, analyze_jobs := [(demo_spec, json_text (AnalyzeJob_json demo_job))],
     job_status := [(demo_spec, StatusPending)], job_info := [(demo_spec, json_text (JobInfo_json demo_info))]\<rparr>"

definition demo_running ::
  "(list_net rabbit_system, PGState, (string \<times> string, bytes) gomap, HepcStore) world" where
  "demo_running = demo_world\<lparr>w_state := demo_session,
     w_queue := \<lparr>rs_server = demo_rq False, rs_agent = demo_rq True,
       rs_net = demo_net\<lparr>ln_queues := (\<lambda>_. [])(resultsQueueName := [json_text (AnalyzeResult_json demo_result)])\<rparr>\<rparr>,
     w_artifacts := [((''mrvabucket'', ''k''), ''zip'')]\<rparr>"

lemma demo_texts: "text_ok ''cpp''" "text_ok ''2024-01-01T00:00:00Z''" "text_ok ''mrvabucket''" "text_ok ''o''" "text_ok ''r''"
  "text_ok ''k''" "text_ok ''/src''" "text_ok ''abc''" "text_ok ''1-packs''"
  by (rule text_ok_ascii; simp)+

lemma demo_key: "key_ok demo_spec" "wf_JobSpec demo_spec"
  using demo_texts by (simp_all add: key_ok_def demo_spec_def int4_ok_def wf_JobSpec_def int64_ok_def text_ok_def)

lemma demo_result_adm: "pg_adm_result demo_result" "wf_AnalyzeResult demo_result"
  using demo_texts demo_key
  by (simp_all add: pg_adm_result_def demo_result_def wf_AnalyzeResult_def int64_ok_def status_defs wf_ArtifactLocation_def
      text_ok_def AnalyzeResult_json_def ArtifactLocation_json_def JobSpec_json_def JobSpec_members_def demo_spec_def JInt_def
      Itoa_def)

lemma demo_rows:
  "json_unmarshal AnalyzeJob_dec AnalyzeJob0 (json_text (AnalyzeJob_json demo_job)) = Inr demo_job"
  "json_unmarshal JobInfo_dec JobInfo0 (json_text (JobInfo_json demo_info)) = Inr demo_info"
  "json_unmarshal AnalyzeResult_dec AnalyzeResult0 (json_text (AnalyzeResult_json demo_result)) = Inr demo_result"
proof -
  have "pg_adm_info demo_info"
    unfolding demo_info_def by (rule info_storable) (use demo_texts in \<open>simp_all add: demo_env_def\<close>)
  from stored_info [OF pg_plain_healthy this]
  show "json_unmarshal JobInfo_dec JobInfo0 (json_text (JobInfo_json demo_info)) = Inr demo_info"
    by (simp add: pg_plain_def)
qed (rule AnalyzeJob_unmarshal [OF wf_demo_job], rule AnalyzeResult_unmarshal [OF demo_result_adm(2)])

lemma demo_session_inv: "pg_inv demo_session"
  using demo_rows demo_key
  by (auto simp: demo_session_def demo_pg_def PG_empty_def pg_inv_def pg_repos_ok_def gm_wf_def session_row_def
      demo_job_def demo_spec_def)

lemma demo_view:
  "jv_status (pg_view demo_session) = [demo_spec \<mapsto> StatusPending]"
  "jv_info (pg_view demo_session) demo_spec = Some demo_info" "jv_specs (pg_view demo_session) 1 = {demo_spec}"
  "pg_issued demo_session 1"
  using demo_rows
  by (auto simp: demo_session_def demo_pg_def PG_empty_def pg_view_def fun_eq_iff demo_spec_def read_row_def pg_issued_def)

lemma demo_running_ok: "sys_ok (\<lambda>_. True) list_broker (\<lambda>_. True) demo_running"
  using demo_world_ok demo_session_inv demo_rows(3)
  by (simp add: sys_ok_def demo_running_def rabbit_ok_def connected_def list_broker_def demo_net_def list_net0_def demo_rq_def decodes_def)

lemma demo_running_fields:
  "w_state demo_running = demo_session" "w_resp demo_running = response0"
  "rabbit_results list_broker (w_queue demo_running) = [demo_result]"
  "at_loc (\<lambda>m b k. gm_get m (b, k)) (w_artifacts demo_running) (res_ResultLocation demo_result) = Some ''zip''"
  using demo_rows(3)
  by (simp_all add: demo_running_def rabbit_results_def list_broker_def demo_net_def list_net0_def at_loc_def demo_result_def)

lemma demo_storable: "storable demo_env AF_BUCKETNAMES 0 ''cpp'' [''o/r'']" "numbers_left demo_pg 1"
proof -
  have "text_ok ''cpp''" "text_ok ''2024-01-01T00:00:00Z''" "text_ok ''mrvabucket''" "text_ok ''o''" "text_ok ''r''"
    by (rule text_ok_ascii; simp)+
  then show "storable demo_env AF_BUCKETNAMES 0 ''cpp'' [''o/r'']"
    by (simp add: storable_def demo_env_def AF_BUCKETNAMES_def text_ok_nwo_def nwo_of_def)
qed (simp add: numbers_left_def demo_pg_def PG_empty_def)

abbreviation demo_server ::
  "(list_net rabbit_system, PGState, (string \<times> string, bytes) gomap, HepcStore) Visibles" where
  "demo_server \<equiv> container_server list_amqp pg_plain AF_BUCKETNAMES list_minio hepc_demo"

abbreviation demo_request :: request where
  "demo_request \<equiv> client_request ''cpp'' [''o/r''] [CHR 0x1F, CHR 0x8B]"

lemma demo_request_good: "good_submission demo_request ''cpp'' [''o/r''] [CHR 0x1F, CHR 0x8B]"
  by (rule client_request_good) (simp_all add: valid_utf8_ascii one_slash_def)

text \<open>A request with an entry that has no slash.\<close>

lemma client_request_slashless:
  assumes "valid_utf8 lang" and "list_all valid_utf8 entries" and "list_ex (\<lambda>e. CHR ''/'' \<notin> set e) entries"
    and "take 2 tgz = [CHR 0x1F, CHR 0x8B]"
  shows "slashless_submission (client_request lang entries tgz) tgz"
proof -
  obtain buf where "rq_body (client_request lang entries tgz) = Some (Inr buf)"
    "tryParseSubmitMsg buf = Inr \<lparr>msg_ActionRepoRef = ''main'', msg_Language = lang, msg_QueryPack = b64_encode StdEncoding tgz,
      msg_Repositories = entries\<rparr>"
    using client_request_msg [OF assms(1,2)] .
  then show ?thesis
    using assms(3,4) by (simp add: slashless_submission_def IsBase64Gzip_encode b64_decode_encode)
qed

abbreviation demo_slashless :: request where
  "demo_slashless \<equiv> client_request ''cpp'' [''o/r'', ''x''] [CHR 0x1F, CHR 0x8B]"

lemma demo_slashless_request: "slashless_submission demo_slashless [CHR 0x1F, CHR 0x8B]"
  by (rule client_request_slashless) (simp_all add: valid_utf8_ascii)

end
