(* ===== verification/State_Machine.thy ===== *)
theory State_Machine
  imports Local_State Deployment
begin

text \<open>
  The server state as an abstract machine.  A client of \<^verbatim>\<open>state.ServerState\<close> makes
  calls and gets answers; \<open>spec_step\<close> is what it may observe of them, over the view of a state
  alone.  Every history of calls on an implementation that keeps the contract \<open>job_state\<close> is a
  history of the specification, so the in-memory state and the database cannot be told apart.
  The theory also shows what happens outside the contract.
\<close>

section \<open>Calls and answers\<close>

datatype call =
    Call_NextID
  | Call_SetStatus JobSpec Status
  | Call_GetStatus JobSpec
  | Call_SetResult AnalyzeResult
  | Call_GetResult JobSpec
  | Call_SetJobInfo JobSpec JobInfo
  | Call_GetJobInfo JobSpec
  | Call_AddJob AnalyzeJob
  | Call_GetJobList int
  | Call_GetSessionStatus int

datatype answer =
    A_Done
  | A_Error
  | A_ID int
  | A_Status Status
  | A_Result AnalyzeResult
  | A_Info JobInfo
  | A_Specs "JobSpec set"

definition answerP :: "('a \<Rightarrow> answer) \<Rightarrow> ('s, 'a result) prog \<Rightarrow> ('s, answer) prog" where
  "answerP f m = bindP m (\<lambda>r. retP (case r of Inl e \<Rightarrow> A_Error | Inr a \<Rightarrow> f a))"

fun run_call :: "('s, 'z) JobState_scheme \<Rightarrow> call \<Rightarrow> ('s, answer) prog" where
  "run_call S Call_NextID = bindP (ss_NextID S) (\<lambda>i. retP (A_ID i))"
| "run_call S (Call_SetStatus js st) = seqP (ss_SetStatus S js st) (retP A_Done)"
| "run_call S (Call_GetStatus js) = answerP A_Status (ss_GetStatus S js)"
| "run_call S (Call_SetResult r) = seqP (ss_SetResult S (res_Spec r) r) (retP A_Done)"
| "run_call S (Call_GetResult js) = answerP A_Result (ss_GetResult S js)"
| "run_call S (Call_SetJobInfo js i) = seqP (ss_SetJobInfo S js i) (retP A_Done)"
| "run_call S (Call_GetJobInfo js) = answerP A_Info (ss_GetJobInfo S js)"
| "run_call S (Call_AddJob j) = seqP (ss_AddJob S j) (retP A_Done)"
| "run_call S (Call_GetJobList sid) = answerP (\<lambda>js. A_Specs (job_Spec ` set js)) (ss_GetJobList S sid)"
| "run_call S (Call_GetSessionStatus sid) = answerP (\<lambda>x. A_Status (Overall x)) (ss_GetSessionStatus S sid)"

section \<open>The specification\<close>

definition looked_up :: "('a \<Rightarrow> answer) \<Rightarrow> 'a option \<Rightarrow> answer" where
  "looked_up f r = (case r of None \<Rightarrow> A_Error | Some a \<Rightarrow> f a)"

text \<open>
  The effect of a call on the view, and its answer; the number of a new session is any number
  of which the view knows nothing.
\<close>

fun spec_step :: "job_view \<Rightarrow> call \<Rightarrow> answer \<Rightarrow> job_view \<Rightarrow> bool" where
  "spec_step v Call_NextID a v' =
     (v' = v \<and> (case a of A_ID i \<Rightarrow> jv_specs v i = {} \<and> session_statuses v i = {} | _ \<Rightarrow> False))"
| "spec_step v (Call_SetStatus js st) a v' = (a = A_Done \<and> v' = v\<lparr>jv_status := (jv_status v)(js \<mapsto> st)\<rparr>)"
| "spec_step v (Call_GetStatus js) a v' = (a = looked_up A_Status (jv_status v js) \<and> v' = v)"
| "spec_step v (Call_SetResult r) a v' = (a = A_Done \<and> v' = v\<lparr>jv_result := (jv_result v)(res_Spec r \<mapsto> r)\<rparr>)"
| "spec_step v (Call_GetResult js) a v' = (a = looked_up A_Result (jv_result v js) \<and> v' = v)"
| "spec_step v (Call_SetJobInfo js i) a v' = (a = A_Done \<and> v' = v\<lparr>jv_info := (jv_info v)(js \<mapsto> i)\<rparr>)"
| "spec_step v (Call_GetJobInfo js) a v' = (a = looked_up A_Info (jv_info v js) \<and> v' = v)"
| "spec_step v (Call_AddJob j) a v' =
     (a = A_Done \<and> v' = v\<lparr>jv_specs := (jv_specs v)(SessionID (job_Spec j) :=
        insert (job_Spec j) (jv_specs v (SessionID (job_Spec j))))\<rparr>)"
| "spec_step v (Call_GetJobList sid) a v' = (a = A_Specs (jv_specs v sid) \<and> v' = v)"
| "spec_step v (Call_GetSessionStatus sid) a v' = (a = A_Status (overall_spec (session_statuses v sid)) \<and> v' = v)"

inductive spec_run :: "job_view \<Rightarrow> (call \<times> answer) list \<Rightarrow> job_view \<Rightarrow> bool" where
  start: "spec_run v [] v"
| more: "spec_run v h v' \<Longrightarrow> spec_step v' c a v'' \<Longrightarrow> spec_run v (h @ [(c, a)]) v''"

text \<open>The numbers of the sessions that were opened.\<close>

fun opened :: "(call \<times> answer) list \<Rightarrow> int list" where
  "opened [] = []"
| "opened ((Call_NextID, A_ID i) # h) = i # opened h"
| "opened (_ # h) = opened h"

lemma opened_append: "opened (h @ h') = opened h @ opened h'"
  by (induction h rule: opened.induct) simp_all

text \<open>Apart from the numbers of new sessions, the specification leaves no choice.\<close>

lemma spec_step_determined:
  assumes "spec_step v c a v'" and "spec_step v c b v''" and "c = Call_NextID \<Longrightarrow> opened [(c, a)] = opened [(c, b)]"
  shows "a = b \<and> v' = v''"
  using assms by (cases c) (auto split: answer.splits)

section \<open>Histories of an implementation\<close>

text \<open>
  The parts of the contract of an implementation, in one record, and the calls that it allows in
  a state: about sessions that were opened, with values that can be stored, while there is room,
  and asking for the status of a session only when a status of it is recorded.
\<close>

record 's contract =
  c_inv :: "'s \<Rightarrow> bool"
  c_view :: "'s \<Rightarrow> job_view"
  c_issued :: "'s \<Rightarrow> int \<Rightarrow> bool"
  c_room :: "'s \<Rightarrow> bool"
  c_fits :: "'s \<Rightarrow> nat \<Rightarrow> bool"
  c_spec :: "JobSpec \<Rightarrow> bool"
  c_job :: "AnalyzeJob \<Rightarrow> bool"
  c_result :: "AnalyzeResult \<Rightarrow> bool"
  c_info :: "JobInfo \<Rightarrow> bool"

definition local_contract :: "LocalState contract" where
  "local_contract =
     \<lparr>c_inv = ls_inv, c_view = ls_view, c_issued = ls_issued, c_room = (\<lambda>s. ls_currentID s < max_int64),
      c_fits = (\<lambda>_ _. True), c_spec = (\<lambda>_. True), c_job = (\<lambda>_. True), c_result = (\<lambda>_. True), c_info = (\<lambda>_. True)\<rparr>"

definition pg_contract :: "PGState contract" where
  "pg_contract =
     \<lparr>c_inv = pg_inv, c_view = pg_view, c_issued = pg_issued, c_room = (\<lambda>s. session_id_seq s < max_int32),
      c_fits = pg_fits, c_spec = key_ok, c_job = pg_adm_job, c_result = pg_adm_result, c_info = pg_adm_info\<rparr>"

fun allowed :: "'s contract \<Rightarrow> 's \<Rightarrow> call \<Rightarrow> bool" where
  "allowed K s Call_NextID = c_room K s"
| "allowed K s (Call_SetStatus js st) = (c_issued K s (SessionID js) \<and> c_spec K js \<and> known_status st)"
| "allowed K s (Call_GetStatus js) = c_spec K js"
| "allowed K s (Call_SetResult r) = (c_issued K s (SessionID (res_Spec r)) \<and> c_spec K (res_Spec r) \<and> c_result K r)"
| "allowed K s (Call_GetResult js) = c_spec K js"
| "allowed K s (Call_SetJobInfo js i) = (c_issued K s (SessionID js) \<and> c_spec K js \<and> c_info K i)"
| "allowed K s (Call_GetJobInfo js) = c_spec K js"
| "allowed K s (Call_AddJob j) =
     (c_issued K s (SessionID (job_Spec j)) \<and> c_spec K (job_Spec j) \<and> c_job K j \<and> c_fits K s 1)"
| "allowed K s (Call_GetJobList sid) = c_issued K s sid"
| "allowed K s (Call_GetSessionStatus sid) = (c_issued K s sid \<and> session_statuses (c_view K s) sid \<noteq> {})"

text \<open>A history records how each call ended, whatever that was.\<close>

inductive history :: "('s, 'z) JobState_scheme \<Rightarrow> 's contract \<Rightarrow> 's \<Rightarrow> (call \<times> answer go) list \<Rightarrow> 's \<Rightarrow> bool"
  for S K s where
  start: "history S K s [] s"
| more: "history S K s h t \<Longrightarrow> allowed K t c \<Longrightarrow> run_call S c t = (r, u) \<Longrightarrow> history S K s (h @ [(c, r)]) u"

definition answers :: "(call \<times> answer) list \<Rightarrow> (call \<times> answer go) list" where
  "answers h = map (map_prod id Ret) h"

abbreviation promises :: "('s, 'z) JobState_scheme \<Rightarrow> 's contract \<Rightarrow> bool" where
  "promises S K \<equiv> job_state S (c_inv K) (c_view K) (c_issued K) (c_room K) (c_fits K) (c_spec K) (c_job K) (c_result K) (c_info K)"

lemma local_promises: "promises Local_JobState local_contract"
  using ls.job_state_axioms by (simp add: local_contract_def)

lemma pg_promises:
  assumes "pg_healthy E"
  shows "promises (PG_ServerState E) pg_contract"
proof -
  have "pg_server E" using assms by unfold_locales
  then have "server_state (PG_ServerState E) pg_inv pg_view pg_issued (\<lambda>s. session_id_seq s < max_int32) pg_fits
      key_ok pg_adm_job pg_adm_result pg_adm_info pg_repo_ids" by (rule pg_server.contract)
  then show ?thesis by (simp add: pg_contract_def server_state_def)
qed

text \<open>One call: it returns, keeps the invariant, and is a step of the specification.\<close>

definition simulated :: "('s, 'z) JobState_scheme \<Rightarrow> 's contract \<Rightarrow> 's \<Rightarrow> call \<Rightarrow> bool" where
  "simulated S K s c \<longleftrightarrow> (\<exists>a t. run_call S c s = (Ret a, t) \<and> c_inv K t \<and> spec_step (c_view K s) c a (c_view K t)
     \<and> (\<forall>i. c_issued K t i = (c_issued K s i \<or> i \<in> set (opened [(c, a)])))
     \<and> (\<forall>i \<in> set (opened [(c, a)]). \<not> c_issued K s i))"

lemma answerP_looked_up:
  assumes "m s = (Ret r, t)" and "case x of Some a \<Rightarrow> r = Inr a | None \<Rightarrow> isl r"
  shows "answerP f m s = (Ret (looked_up f x), t)"
  using assms by (auto simp: answerP_def looked_up_def split: option.splits sum.splits)

lemma simulatedI:
  assumes "run_call S c s = (Ret a, t)" and "c_inv K t" and "spec_step (c_view K s) c a (c_view K t)"
    and "c_issued K t = c_issued K s" and "opened [(c, a)] = []"
  shows "simulated S K s c"
  using assms unfolding simulated_def by auto

text \<open>One lemma per call.\<close>

lemma simulated_NextID:
  assumes P: "promises S K" and ok: "c_inv K s" and al: "allowed K s Call_NextID"
  shows "simulated S K s Call_NextID"
proof -
  obtain i t where "ss_NextID S s = (Ret i, t)" "c_inv K t" "c_view K t = c_view K s" "\<not> c_issued K s i"
    "c_issued K t = (c_issued K s)(i := True)" "jv_specs (c_view K s) i = {}" "session_statuses (c_view K s) i = {}"
    using job_state.next_id [OF P ok] al by auto
  then show ?thesis unfolding simulated_def
    by (intro exI [of _ "A_ID i"] exI [of _ t]) auto
qed

lemma simulated_SetStatus:
  assumes P: "promises S K" and ok: "c_inv K s" and al: "allowed K s (Call_SetStatus js st)"
  shows "simulated S K s (Call_SetStatus js st)"
proof -
  obtain t where "ss_SetStatus S js st s = (Ret (), t)" "c_inv K t" "c_issued K t = c_issued K s"
    "c_view K t = (c_view K s)\<lparr>jv_status := (jv_status (c_view K s))(js \<mapsto> st)\<rparr>"
    using job_state.set_status [OF P ok] al by (metis allowed.simps(2))
  then show ?thesis by (intro simulatedI [of _ _ _ A_Done t]) simp_all
qed

lemma simulated_GetStatus:
  assumes P: "promises S K" and ok: "c_inv K s" and al: "allowed K s (Call_GetStatus js)"
  shows "simulated S K s (Call_GetStatus js)"
proof -
  obtain r t where "ss_GetStatus S js s = (Ret r, t)" "c_inv K t" "c_issued K t = c_issued K s" "c_view K t = c_view K s"
    "case jv_status (c_view K s) js of Some st \<Rightarrow> r = Inr st | None \<Rightarrow> isl r"
    using job_state.get_status [OF P ok, of js] al by auto
  then show ?thesis
    by (intro simulatedI [of _ _ _ "looked_up A_Status (jv_status (c_view K s) js)" t])
      (simp_all add: answerP_looked_up)
qed

lemma simulated_SetResult:
  assumes P: "promises S K" and ok: "c_inv K s" and al: "allowed K s (Call_SetResult r)"
  shows "simulated S K s (Call_SetResult r)"
proof -
  obtain t where "ss_SetResult S (res_Spec r) r s = (Ret (), t)" "c_inv K t" "c_issued K t = c_issued K s"
    "c_view K t = (c_view K s)\<lparr>jv_result := (jv_result (c_view K s))(res_Spec r \<mapsto> r)\<rparr>"
    using job_state.set_result [OF P ok] al by (metis allowed.simps(4))
  then show ?thesis by (intro simulatedI [of _ _ _ A_Done t]) simp_all
qed

lemma simulated_GetResult:
  assumes P: "promises S K" and ok: "c_inv K s" and al: "allowed K s (Call_GetResult js)"
  shows "simulated S K s (Call_GetResult js)"
proof -
  obtain r t where "ss_GetResult S js s = (Ret r, t)" "c_inv K t" "c_issued K t = c_issued K s" "c_view K t = c_view K s"
    "case jv_result (c_view K s) js of Some st \<Rightarrow> r = Inr st | None \<Rightarrow> isl r"
    using job_state.get_result [OF P ok, of js] al by auto
  then show ?thesis
    by (intro simulatedI [of _ _ _ "looked_up A_Result (jv_result (c_view K s) js)" t])
      (simp_all add: answerP_looked_up)
qed

lemma simulated_SetJobInfo:
  assumes P: "promises S K" and ok: "c_inv K s" and al: "allowed K s (Call_SetJobInfo js i)"
  shows "simulated S K s (Call_SetJobInfo js i)"
proof -
  obtain t where "ss_SetJobInfo S js i s = (Ret (), t)" "c_inv K t" "c_issued K t = c_issued K s"
    "c_view K t = (c_view K s)\<lparr>jv_info := (jv_info (c_view K s))(js \<mapsto> i)\<rparr>"
    using job_state.set_info [OF P ok] al by (metis allowed.simps(6))
  then show ?thesis by (intro simulatedI [of _ _ _ A_Done t]) simp_all
qed

lemma simulated_GetJobInfo:
  assumes P: "promises S K" and ok: "c_inv K s" and al: "allowed K s (Call_GetJobInfo js)"
  shows "simulated S K s (Call_GetJobInfo js)"
proof -
  obtain r t where "ss_GetJobInfo S js s = (Ret r, t)" "c_inv K t" "c_issued K t = c_issued K s" "c_view K t = c_view K s"
    "case jv_info (c_view K s) js of Some st \<Rightarrow> r = Inr st | None \<Rightarrow> isl r"
    using job_state.get_info [OF P ok, of js] al by auto
  then show ?thesis
    by (intro simulatedI [of _ _ _ "looked_up A_Info (jv_info (c_view K s) js)" t])
      (simp_all add: answerP_looked_up)
qed

lemma simulated_AddJob:
  assumes P: "promises S K" and ok: "c_inv K s" and al: "allowed K s (Call_AddJob j)"
  shows "simulated S K s (Call_AddJob j)"
proof -
  obtain t where "ss_AddJob S j s = (Ret (), t)" "c_inv K t" "c_issued K t = c_issued K s"
    "c_view K t = (c_view K s)\<lparr>jv_specs := (jv_specs (c_view K s))
       (SessionID (job_Spec j) := insert (job_Spec j) (jv_specs (c_view K s) (SessionID (job_Spec j))))\<rparr>"
    using job_state.add_job [OF P ok, of j 0] al by auto
  then show ?thesis by (intro simulatedI [of _ _ _ A_Done t]) simp_all
qed

lemma simulated_GetJobList:
  assumes P: "promises S K" and ok: "c_inv K s" and al: "allowed K s (Call_GetJobList sid)"
  shows "simulated S K s (Call_GetJobList sid)"
proof -
  obtain js t where "ss_GetJobList S sid s = (Ret (Inr js), t)" "c_inv K t" "c_issued K t = c_issued K s"
    "c_view K t = c_view K s" "job_Spec ` set js = jv_specs (c_view K s) sid"
    using job_state.get_jobs [OF P ok, of sid] al by auto
  then show ?thesis
    by (intro simulatedI [of _ _ _ "A_Specs (jv_specs (c_view K s) sid)" t]) (simp_all add: answerP_def)
qed

lemma simulated_GetSessionStatus:
  assumes P: "promises S K" and ok: "c_inv K s" and al: "allowed K s (Call_GetSessionStatus sid)"
  shows "simulated S K s (Call_GetSessionStatus sid)"
proof -
  obtain x t where "ss_GetSessionStatus S sid s = (Ret (Inr x), t)" "c_inv K t" "c_issued K t = c_issued K s"
    "c_view K t = c_view K s" "Overall x = overall_spec (session_statuses (c_view K s) sid)"
    using job_state.get_session [OF P ok, of sid] al by auto
  then show ?thesis
    by (intro simulatedI [of _ _ _ "A_Status (overall_spec (session_statuses (c_view K s) sid))" t])
      (simp_all add: answerP_def)
qed

lemma call_simulated: "promises S K \<Longrightarrow> c_inv K s \<Longrightarrow> allowed K s c \<Longrightarrow> simulated S K s c"
  by (cases c) (simp_all only: simulated_NextID simulated_SetStatus simulated_GetStatus simulated_SetResult simulated_GetResult
      simulated_SetJobInfo simulated_GetJobInfo simulated_AddJob simulated_GetJobList simulated_GetSessionStatus)

text \<open>The refinement: every history consists of answers, and they form a run of the specification.\<close>

lemma history_simulated:
  assumes P: "promises S K" and ok: "c_inv K s" and h: "history S K s h t"
  shows "\<exists>g. h = answers g \<and> spec_run (c_view K s) g (c_view K t) \<and> c_inv K t
    \<and> (\<forall>i. c_issued K t i = (c_issued K s i \<or> i \<in> set (opened g)))
    \<and> distinct (opened g) \<and> (\<forall>i \<in> set (opened g). \<not> c_issued K s i)"
  using h
proof (induction)
  case start
  show ?case using ok by (intro exI [of _ "[]"]) (auto simp: answers_def intro: spec_run.start)
next
  case (more h t c r u)
  then obtain g where g: "h = answers g" "spec_run (c_view K s) g (c_view K t)" "c_inv K t"
    "\<forall>i. c_issued K t i = (c_issued K s i \<or> i \<in> set (opened g))"
    "distinct (opened g)" "\<forall>i \<in> set (opened g). \<not> c_issued K s i" by blast
  obtain a where a: "r = Ret a" "c_inv K u" "spec_step (c_view K t) c a (c_view K u)"
    "\<forall>i. c_issued K u i = (c_issued K t i \<or> i \<in> set (opened [(c, a)]))"
    "\<forall>i \<in> set (opened [(c, a)]). \<not> c_issued K t i"
    using call_simulated [OF P g(3) more(2)] more(3) unfolding simulated_def by auto
  have "distinct (opened [(c, a)])" by (cases c; cases a) simp_all
  with g a show ?case
    by (intro exI [of _ "g @ [(c, a)]"])
      (auto simp: answers_def opened_append intro: spec_run.more)
qed

text \<open>The numbers that a history handed out.\<close>

fun numbers :: "(call \<times> answer go) list \<Rightarrow> int list" where
  "numbers [] = []"
| "numbers ((Call_NextID, Ret (A_ID i)) # h) = i # numbers h"
| "numbers (_ # h) = numbers h"

lemma numbers_answers: "numbers (answers g) = opened g"
  by (induction g rule: opened.induct) (simp_all add: answers_def)

section \<open>Both implementations refine the specification\<close>

text \<open>A short history: a session is opened, a job is marked as pending, and the session is asked for.\<close>

definition demo_calls :: "(call \<times> answer) list" where
  "demo_calls = [(Call_NextID, A_ID 1), (Call_SetStatus demo_spec StatusPending, A_Done),
     (Call_GetSessionStatus 1, A_Status StatusPending)]"

lemma demo_calls_three:
  assumes "allowed K s Call_NextID" "run_call S Call_NextID s = (Ret (A_ID 1), x)"
    "allowed K x (Call_SetStatus demo_spec StatusPending)" "run_call S (Call_SetStatus demo_spec StatusPending) x = (Ret A_Done, y)"
    "allowed K y (Call_GetSessionStatus 1)" "run_call S (Call_GetSessionStatus 1) y = (Ret (A_Status StatusPending), z)"
  shows "history S K s (answers demo_calls) z"
  using history.more [OF history.more [OF history.more [OF history.start assms(1,2)] assms(3,4)] assms(5,6)]
  by (simp add: answers_def demo_calls_def)

lemma demo_local_history: "\<exists>t. history Local_JobState local_contract (NewLocalState 0) (answers demo_calls) t"
proof -
  let ?s1 = "(NewLocalState 0)\<lparr>ls_currentID := 1, ls_jobs := gm_put 1 [] (ls_jobs (NewLocalState 0))\<rparr>"
  let ?s2 = "?s1\<lparr>ls_status := [(demo_spec, StatusPending)]\<rparr>"
  have "history Local_JobState local_contract (NewLocalState 0) (answers demo_calls) ?s2"
  proof (rule demo_calls_three [where x = ?s1 and y = ?s2])
    show "run_call Local_JobState Call_NextID (NewLocalState 0) = (Ret (A_ID 1), ?s1)"
      by (simp add: Local_JobState_def ls_NextID_def with_lock_def NewLocalState_def wrap64_def Let_def)
    show "run_call Local_JobState (Call_SetStatus demo_spec StatusPending) ?s1 = (Ret A_Done, ?s2)"
      by (simp add: Local_JobState_def ls_SetStatus_def with_lock_def NewLocalState_def)
    show "run_call Local_JobState (Call_GetSessionStatus 1) ?s2 = (Ret (A_Status StatusPending), ?s2)"
      by (simp add: Local_JobState_def ls_GetSessionStatus_def with_lock_def NewLocalState_def answerP_def Let_def
          ls_session_statuses_def demo_spec_def overall_of_def init_counts_def gm_get0_def status_defs)
  qed (auto simp: local_contract_def NewLocalState_def ls_issued_def demo_spec_def known_status_iff session_statuses_def ls_view_def)
  then show ?thesis by blast
qed

lemma demo_pg_history: "\<exists>t. history (PG_ServerState pg_plain) pg_contract demo_pg (answers demo_calls) t"
proof -
  let ?s1 = "demo_pg\<lparr>session_id_seq := 1, pg_clock := 1\<rparr>"
  let ?s2 = "demo_pg\<lparr>session_id_seq := 1, job_status := [(demo_spec, StatusPending)], pg_clock := 2\<rparr>"
  have key: "key_ok demo_spec" by (rule demo_key)
  have "history (PG_ServerState pg_plain) pg_contract demo_pg (answers demo_calls) (?s2\<lparr>pg_clock := 3\<rparr>)"
  proof (rule demo_calls_three [where x = ?s1 and y = ?s2])
    show "run_call (PG_ServerState pg_plain) Call_NextID demo_pg = (Ret (A_ID 1), ?s1)"
      by (simp add: PG_ServerState_def pg_NextID_def pg_exec_def pg_plain_def demo_pg_def PG_empty_def schemas_def Let_def)
    show "run_call (PG_ServerState pg_plain) (Call_SetStatus demo_spec StatusPending) ?s1 = (Ret A_Done, ?s2)"
      using key by (simp add: PG_ServerState_def pg_SetStatus_def pg_exec_def pg_plain_def demo_pg_def PG_empty_def
          schemas_def Let_def int4_ok_def status_defs)
    show "run_call (PG_ServerState pg_plain) (Call_GetSessionStatus 1) ?s2 = (Ret (A_Status StatusPending), ?s2\<lparr>pg_clock := 3\<rparr>)"
      by (simp add: PG_ServerState_def pg_GetSessionStatus_def pg_exec_def pg_plain_def demo_pg_def PG_empty_def
          schemas_def Let_def int4_ok_def rows_seen_def pg_statuses_def answerP_def demo_spec_def overall_of_def
          init_counts_def gm_get0_def status_defs)
  qed (use key in \<open>auto simp: pg_contract_def demo_pg_def PG_empty_def pg_issued_def demo_spec_def known_status_iff
      session_statuses_def pg_view_def\<close>)
  then show ?thesis by blast
qed

lemma demo_start: "ls_inv (NewLocalState 0)" "pg_inv demo_pg"
proof -
  show "ls_inv (NewLocalState 0)" by (rule ls_inv_new) simp_all
  show "pg_inv demo_pg" using demo_world_ok by (simp add: sys_ok_def)
qed

text \<open>
  C6. The in-memory state refines the specification of a server state.  However many calls are
  made, as long as each is about an opened session: no call panics or waits for the mutex
  forever, each gets the answer that the specification prescribes for the calls before it, and the indexes of
  the state stay consistent.
\<close>

theorem local_state_refines:
  assumes "ls_inv s" and "history Local_JobState local_contract s h t"
  shows "\<exists>g. h = answers g \<and> spec_run (ls_view s) g (ls_view t) \<and> ls_inv t"
  using history_simulated [OF local_promises _ assms(2)] assms(1) by (auto simp: local_contract_def)

theorem local_state_refines_witness:
  "\<exists>g t. answers demo_calls = answers g \<and> spec_run (ls_view (NewLocalState 0)) g (ls_view t) \<and> ls_inv t"
  using demo_local_history local_state_refines [OF demo_start(1)] by blast

text \<open>
  C5. The database state refines the same specification: on a database that works, every call
  about an opened session with values that the columns can hold returns, gets the answer
  that the specification prescribes for the calls before it, and leaves tables that satisfy their invariant
  (every stored JSON value reads back, every row belongs to a session, the identifiers of repositories are unique).
\<close>

theorem pg_state_refines:
  assumes "pg_healthy E" and "pg_inv s" and "history (PG_ServerState E) pg_contract s h t"
  shows "\<exists>g. h = answers g \<and> spec_run (pg_view s) g (pg_view t) \<and> pg_inv t"
  using history_simulated [OF pg_promises [OF assms(1)] _ assms(3)] assms(2) by (auto simp: pg_contract_def)

theorem pg_state_refines_witness:
  "\<exists>g t. answers demo_calls = answers g \<and> spec_run (pg_view demo_pg) g (pg_view t) \<and> pg_inv t"
  using demo_pg_history pg_state_refines [OF pg_plain_healthy demo_start(2)] by blast

text \<open>
  C18. Session numbers are unique: in any history of a working database, no number is handed out
  twice, and none that had been handed out before.
\<close>

theorem session_numbers_unique:
  assumes "pg_healthy E" and "pg_inv s" and "history (PG_ServerState E) pg_contract s h t"
  shows "distinct (numbers h) \<and> (\<forall>i. i \<in> set (numbers h) \<longleftrightarrow> pg_issued t i \<and> \<not> pg_issued s i)"
proof -
  obtain g where "h = answers g" "\<forall>i. pg_issued t i = (pg_issued s i \<or> i \<in> set (opened g))"
    "distinct (opened g)" "\<forall>i \<in> set (opened g). \<not> pg_issued s i"
    using history_simulated [OF pg_promises [OF assms(1)] _ assms(3)] assms(2) by (auto simp: pg_contract_def)
  then show ?thesis by (auto simp: numbers_answers)
qed

theorem session_numbers_unique_witness:
  "\<exists>t. history (PG_ServerState pg_plain) pg_contract demo_pg (answers demo_calls) t
    \<and> distinct (numbers (answers demo_calls)) \<and> (pg_issued t 1 \<and> \<not> pg_issued demo_pg 1)"
proof -
  obtain t where t: "history (PG_ServerState pg_plain) pg_contract demo_pg (answers demo_calls) t"
    using demo_pg_history by blast
  have "1 \<in> set (numbers (answers demo_calls))" by (simp add: numbers_answers demo_calls_def)
  with session_numbers_unique [OF pg_plain_healthy demo_start(2) t] t show ?thesis by blast
qed

section \<open>Session status\<close>

text \<open>
  C25. The status of a session depends only on how often each status occurs among its jobs, not
  on the order of the rows: the counting loop with its switch computes the closed rule
  \<open>overall_spec\<close> over the set of statuses, and reports for each status the number of its jobs.
\<close>

theorem session_status_rule:
  "pg_healthy E \<Longrightarrow> pg_inv s \<Longrightarrow> pg_issued s sid \<Longrightarrow>
     \<exists>x t. pg_GetSessionStatus E sid s = (Ret (Inr x), t) \<and> Overall x = overall_spec (set (pg_statuses s sid))
       \<and> (\<forall>st. gm_get0 0 (Counts x) st = int (count (mset (pg_statuses s sid)) st))"
  using pg_GetSessionStatus_run [of E s sid] issued_int4 [of s sid] summarize_overall summarize_counts
  by (simp add: count_mset)

theorem session_status_rule_witness:
  "\<exists>x t. pg_GetSessionStatus pg_plain 1 demo_session = (Ret (Inr x), t) \<and> Overall x = StatusPending"
proof -
  have "set (pg_statuses demo_session 1) = {StatusPending}"
    by (simp add: demo_session_def pg_statuses_def demo_spec_def)
  then have "overall_spec (set (pg_statuses demo_session 1)) = StatusPending" by (simp add: overall_spec_def)
  with session_status_rule [OF pg_plain_healthy demo_session_inv demo_view(4)] show ?thesis by auto
qed

text \<open>
  C36. A session in which every job ended and none succeeded is reported as succeeded as soon as
  the jobs ended in different ways, for instance one failed and one canceled.
\<close>

theorem mixed_failures_reported_succeeded:
  assumes "pg_healthy E" and "pg_inv s" and "pg_issued s sid"
    and "set (pg_statuses s sid) \<subseteq> {StatusFailed, StatusCanceled, StatusTimedOut}"
    and "a \<in> set (pg_statuses s sid)" and "b \<in> set (pg_statuses s sid)" and "a \<noteq> b"
  shows "\<exists>x t. pg_GetSessionStatus E sid s = (Ret (Inr x), t) \<and> Overall x = StatusSucceeded
    \<and> gm_get0 0 (Counts x) StatusSucceeded = 0"
proof -
  have "StatusPending \<notin> set (pg_statuses s sid)" "StatusInProgress \<notin> set (pg_statuses s sid)"
    "StatusSucceeded \<notin> set (pg_statuses s sid)"
    using assms(4) by (auto simp: status_defs)
  moreover have "set (pg_statuses s sid) \<noteq> {st}" for st using assms(5-7) by (metis singletonD)
  ultimately have "overall_spec (set (pg_statuses s sid)) = StatusSucceeded" "StatusSucceeded \<notin> set (pg_statuses s sid)"
    by (simp_all add: overall_spec_def)
  then show ?thesis
    using pg_GetSessionStatus_run [OF assms(1,2) issued_int4 [OF assms(2,3)]]
    by (simp add: summarize_overall summarize_counts)
qed

definition demo_mixed :: PGState where
  "demo_mixed = demo_pg\<lparr>session_id_seq := 1, job_status :=
     [(demo_spec, StatusFailed), (demo_spec\<lparr>NWO := \<lparr>Owner = ''o'', Repo = ''q''\<rparr>\<rparr>, StatusCanceled)]\<rparr>"

theorem mixed_failures_reported_succeeded_witness:
  "\<exists>x t. pg_GetSessionStatus pg_plain 1 demo_mixed = (Ret (Inr x), t) \<and> Overall x = StatusSucceeded
    \<and> gm_get0 0 (Counts x) StatusSucceeded = 0"
proof (rule mixed_failures_reported_succeeded [OF pg_plain_healthy, where a = StatusFailed and b = StatusCanceled])
  show "pg_inv demo_mixed"
    by (auto simp: demo_mixed_def demo_pg_def PG_empty_def pg_inv_def pg_repos_ok_def gm_wf_def session_row_def demo_spec_def
        split: if_splits)
qed (simp_all add: demo_mixed_def pg_issued_def pg_statuses_def demo_spec_def)

section \<open>Identifiers of repositories\<close>

text \<open>
  C27. The identifiers of repositories are stable and unique: asking twice for the same
  repository gives the same identifier, asking for different ones different identifiers, and an
  identifier leads back to its repository.
\<close>

theorem repo_ids_identify:
  assumes "pg_healthy E" and "pg_inv s" and "pg_fits s 2"
    and "key_ok \<lparr>SessionID = 0, NWO = m\<rparr>" and "key_ok \<lparr>SessionID = 0, NWO = n\<rparr>"
  shows "\<exists>i t j u. pg_GetRepoId E m s = (Ret i, t) \<and> pg_GetRepoId E n t = (Ret j, u) \<and> (i = j \<longleftrightarrow> m = n)
    \<and> pg_view u = pg_view s
    \<and> (\<forall>sid. fst (pg_GetJobSpecByRepoId E sid i u) = Ret (Inr \<lparr>SessionID = sid, NWO = m\<rparr>))"
proof -
  have "pg_server E" using assms(1) by unfold_locales
  note C = pg_server.contract [OF this]
  obtain i t where i: "pg_GetRepoId E m s = (Ret i, t)" "pg_inv t" "pg_fits t 1" "pg_view t = pg_view s" "pg_repo_ids t i = Some m"
    using server_state.get_repo_id [OF C assms(2,4), of 1] assms(3) by (auto simp: PG_ServerState_def numeral_2_eq_2)
  obtain j u where j: "pg_GetRepoId E n t = (Ret j, u)" "pg_inv u" "pg_view u = pg_view t" "pg_repo_ids u j = Some n"
    using server_state.get_repo_id [OF C i(2) assms(5), of 0] i(3) by (auto simp: PG_ServerState_def)
  have "keeps_ids pg_repo_ids (pg_GetRepoId E n)"
    using server_state.ids_kept(12) [OF C, of n] by (simp add: PG_ServerState_def)
  from keeps_idsD [OF this j(1) i(5)] have m: "pg_repo_ids u i = Some m" .
  have "distinct (map snd (job_repo_map u))" using j(2) by (simp add: pg_inv_def pg_repos_ok_def)
  moreover have "(i, m) \<in> set (job_repo_map u)" "(j, n) \<in> set (job_repo_map u)"
    using m j(4) by (simp_all add: pg_repo_ids_def map_of_SomeD)
  ultimately have "i = j" if "m = n" using that inj_onD [of snd "set (job_repo_map u)" "(i, m)" "(j, n)"] by (simp add: distinct_map)
  then have "i = j \<longleftrightarrow> m = n" using m j(4) by auto
  moreover have "fst (pg_GetJobSpecByRepoId E sid i u) = Ret (Inr \<lparr>SessionID = sid, NWO = m\<rparr>)" for sid
    using server_state.spec_by_repo_id [OF C j(2) m, of sid] by (auto simp: PG_ServerState_def)
  ultimately show ?thesis
    using i(1,4) j(1,3) by (intro exI [of _ i] exI [of _ t] exI [of _ j] exI [of _ u]) simp
qed

theorem repo_ids_identify_witness:
  "\<exists>i t j u. pg_GetRepoId pg_plain \<lparr>Owner = ''o'', Repo = ''r''\<rparr> demo_pg = (Ret i, t)
    \<and> pg_GetRepoId pg_plain \<lparr>Owner = ''o'', Repo = ''k''\<rparr> t = (Ret j, u) \<and> i \<noteq> j"
proof -
  have "key_ok \<lparr>SessionID = 0, NWO = \<lparr>Owner = ''o'', Repo = ''r''\<rparr>\<rparr>" "key_ok \<lparr>SessionID = 0, NWO = \<lparr>Owner = ''o'', Repo = ''k''\<rparr>\<rparr>"
    "pg_fits demo_pg 2"
    using demo_texts by (simp_all add: key_ok_def int4_ok_def pg_fits_def demo_pg_def PG_empty_def)
  with repo_ids_identify [OF pg_plain_healthy demo_start(2)] show ?thesis by fastforce
qed

section \<open>Outside the contract\<close>

text \<open>
  C35. A result that is faster than the submission is hidden.  The server hands a job to the
  queue before it marks the job as pending; when the result is consumed in between, the job
  ends up as pending, although its result is stored.
\<close>

theorem early_result_hidden:
  assumes "pg_healthy E" and "pg_inv s" and "pg_issued s (SessionID (res_Spec r))" and "pg_fits s 1"
    and "key_ok (res_Spec r)" and "pg_adm_result r" and "known_status (res_Status r)"
    and "pg_adm_job j" and "job_Spec j = res_Spec r"
  shows "\<exists>t u. consume_result (PG_ServerState E) r s = (Ret (), t) \<and> submit_job (PG_ServerState E) j t = (Ret (), u)
    \<and> jv_status (pg_view t) (res_Spec r) = Some (res_Status r)
    \<and> jv_status (pg_view u) (res_Spec r) = Some StatusPending \<and> jv_result (pg_view u) (res_Spec r) = Some r"
proof -
  have P: "pg_server E" using assms(1) by unfold_locales
  have J: "job_state (PG_ServerState E) pg_inv pg_view pg_issued (\<lambda>s. session_id_seq s < max_int32) pg_fits
      key_ok pg_adm_job pg_adm_result pg_adm_info"
    using pg_server.contract [OF P] by (simp add: server_state_def)
  obtain t where t: "consume_result (PG_ServerState E) r s = (Ret (), t)" "pg_inv t" "pg_issued t = pg_issued s" "pg_fits t = pg_fits s"
    "pg_view t = (pg_view s)\<lparr>jv_result := (jv_result (pg_view s))(res_Spec r \<mapsto> r),
        jv_status := (jv_status (pg_view s))(res_Spec r \<mapsto> res_Status r)\<rparr>"
    using job_state.consume_result_effect [OF J assms(2,3,5,6,7)] by blast
  have "job_state.adm key_ok pg_adm_job j"
    using assms(5,8,9) by (simp add: job_state.adm_def [OF J])
  from job_state.submit_job_effect [OF J t(2) _ this, of 0] t assms(3,4,9) show ?thesis by auto
qed

theorem early_result_hidden_witness:
  "\<exists>t u. consume_result (PG_ServerState pg_plain) demo_result demo_session = (Ret (), t)
    \<and> submit_job (PG_ServerState pg_plain) demo_job t = (Ret (), u)
    \<and> jv_status (pg_view u) demo_spec = Some StatusPending \<and> jv_result (pg_view u) demo_spec = Some demo_result"
proof -
  have spec: "job_Spec demo_job = res_Spec demo_result" "res_Spec demo_result = demo_spec"
    by (simp_all add: demo_job_def demo_result_def demo_spec_def)
  have "pg_fits demo_session 1" by (simp add: pg_fits_def demo_session_def demo_pg_def PG_empty_def)
  moreover have "known_status (res_Status demo_result)" by (simp add: demo_result_def known_status_iff)
  moreover have "pg_adm_job demo_job"
    using wf_demo_job by (simp add: pg_adm_job_def demo_job_def AnalyzeJob_json_def ArtifactLocation_json_def JobSpec_json_def
        JobSpec_members_def JInt_def Itoa_def)
  moreover have "pg_issued demo_session (SessionID (res_Spec demo_result))"
    using demo_view(4) by (simp add: demo_result_def demo_spec_def)
  moreover have "key_ok (res_Spec demo_result)" using demo_key(1) by (simp add: spec)
  ultimately show ?thesis
    using early_result_hidden [OF pg_plain_healthy demo_session_inv, of demo_result demo_job] demo_result_adm(1) spec by auto
qed

text \<open>
  C37. The in-memory state can lock itself up: when a job is added to a session before the number
  of the session is handed out, the next job of the session makes \<^verbatim>\<open>AddJob\<close> panic with the
  mutex held, and from then on every call waits forever.
\<close>

theorem early_job_locks_state:
  assumes "ls_inv s" and "ls_currentID s < max_int64"
    and "SessionID (job_Spec j) = ls_currentID s + 1" and "SessionID (job_Spec k) = ls_currentID s + 1"
  shows "\<exists>e t. seqP (ls_AddJob j) (seqP ls_NextID (ls_AddJob k)) s = (Panic e, t)
    \<and> (\<forall>c. run_call Local_JobState c t = (Hang, t))"
proof -
  let ?i = "ls_currentID s + 1"
  have new: "gm_get (ls_jobs s) ?i = None" using assms(1) by (simp add: ls_inv_def)
  have "numbered (gm_get0 [] (ls_jobs s) ?i) (gm_get0 [] (ls_sessionToJobIdToSpec s) ?i)"
    using assms(1) by (simp add: ls_inv_def)
  then have ids: "gm_get0 [] (ls_sessionToJobIdToSpec s) ?i = []" using new by (simp add: gm_get0_def numbered_def)
  obtain t where t: "ls_AddJob j s = (Ret (), t)" "ls_jobs t = gm_put ?i [j] (ls_jobs s)"
    "gm_get0 [] (ls_sessionToJobIdToSpec t) ?i = [(0, job_Spec j)]" "ls_mutex t = ls_mutex s" "ls_currentID t = ls_currentID s"
    using ls_AddJob_run [OF assms(1), of j] assms(3) new ids by (auto simp: gm_get0_def)
  have free: "\<not> ls_mutex s" using assms(1) by (simp add: ls_inv_def)
  have w: "wrap64 ?i = ?i" using assms(1,2) by (intro wrap64_id) (simp_all add: ls_inv_def)
  have some: "gm_get (ls_sessionToJobIdToSpec t) ?i = Some [(0, job_Spec j)]"
    using t(3) by (auto simp: gm_get0_def split: option.splits)
  define u where "u = t\<lparr>ls_currentID := ?i, ls_jobs := gm_put ?i [] (ls_jobs t)\<rparr>"
  have "ls_NextID t = (Ret ?i, u)" using free t w by (simp add: ls_NextID_def with_lock_def Let_def u_def)
  moreover obtain e v where "ls_AddJob k u = (Panic e, v)" "ls_mutex v"
    using free t some assms(4) by (auto simp: ls_AddJob_def with_lock_def Let_def u_def gm_get0_def)
  moreover have "run_call Local_JobState c v = (Hang, v)" if "ls_mutex v" for c v
    using that by (cases c) (simp_all add: Local_JobState_def answerP_def with_lock_def ls_NextID_def ls_SetStatus_def
        ls_GetStatus_def ls_SetResult_def ls_GetResult_def ls_SetJobInfo_def ls_GetJobInfo_def ls_AddJob_def ls_GetJobList_def
        ls_GetSessionStatus_def)
  ultimately show ?thesis using t(1) by auto
qed

theorem early_job_locks_state_witness:
  "\<exists>e t. seqP (ls_AddJob demo_job) (seqP ls_NextID (ls_AddJob demo_job)) (NewLocalState 0) = (Panic e, t)
    \<and> run_call Local_JobState Call_NextID t = (Hang, t)"
proof -
  have "ls_currentID (NewLocalState 0) < max_int64" "SessionID (job_Spec demo_job) = ls_currentID (NewLocalState 0) + 1"
    by (simp_all add: NewLocalState_def demo_job_def)
  from early_job_locks_state [OF demo_start(1) this this(2)] show ?thesis by blast
qed

end
