(* ===== verification/Codeql.thy ===== *)
theory Codeql
  imports Archive Go_Json Common_Types "HOL-Library.Char_ord" "HOL-Library.List_Lexorder"
begin

text \<open>
  The CodeQL runner, package \<^verbatim>\<open>pkg/codeql\<close>: unpacking a database, running the queries
  of a pack with the CodeQL command line tool, interpreting the results as SARIF and packing
  them into an archive.  The command line tool, the YAML decoder, the archive formats and the
  text of floating-point numbers are parameters (\<open>codeql_env\<close>); a command may change the
  file system.
\<close>

section \<open>Data\<close>

record CodeqlCli =
  cli_Path :: string

record BqrsFilePaths =
  bp_BasePath :: string
  bp_RelativeFilePaths :: "string list"

record RunQueryResult =
  rr_ResultCount :: int
  rr_DatabaseSHA :: string
  rr_SourceLocationPrefix :: string
  rr_BqrsFilePaths :: BqrsFilePaths
  rr_SarifFilePath :: string

record SarifRun =
  run_VersionControlProvenance :: "json list"
  run_Results :: "json list"

record Sarif =
  sarif_Runs :: "SarifRun list"

record CreationMetadata =
  cm_SHA :: "string option"
  cm_CLIVersion :: "string option"

record DatabaseMetadata =
  dm_CreationMetadata :: "CreationMetadata option"

record QueryMetadata =
  qm_ID :: "string option"
  qm_Kind :: "string option"

record ResultSet =
  rset_Name :: string
  rset_Rows :: int

record BQRSInfo =
  bqrs_ResultSets :: "ResultSet list"
  bqrs_CompatibleQueryKinds :: "string list"

record Query =
  q_QueryPath :: string
  q_QueryMetadata :: QueryMetadata
  q_RelativeBqrsFilePath :: string
  q_BqrsInfo :: BQRSInfo

record QueryPackRunResults =
  qp_Queries :: "Query list"
  qp_TotalResultsCount :: int
  qp_ResultsBasePath :: string

record ResolvedDatabase =
  rd_SourceLocationPrefix :: string

record CodeQLCommandOutput =
  co_ExitCode :: int
  co_Stdout :: string

text \<open>
  A finished command: what it wrote to its standard output, what it wrote to both outputs
  together, and its failure.  \<open>cq_exec\<close> is \<open>None\<close> for a command that never exits; the
  commands are run without a time limit.  \<open>cq_float64\<close> reads a JSON number as a 64-bit float and prints
  it again, or fails when it is out of range; \<open>cq_zip\<close> is the archive that
  \<^verbatim>\<open>zip.Writer\<close> makes of a sequence of entries.
\<close>

record cmd_outcome =
  cmd_stdout :: bytes
  cmd_combined :: bytes
  cmd_err :: "error option"

record codeql_env =
  cq_os :: os_env
  cq_lib :: archive_lib
  cq_getenv :: "string \<Rightarrow> string"
  cq_exec :: "nat \<Rightarrow> string list \<Rightarrow> fs \<Rightarrow> (cmd_outcome \<times> fs) option"
  cq_yaml :: "bytes \<Rightarrow> DatabaseMetadata result"
  cq_float64 :: "string \<Rightarrow> string option"
  cq_zip :: "(string \<times> bytes) list \<Rightarrow> bytes result"

section \<open>Helpers\<close>

fun contains :: "string list \<Rightarrow> string \<Rightarrow> bool" where
  "contains [] item = False"
| "contains (s # ss) item = (if s = item then True else contains ss item)"

definition getCodeQLCLIPath :: "codeql_env \<Rightarrow> string result" where
  "getCodeQLCLIPath E =
     (let codeqlCliPath = cq_getenv E ''CODEQL_CLI_PATH'' in
      if codeqlCliPath = [] then Inl (ErrMsg ''CODEQL_CLI_PATH environment variable not set'')
      else Inr codeqlCliPath)"

text \<open>A call that returns an error or a value; the error is wrapped into a message.\<close>

definition try_wrap :: "string \<Rightarrow> ('w, 'x result) prog \<Rightarrow> ('x \<Rightarrow> ('w, 'y result) prog) \<Rightarrow> ('w, 'y result) prog" where
  "try_wrap msg m k = bindP m (\<lambda>r. case r of Inl err \<Rightarrow> retP (Inl (ErrWrap msg err)) | Inr x \<Rightarrow> k x)"

definition exec_command :: "codeql_env \<Rightarrow> string list \<Rightarrow> (fs, cmd_outcome) prog" where
  "exec_command E args s =
     (case cq_exec E (fs_clock s) args s of
        None \<Rightarrow> (Hang, s)
      | Some (out, t) \<Rightarrow> (Ret out, t\<lparr>fs_clock := Suc (fs_clock s)\<rparr>))"

section \<open>The archive of the results\<close>

text \<open>The writer keeps the entries in order; a name of more than 65535 bytes is refused.\<close>

definition addFileToZip ::
  "codeql_env \<Rightarrow> (string \<times> bytes) list \<Rightarrow> string \<Rightarrow> string \<Rightarrow> (fs, (string \<times> bytes) list result) prog" where
  "addFileToZip E zipWriter filePath zipPath =
     try_wrap (''failed to open file '' @ filePath @ '': '') (os_Stat (cq_os E) filePath) (\<lambda>_.
       if length zipPath > 65535
       then retP (Inl (ErrWrap (''failed to create zip entry for '' @ zipPath @ '': '') (ErrMsg ''zip: FileHeader.Name too long'')))
       else try_wrap (''failed to copy file content to zip entry for '' @ zipPath @ '': '')
         (os_ReadFile (cq_os E) filePath) (\<lambda>data. retP (Inr (zipWriter @ [(zipPath, data)]))))"

fun add_bqrs_files ::
  "codeql_env \<Rightarrow> string \<Rightarrow> string list \<Rightarrow> (string \<times> bytes) list \<Rightarrow> (fs, (string \<times> bytes) list result) prog" where
  "add_bqrs_files E base [] zw = retP (Inr zw)"
| "add_bqrs_files E base (relativePath # ps) zw =
     try_wrap ''failed to add BQRS file to zip: '' (addFileToZip E zw (Join [base, relativePath]) relativePath)
       (\<lambda>zw. add_bqrs_files E base ps zw)"

definition GenerateResultsZipArchive :: "codeql_env \<Rightarrow> RunQueryResult \<Rightarrow> (fs, bytes result) prog" where
  "GenerateResultsZipArchive E r =
     bindP (if rr_SarifFilePath r \<noteq> []
            then try_wrap ''failed to add SARIF file to zip: ''
                   (addFileToZip E [] (rr_SarifFilePath r) ''results.sarif'') (\<lambda>zw. retP (Inr zw))
            else retP (Inr []))
       (\<lambda>z. case z of
          Inl err \<Rightarrow> retP (Inl err)
        | Inr zw \<Rightarrow>
            bindP (add_bqrs_files E (bp_BasePath (rr_BqrsFilePaths r)) (bp_RelativeFilePaths (rr_BqrsFilePaths r)) zw)
              (\<lambda>z. case z of
                 Inl err \<Rightarrow> retP (Inl err)
               | Inr zw \<Rightarrow>
                   (case cq_zip E zw of
                      Inl err \<Rightarrow> retP (Inl (ErrWrap ''failed to close zip writer: '' err))
                    | Inr data \<Rightarrow> retP (Inr data))))"

section \<open>Walking a directory\<close>

text \<open>
  \<^verbatim>\<open>filepath.Walk\<close> visits the root and everything below it, directories before what they
  contain and names in lexical order: the paths in the lexical order of their components.  The
  visiting function returns an error, which ends the walk, or its new state and whether the
  directory is to be skipped (\<^verbatim>\<open>filepath.SkipDir\<close>).
\<close>

definition tree_paths :: "fs \<Rightarrow> string \<Rightarrow> string list" where
  "tree_paths s root = root # sort_key path_comps (filter (inside root) (remdups (map fst (fs_files s) @ fs_dirs s)))"

definition os_Lstat :: "os_env \<Rightarrow> string \<Rightarrow> (fs, bool result) prog" where
  "os_Lstat E p = os_call E (\<lambda>s.
     if dir_exists s (Clean p) then (Ret (Inr True), s)
     else if gm_get (fs_files s) (Clean p) \<noteq> None then (Ret (Inr False), s)
     else (Ret (Inl not_exist), s))"

fun walk_paths ::
  "os_env \<Rightarrow> (string \<Rightarrow> bool \<Rightarrow> 'acc \<Rightarrow> (fs, ('acc \<times> bool) result) prog) \<Rightarrow> string list \<Rightarrow> string list \<Rightarrow> 'acc \<Rightarrow>
   (fs, 'acc result) prog" where
  "walk_paths E visit skipped [] acc = retP (Inr acc)"
| "walk_paths E visit skipped (p # ps) acc =
     (if list_ex (\<lambda>d. inside d p) skipped then walk_paths E visit skipped ps acc
      else bindP (os_Lstat E p) (\<lambda>info. case info of
          Inl err \<Rightarrow> retP (Inl err)
        | Inr isDir \<Rightarrow>
            bindP (visit p isDir acc) (\<lambda>v. case v of
                Inl err \<Rightarrow> retP (Inl err)
              | Inr (acc', skip) \<Rightarrow> walk_paths E visit (if skip then p # skipped else skipped) ps acc')))"

definition filepath_Walk ::
  "os_env \<Rightarrow> string \<Rightarrow> (string \<Rightarrow> bool \<Rightarrow> 'acc \<Rightarrow> (fs, ('acc \<times> bool) result) prog) \<Rightarrow> 'acc \<Rightarrow> (fs, 'acc result) prog" where
  "filepath_Walk E root visit acc s = walk_paths E visit [] (tree_paths s root) acc s"

text \<open>\<^verbatim>\<open>info.Name()\<close>, the last component.\<close>

definition base_name :: "string \<Rightarrow> string" where
  "base_name p = (case rev (path_comps p) of [] \<Rightarrow> ''/'' | c # _ \<Rightarrow> c)"

definition visit_db_dir :: "os_env \<Rightarrow> string \<Rightarrow> bool \<Rightarrow> string \<Rightarrow> (fs, (string \<times> bool) result) prog" where
  "visit_db_dir E path isDir dbDir =
     (if isDir then
        bindP (os_Stat E (Join [path, ''codeql-database.yml''])) (\<lambda>a. case a of
            Inl _ \<Rightarrow> retP (Inr (dbDir, False))
          | Inr _ \<Rightarrow>
              bindP (os_Stat E (Join [path, ''src.zip''])) (\<lambda>b. case b of
                  Inl _ \<Rightarrow> retP (Inr (dbDir, False))
                | Inr _ \<Rightarrow> retP (Inr (path, True))))
      else retP (Inr (dbDir, False)))"

definition findDBDir :: "codeql_env \<Rightarrow> string \<Rightarrow> (fs, string result) prog" where
  "findDBDir E rootdir =
     bindP (filepath_Walk (cq_os E) rootdir (visit_db_dir (cq_os E)) []) (\<lambda>r. case r of
         Inl err \<Rightarrow> retP (Inl err)
       | Inr dbDir \<Rightarrow>
           if dbDir = []
           then retP (Inl (ErrMsg ''no directory containing both 'codeql-database.yml' and 'src.zip' found''))
           else retP (Inr dbDir))"

text \<open>
  \<^verbatim>\<open>filepath.Match\<close> of a pattern without the characters \<open>*\<close>, \<open>?\<close>,
  \<open>[\<close> and the backslash is equality; the only pattern in use is such a name.
\<close>

definition visit_glob :: "string \<Rightarrow> string \<Rightarrow> bool \<Rightarrow> string list \<Rightarrow> (fs, (string list \<times> bool) result) prog" where
  "visit_glob pattern path isDir matches =
     retP (Inr (if \<not> isDir \<and> base_name path = pattern then matches @ [path] else matches, False))"

definition globRecursively :: "codeql_env \<Rightarrow> string \<Rightarrow> string \<Rightarrow> (fs, string list result) prog" where
  "globRecursively E rootdir pattern = filepath_Walk (cq_os E) rootdir (visit_glob pattern) []"

definition getDatabaseMetadata :: "codeql_env \<Rightarrow> string \<Rightarrow> (fs, DatabaseMetadata result) prog" where
  "getDatabaseMetadata E databasePath =
     try_wrap ''Failed to find codeql-database.yml '' (globRecursively E databasePath ''codeql-database.yml'') (\<lambda>paths.
       case paths of
         [path] \<Rightarrow>
           try_wrap ''failed to read database metadata: '' (os_ReadFile (cq_os E) path) (\<lambda>data.
             case cq_yaml E data of
               Inl err \<Rightarrow> retP (Inl (ErrWrap ''failed to unmarshal database metadata: '' err))
             | Inr metadata \<Rightarrow> retP (Inr metadata))
       | _ \<Rightarrow> retP (Inl (ErrMsg (''Found wrong number of paths to codeql-database.yml: ['' @ join_with '' '' paths @ '']''))))"

section \<open>Commands and what they print\<close>

definition runCommand :: "codeql_env \<Rightarrow> string list \<Rightarrow> (fs, CodeQLCommandOutput \<times> error option) prog" where
  "runCommand E command =
     bindP (exec_command E command) (\<lambda>out.
       case cmd_err out of
         Some err \<Rightarrow> retP (\<lparr>co_ExitCode = 1, co_Stdout = []\<rparr>, Some err)
       | None \<Rightarrow> retP (\<lparr>co_ExitCode = 0, co_Stdout = cmd_stdout out\<rparr>, None))"

definition dec_str_ptr :: "(string option \<Rightarrow> 'a \<Rightarrow> 'a) \<Rightarrow> 'a field_dec" where
  "dec_str_ptr put j v =
     (case j of
        JStr s \<Rightarrow> Inr (put (Some s) v)
      | JNull \<Rightarrow> Inr (put None v)
      | _ \<Rightarrow> Inl (ErrMsg ''json: bad string''))"

definition QueryMetadata_dec :: "QueryMetadata field_dec" where
  "QueryMetadata_dec = dec_struct False
     [(''id'', dec_str_ptr (\<lambda>s v. v\<lparr>qm_ID := s\<rparr>)), (''kind'', dec_str_ptr (\<lambda>s v. v\<lparr>qm_Kind := s\<rparr>))]"

definition ResultSet_dec :: "ResultSet field_dec" where
  "ResultSet_dec = dec_struct False
     [(''name'', dec_str (\<lambda>s v. v\<lparr>rset_Name := s\<rparr>)), (''rows'', dec_int (\<lambda>i v. v\<lparr>rset_Rows := i\<rparr>))]"

definition BQRSInfo_dec :: "BQRSInfo field_dec" where
  "BQRSInfo_dec = dec_struct False
     [(''resultSets'', dec_list ResultSet_dec \<lparr>rset_Name = [], rset_Rows = 0\<rparr> (\<lambda>rs v. v\<lparr>bqrs_ResultSets := rs\<rparr>)),
      (''compatibleQueryKinds'', dec_list (dec_str (\<lambda>s v. s)) [] (\<lambda>ks v. v\<lparr>bqrs_CompatibleQueryKinds := ks\<rparr>))]"

definition ResolvedDatabase_dec :: "ResolvedDatabase field_dec" where
  "ResolvedDatabase_dec = dec_struct False
     [(''sourceLocationPrefix'', dec_str (\<lambda>s v. v\<lparr>rd_SourceLocationPrefix := s\<rparr>))]"

definition validateQueryMetadataObject :: "bytes \<Rightarrow> QueryMetadata result" where
  "validateQueryMetadataObject data = json_unmarshal QueryMetadata_dec \<lparr>qm_ID = None, qm_Kind = None\<rparr> data"

definition validateBQRSInfoObject :: "bytes \<Rightarrow> BQRSInfo result" where
  "validateBQRSInfoObject data =
     json_unmarshal BQRSInfo_dec \<lparr>bqrs_ResultSets = [], bqrs_CompatibleQueryKinds = []\<rparr> data"

definition getBqrsInfo :: "codeql_env \<Rightarrow> CodeqlCli \<Rightarrow> string \<Rightarrow> (fs, BQRSInfo result) prog" where
  "getBqrsInfo E codeql bqrs =
     bindP (runCommand E [cli_Path codeql, ''bqrs'', ''info'', ''--format=json'', bqrs]) (\<lambda>(out, e).
       case e of
         Some err \<Rightarrow> retP (Inl (ErrWrap ''unable to run codeql bqrs info. Error: '' err))
       | None \<Rightarrow>
           if co_ExitCode out \<noteq> 0
           then retP (Inl (ErrMsg (''unable to run codeql bqrs info. Exit code: '' @ Itoa (co_ExitCode out))))
           else retP (validateBQRSInfoObject (co_Stdout out)))"

definition getQueryMetadata :: "codeql_env \<Rightarrow> CodeqlCli \<Rightarrow> string \<Rightarrow> (fs, QueryMetadata result) prog" where
  "getQueryMetadata E codeql query =
     bindP (runCommand E [cli_Path codeql, ''resolve'', ''metadata'', ''--format=json'', query]) (\<lambda>(out, e).
       case e of
         Some err \<Rightarrow> retP (Inl (ErrWrap ''unable to run codeql resolve metadata. Error: '' err))
       | None \<Rightarrow>
           if co_ExitCode out \<noteq> 0
           then retP (Inl (ErrMsg (''unable to run codeql resolve metadata. Exit code: '' @ Itoa (co_ExitCode out))))
           else retP (validateQueryMetadataObject (co_Stdout out)))"

text \<open>The row count of the first result set with a known name, in the order of the names.\<close>

definition KnownResultSetNames :: "string list" where
  "KnownResultSetNames = [''#select'', ''problems'']"

fun first_known :: "string list \<Rightarrow> ResultSet list \<Rightarrow> int option" where
  "first_known [] sets = None"
| "first_known (name # names) sets =
     (case find (\<lambda>rs. rset_Name rs = name) sets of Some rs \<Rightarrow> Some (rset_Rows rs) | None \<Rightarrow> first_known names sets)"

definition getBqrsResultCount :: "BQRSInfo \<Rightarrow> int result" where
  "getBqrsResultCount bqrsInfo =
     (case first_known KnownResultSetNames (bqrs_ResultSets bqrsInfo) of
        Some n \<Rightarrow> Inr n
      | None \<Rightarrow> Inl (ErrMsg
          (''BQRS does not contain any result sets matching known names. Expected one of ['' @
           join_with '' '' KnownResultSetNames @ ''] but found ['' @
           join_with '' '' (map rset_Name (bqrs_ResultSets bqrsInfo)) @ '']'')))"

section \<open>The results of a query pack\<close>

fun query_results ::
  "codeql_env \<Rightarrow> CodeqlCli \<Rightarrow> string \<Rightarrow> string \<Rightarrow> string list \<Rightarrow> (fs, Query list result) prog" where
  "query_results E codeql resultsBasePath queryPackPath [] = retP (Inr [])"
| "query_results E codeql resultsBasePath queryPackPath (queryPath # queryPaths) =
     (let relativeBqrsFilePath = Join [queryPackPath, queryPath];
          bqrsFilePath = Join [resultsBasePath, relativeBqrsFilePath] in
      bindP (os_Stat (cq_os E) bqrsFilePath) (\<lambda>st.
        if st = Inl not_exist
        then retP (Inl (ErrMsg (''could not find BQRS file for query '' @ queryPath @ '' at '' @ bqrsFilePath)))
        else try_wrap ''failed to get BQRS info: '' (getBqrsInfo E codeql bqrsFilePath) (\<lambda>bqrsInfo.
          try_wrap ''failed to get query metadata: '' (getQueryMetadata E codeql queryPath) (\<lambda>queryMetadata.
          bindP (query_results E codeql resultsBasePath queryPackPath queryPaths) (\<lambda>r. case r of
              Inl err \<Rightarrow> retP (Inl err)
            | Inr queries \<Rightarrow>
                retP (Inr (\<lparr>q_QueryPath = queryPath, q_QueryMetadata = queryMetadata,
                           q_RelativeBqrsFilePath = relativeBqrsFilePath, q_BqrsInfo = bqrsInfo\<rparr> # queries)))))))"

fun total_results :: "Query list \<Rightarrow> int \<Rightarrow> int result" where
  "total_results [] totalResultsCount = Inr totalResultsCount"
| "total_results (query # queries) totalResultsCount =
     (case getBqrsResultCount (q_BqrsInfo query) of
        Inl err \<Rightarrow> Inl (ErrWrap ''failed to get BQRS result count: '' err)
      | Inr cnt \<Rightarrow> total_results queries (wrap64 (totalResultsCount + cnt)))"

text \<open>The query paths are a fixed empty list in the source, to be replaced later.\<close>

definition getQueryPackRunResults ::
  "codeql_env \<Rightarrow> CodeqlCli \<Rightarrow> string \<Rightarrow> string \<Rightarrow> (fs, QueryPackRunResults result) prog" where
  "getQueryPackRunResults E codeql databasePath queryPackPath =
     (let resultsBasePath = Join [databasePath, ''results'']; queryPaths = [] in
      bindP (query_results E codeql resultsBasePath queryPackPath queryPaths) (\<lambda>r. case r of
          Inl err \<Rightarrow> retP (Inl err)
        | Inr queries \<Rightarrow>
            (case total_results queries 0 of
               Inl err \<Rightarrow> retP (Inl err)
             | Inr totalResultsCount \<Rightarrow>
                 retP (Inr \<lparr>qp_Queries = queries, qp_TotalResultsCount = totalResultsCount,
                            qp_ResultsBasePath = resultsBasePath\<rparr>))))"

definition os_Rename :: "os_env \<Rightarrow> string \<Rightarrow> string \<Rightarrow> (fs, unit result) prog" where
  "os_Rename E old new = os_call E (\<lambda>s.
     case gm_get (fs_files s) (Clean old) of
       None \<Rightarrow> (Ret (Inl not_exist), s)
     | Some d \<Rightarrow>
         if dir_exists s (Clean new) then (Ret (Inl (ErrMsg ''file exists'')), s)
         else if \<not> dir_exists s (Dir (Clean new)) then (Ret (Inl not_exist), s)
         else (Ret (Inr ()), s\<lparr>fs_files := gm_put (Clean new) d (AList.delete (Clean old) (fs_files s))\<rparr>))"

definition adjustBqrsFiles ::
  "codeql_env \<Rightarrow> QueryPackRunResults \<Rightarrow> string \<Rightarrow> (fs, BqrsFilePaths result) prog" where
  "adjustBqrsFiles E queryPackRunResults resultsDir =
     (case qp_Queries queryPackRunResults of
        [query] \<Rightarrow>
          (let currentBqrsFilePath = Join [qp_ResultsBasePath queryPackRunResults, q_RelativeBqrsFilePath query];
               newBqrsFilePath = Join [resultsDir, ''results.bqrs''] in
           bindP (os_MkdirAll (cq_os E) resultsDir) (\<lambda>r. case r of
               Inl err \<Rightarrow> retP (Inl err)
             | Inr _ \<Rightarrow>
                 bindP (os_Rename (cq_os E) currentBqrsFilePath newBqrsFilePath) (\<lambda>r. case r of
                     Inl err \<Rightarrow> retP (Inl err)
                   | Inr _ \<Rightarrow> retP (Inr \<lparr>bp_BasePath = resultsDir, bp_RelativeFilePaths = [''results.bqrs'']\<rparr>))))
      | queries \<Rightarrow>
          retP (Inr \<lparr>bp_BasePath = qp_ResultsBasePath queryPackRunResults,
                     bp_RelativeFilePaths = map q_RelativeBqrsFilePath queries\<rparr>))"

definition getSourceLocationPrefix :: "codeql_env \<Rightarrow> CodeqlCli \<Rightarrow> string \<Rightarrow> (fs, string result) prog" where
  "getSourceLocationPrefix E codeql databasePath =
     bindP (exec_command E [cli_Path codeql, ''resolve'', ''database'', databasePath]) (\<lambda>out.
       case cmd_err out of
         Some err \<Rightarrow> retP (Inl (ErrWrap (''failed to resolve database; Output: '' @ cmd_combined out) err))
       | None \<Rightarrow>
           (case json_unmarshal ResolvedDatabase_dec \<lparr>rd_SourceLocationPrefix = []\<rparr> (cmd_combined out) of
              Inl err \<Rightarrow> retP (Inl (ErrWrap ''failed to unmarshal resolved database: '' err))
            | Inr resolvedDatabase \<Rightarrow> retP (Inr (rd_SourceLocationPrefix resolvedDatabase))))"

section \<open>SARIF\<close>

text \<open>A query without a kind makes the code dereference a nil pointer.\<close>

definition getSarifOutputType :: "QueryMetadata \<Rightarrow> string list \<Rightarrow> (fs, string) prog" where
  "getSarifOutputType queryMetadata compatibleQueryKinds =
     (case qm_Kind queryMetadata of
        None \<Rightarrow> panicP ''runtime error: invalid memory address or nil pointer dereference''
      | Some kind \<Rightarrow>
          if (kind = ''path-problem'' \<or> kind = ''path-alert'') \<and> contains compatibleQueryKinds ''PathProblem''
          then retP ''path-problem''
          else if (kind = ''problem'' \<or> kind = ''alert'') \<and> contains compatibleQueryKinds ''Problem''
          then retP ''problem''
          else retP [])"

definition querySupportsSarif :: "QueryMetadata \<Rightarrow> BQRSInfo \<Rightarrow> (fs, bool) prog" where
  "querySupportsSarif queryMetadata bqrsInfo =
     bindP (getSarifOutputType queryMetadata (bqrs_CompatibleQueryKinds bqrsInfo)) (\<lambda>t. retP (t \<noteq> []))"

fun all_support_sarif :: "Query list \<Rightarrow> (fs, bool) prog" where
  "all_support_sarif [] = retP True"
| "all_support_sarif (query # queries) =
     bindP (querySupportsSarif (q_QueryMetadata query) (q_BqrsInfo query)) (\<lambda>ok.
       if \<not> ok then retP False else all_support_sarif queries)"

definition queryPackSupportsSarif :: "QueryPackRunResults \<Rightarrow> (fs, bool) prog" where
  "queryPackSupportsSarif queryPackRunResults = all_support_sarif (qp_Queries queryPackRunResults)"

text \<open>
  A JSON value as \<^verbatim>\<open>interface{}\<close>: numbers become 64-bit floats, an object becomes a map,
  in which the last of several equal keys counts.
\<close>

fun to_any :: "codeql_env \<Rightarrow> json \<Rightarrow> json result"
  and to_any_elems :: "codeql_env \<Rightarrow> json list \<Rightarrow> json list result"
  and to_any_members :: "codeql_env \<Rightarrow> (string \<times> json) list \<Rightarrow> (string, json) gomap \<Rightarrow> (string, json) gomap result" where
  "to_any E (JNum n) = (case cq_float64 E n of None \<Rightarrow> Inl (ErrMsg ''json: cannot unmarshal number'') | Some t \<Rightarrow> Inr (JNum t))"
| "to_any E (JArr js) = (case to_any_elems E js of Inl e \<Rightarrow> Inl e | Inr as \<Rightarrow> Inr (JArr as))"
| "to_any E (JObj ms) = (case to_any_members E ms [] of Inl e \<Rightarrow> Inl e | Inr as \<Rightarrow> Inr (JObj as))"
| "to_any E j = Inr j"
| "to_any_elems E [] = Inr []"
| "to_any_elems E (j # js) =
     (case to_any E j of
        Inl e \<Rightarrow> Inl e
      | Inr a \<Rightarrow> (case to_any_elems E js of Inl e \<Rightarrow> Inl e | Inr as \<Rightarrow> Inr (a # as)))"
| "to_any_members E [] m = Inr m"
| "to_any_members E ((k, j) # ms) m =
     (case to_any E j of Inl e \<Rightarrow> Inl e | Inr a \<Rightarrow> to_any_members E ms (gm_put k a m))"

text \<open>\<^verbatim>\<open>json.MarshalIndent(data, "", "  ")\<close>: the keys of a map in order.\<close>

definition indent :: "nat \<Rightarrow> string" where
  "indent n = CHR 0x0A # replicate (2 * n) (CHR '' '')"

fun indent_text :: "nat \<Rightarrow> json \<Rightarrow> string"
  and indent_elems :: "nat \<Rightarrow> json list \<Rightarrow> string"
  and indent_members :: "nat \<Rightarrow> (string \<times> json) list \<Rightarrow> string" where
  "indent_text n (JArr js) = (if js = [] then ''[]'' else ''['' @ indent_elems (Suc n) js @ indent n @ '']'')"
| "indent_text n (JObj ms) = (if ms = [] then ''{}'' else ''{'' @ indent_members (Suc n) ms @ indent n @ ''}'')"
| "indent_text n j = json_text j"
| "indent_elems n [] = []"
| "indent_elems n (j # js) = indent n @ indent_text n j @ (if js = [] then [] else '','' @ indent_elems n js)"
| "indent_members n [] = []"
| "indent_members n ((k, j) # ms) =
     indent n @ json_quote k @ '': '' @ indent_text n j @ (if ms = [] then [] else '','' @ indent_members n ms)"

fun sort_keys :: "json \<Rightarrow> json" where
  "sort_keys (JArr js) = JArr (map sort_keys js)"
| "sort_keys (JObj ms) = JObj (sort_key fst (map (\<lambda>(k, j). (k, sort_keys j)) ms))"
| "sort_keys j = j"

definition marshal_indent :: "json \<Rightarrow> string" where
  "marshal_indent j = indent_text 0 (sort_keys j)"

definition provenance :: "codeql_env \<Rightarrow> string \<Rightarrow> string \<Rightarrow> json" where
  "provenance E language databaseSHA =
     JObj [(''repositoryUri'', JStr (cq_getenv E ''GITHUB_SERVER_URL'' @ ''/'' @ language)), (''revisionId'', JStr databaseSHA)]"

fun add_provenance :: "codeql_env \<Rightarrow> string \<Rightarrow> string \<Rightarrow> json \<Rightarrow> json" where
  "add_provenance E language databaseSHA (JObj run) =
     (case gm_get run ''VersionControlProvenance'' of
        Some (JArr vcp) \<Rightarrow>
          JObj (gm_put ''VersionControlProvenance'' (JArr (vcp @ [provenance E language databaseSHA])) run)
      | _ \<Rightarrow> JObj (gm_put ''VersionControlProvenance'' (JArr [provenance E language databaseSHA]) run))"
| "add_provenance E language databaseSHA run = run"

text \<open>
  The text of a SARIF file after the modification: the array \<^verbatim>\<open>Runs\<close>, if the top-level
  object has it, gets the provenance in each run.  A file that holds \<^verbatim>\<open>null\<close> is a nil map.
\<close>

definition modify_sarif :: "codeql_env \<Rightarrow> string \<Rightarrow> string \<Rightarrow> bytes \<Rightarrow> bytes result" where
  "modify_sarif E language databaseSHA sarifData =
     (case json_parse sarifData of
        None \<Rightarrow> Inl (ErrMsg ''json: syntax error'')
      | Some JNull \<Rightarrow> Inr (marshal_indent JNull)
      | Some (JObj ms) \<Rightarrow>
          (case to_any_members E ms [] of
             Inl err \<Rightarrow> Inl err
           | Inr data \<Rightarrow>
               (case gm_get data ''Runs'' of
                  Some (JArr runs) \<Rightarrow>
                    Inr (marshal_indent (JObj (gm_put ''Runs'' (JArr (map (add_provenance E language databaseSHA) runs)) data)))
                | _ \<Rightarrow> Inr (marshal_indent (JObj data))))
      | Some _ \<Rightarrow> Inl (ErrMsg ''json: cannot unmarshal into Go value of type map[string]interface {}''))"

definition sarif_command :: "CodeqlCli \<Rightarrow> string \<Rightarrow> string \<Rightarrow> string \<Rightarrow> string list" where
  "sarif_command codeql sarifFile databasePath queryPackPath =
     [cli_Path codeql, ''database'', ''interpret-results'', ''--format=sarif-latest'', ''--output='' @ sarifFile,
      ''--sarif-add-snippets'', ''--no-group-results'', databasePath, queryPackPath]"

definition generateSarif ::
  "codeql_env \<Rightarrow> CodeqlCli \<Rightarrow> string \<Rightarrow> string \<Rightarrow> string \<Rightarrow> string \<Rightarrow> string \<Rightarrow> (fs, bytes result) prog" where
  "generateSarif E codeql language databasePath queryPackPath databaseSHA resultsDir =
     (let sarifFile = Join [resultsDir, ''results.sarif''] in
      bindP (exec_command E (sarif_command codeql sarifFile databasePath queryPackPath)) (\<lambda>out.
        case cmd_err out of
          Some err \<Rightarrow> retP (Inl (ErrWrap (''failed to generate SARIF; Output: '' @ cmd_combined out) err))
        | None \<Rightarrow>
            try_wrap ''failed to read SARIF file: '' (os_ReadFile (cq_os E) sarifFile) (\<lambda>sarifData.
              retP (modify_sarif E language databaseSHA sarifData))))"

definition any_list :: "codeql_env \<Rightarrow> (json list \<Rightarrow> 'a \<Rightarrow> 'a) \<Rightarrow> 'a field_dec" where
  "any_list E put = dec_list (\<lambda>j _. to_any E j) JNull put"

definition SarifRun_dec :: "codeql_env \<Rightarrow> SarifRun field_dec" where
  "SarifRun_dec E = dec_struct False
     [(''versionControlProvenance'', any_list E (\<lambda>js v. v\<lparr>run_VersionControlProvenance := js\<rparr>)),
      (''results'', any_list E (\<lambda>js v. v\<lparr>run_Results := js\<rparr>))]"

definition Sarif_dec :: "codeql_env \<Rightarrow> Sarif field_dec" where
  "Sarif_dec E = dec_struct False
     [(''runs'', dec_list (SarifRun_dec E) \<lparr>run_VersionControlProvenance = [], run_Results = []\<rparr>
         (\<lambda>rs v. v\<lparr>sarif_Runs := rs\<rparr>))]"

definition getSarifResultCount :: "codeql_env \<Rightarrow> bytes \<Rightarrow> int" where
  "getSarifResultCount E sarif =
     (case json_unmarshal (Sarif_dec E) \<lparr>sarif_Runs = []\<rparr> sarif of
        Inl err \<Rightarrow> 0
      | Inr sarifData \<Rightarrow> sum_list (map (\<lambda>run. int (length (run_Results run))) (sarif_Runs sarifData)))"

section \<open>Running a query pack\<close>

definition database_sha :: "DatabaseMetadata \<Rightarrow> string" where
  "database_sha dbMetadata =
     (case dm_CreationMetadata dbMetadata of
        None \<Rightarrow> []
      | Some cm \<Rightarrow> (case cm_SHA cm of None \<Rightarrow> [] | Some sha \<Rightarrow> sha))"

definition run_queries_command :: "CodeqlCli \<Rightarrow> string \<Rightarrow> string \<Rightarrow> string list" where
  "run_queries_command codeql dbDir queryPackPath =
     [cli_Path codeql, ''database'', ''run-queries'', ''--ram=2048'', ''--additional-packs'', queryPackPath, ''--'', dbDir,
      queryPackPath]"

text \<open>The number of results and the path of the SARIF file, which is written when the pack supports SARIF.\<close>

definition write_sarif ::
  "codeql_env \<Rightarrow> CodeqlCli \<Rightarrow> string \<Rightarrow> string \<Rightarrow> string \<Rightarrow> string \<Rightarrow> string \<Rightarrow> (fs, (int \<times> string) result) prog" where
  "write_sarif E codeql language dbDir queryPackPath databaseSHA resultsDir =
     try_wrap ''failed to generate SARIF: '' (generateSarif E codeql language dbDir queryPackPath databaseSHA resultsDir)
       (\<lambda>sarif.
          let sarifFilePath = Join [resultsDir, ''results.sarif''] in
          try_wrap ''failed to write SARIF file: '' (os_WriteFile (cq_os E) sarifFilePath sarif) (\<lambda>_.
            retP (Inr (getSarifResultCount E sarif, sarifFilePath))))"

definition collect_results ::
  "codeql_env \<Rightarrow> CodeqlCli \<Rightarrow> string \<Rightarrow> string \<Rightarrow> string \<Rightarrow> string \<Rightarrow> string \<Rightarrow> (fs, RunQueryResult result) prog" where
  "collect_results E codeql language dbDir queryPackPath databaseSHA resultsDir =
     try_wrap ''failed to get query pack run results: '' (getQueryPackRunResults E codeql dbDir queryPackPath)
       (\<lambda>queryPackRunResults.
     try_wrap ''failed to get source location prefix: '' (getSourceLocationPrefix E codeql dbDir)
       (\<lambda>sourceLocationPrefix.
     bindP (queryPackSupportsSarif queryPackRunResults) (\<lambda>shouldGenerateSarif.
     bindP (if shouldGenerateSarif
            then write_sarif E codeql language dbDir queryPackPath databaseSHA resultsDir
            else retP (Inr (qp_TotalResultsCount queryPackRunResults, [])))
       (\<lambda>sarif. case sarif of
          Inl err \<Rightarrow> retP (Inl err)
        | Inr (resultCount, sarifFilePath) \<Rightarrow>
            try_wrap ''failed to adjust BQRS files: '' (adjustBqrsFiles E queryPackRunResults resultsDir) (\<lambda>bqrsFilePaths.
              retP (Inr \<lparr>rr_ResultCount = resultCount, rr_DatabaseSHA = databaseSHA,
                         rr_SourceLocationPrefix = sourceLocationPrefix, rr_BqrsFilePaths = bqrsFilePaths,
                         rr_SarifFilePath = sarifFilePath\<rparr>))))))"

text \<open>When the database cannot be unzipped, the error that is reported is the nil error of the step before.\<close>

definition RunQuery :: "codeql_env \<Rightarrow> string \<Rightarrow> string \<Rightarrow> string \<Rightarrow> string \<Rightarrow> (fs, RunQueryResult result) prog" where
  "RunQuery E database language queryPackPath tempDir =
     (case getCodeQLCLIPath E of
        Inl err \<Rightarrow> retP (Inl (ErrWrap ''failed to get codeql cli path: '' err))
      | Inr path \<Rightarrow>
          (let codeql = \<lparr>cli_Path = path\<rparr>; resultsDir = Join [tempDir, ''results'']; databasePath = Join [tempDir, ''db''] in
           try_wrap ''failed to create results directory: '' (os_Mkdir (cq_os E) resultsDir) (\<lambda>_.
           bindP (UnzipFile (cq_os E) (cq_lib E) database databasePath) (\<lambda>unzipped. case unzipped of
               Inl _ \<Rightarrow> retP (Inl (ErrMsg ''failed to unzip database: <nil>''))
             | Inr _ \<Rightarrow>
                 try_wrap ''failed to get database metadata: '' (getDatabaseMetadata E databasePath) (\<lambda>dbMetadata.
                 try_wrap ''failed to get database path: '' (findDBDir E databasePath) (\<lambda>dbDir.
                 bindP (exec_command E (run_queries_command codeql dbDir queryPackPath)) (\<lambda>out. case cmd_err out of
                     Some err \<Rightarrow> retP (Inl (ErrWrap (''failed to run queries; Output: '' @ cmd_combined out) err))
                   | None \<Rightarrow>
                       collect_results E codeql language dbDir queryPackPath (database_sha dbMetadata) resultsDir)))))))"

section \<open>Calls that return\<close>

text \<open>
  A computation that returns in every state, except that it may wait forever if \<open>h\<close> holds; it
  never panics.  The commands are all that can be waited for.
\<close>

definition returns :: "bool \<Rightarrow> ('s, 'a) prog \<Rightarrow> bool" where
  "returns h m \<longleftrightarrow> (\<forall>s. (\<exists>r t. m s = (Ret r, t)) \<or> (h \<and> fst (m s) = Hang))"

definition cq_exits :: "codeql_env \<Rightarrow> bool" where
  "cq_exits E \<longleftrightarrow> (\<forall>n args s. cq_exec E n args s \<noteq> None)"

named_theorems returning \<open>computations that return\<close>

lemma returnsE:
  assumes "returns False m"
  obtains r t where "m s = (Ret r, t)"
  using assms unfolding returns_def by blast

lemma returns_retP [returning]: "returns h (retP a)" "returns h (Pair (Ret a))"
  by (simp_all add: returns_def)

lemma returns_bindP [returning]:
  assumes "returns h m" and "\<And>a. returns h (k a)"
  shows "returns h (bindP m k)"
  unfolding returns_def
proof
  fix s
  from assms(1) consider r t where "m s = (Ret r, t)" | "h" "fst (m s) = Hang" unfolding returns_def by blast
  then show "(\<exists>r t. bindP m k s = (Ret r, t)) \<or> (h \<and> fst (bindP m k s) = Hang)"
  proof cases
    case 1
    then show ?thesis using assms(2) [of r] by (simp add: returns_def)
  next
    case 2
    then show ?thesis by (cases "m s") simp
  qed
qed

lemma returns_try_wrap [returning]: "returns h m \<Longrightarrow> (\<And>a. returns h (k a)) \<Longrightarrow> returns h (try_wrap msg m k)"
  unfolding try_wrap_def by (auto intro!: returning split: sum.split)

lemma returns_os [returning]:
  "returns h (os_Stat E p)" "returns h (os_ReadFile E p)" "returns h (os_WriteData E p d f)" "returns h (os_WriteFile E p d)"
  "returns h (os_Mkdir E p)" "returns h (os_MkdirAll E p)" "returns h (os_Lstat E p)" "returns h (os_Rename E p q)"
  "returns h (os_RemoveAll E p)"
  by (auto simp: returns_def os_defs os_Lstat_def os_Rename_def Let_def split: option.splits)

lemma returns_exec [returning]: "returns (\<not> cq_exits E) (exec_command E args)"
  unfolding returns_def exec_command_def cq_exits_def by (auto split: option.split) (metis option.distinct(1))

lemma returns_walk [returning]:
  assumes "\<And>p d acc. returns h (visit p d acc)"
  shows "returns h (filepath_Walk E root visit acc)"
proof -
  have "returns h (walk_paths E visit skipped ps acc)" for skipped ps acc
    by (induction ps arbitrary: skipped acc) (auto intro!: returning assms split: sum.split)
  then show ?thesis by (simp add: returns_def filepath_Walk_def)
qed

lemma returns_extract [returning]: "returns h (extract_entry E dest e)"
  unfolding extract_entry_def Let_def by (auto intro!: returning split: sum.split)

lemma returns_UnzipFile [returning]: "returns h (UnzipFile E L z dest)"
proof -
  have "returns h (unzip_entries E dest es)" for es
    by (induction es) (auto intro!: returning split: sum.split)
  then show ?thesis unfolding UnzipFile_def by (auto intro!: returning split: sum.split)
qed

lemma returns_UntarGz [returning]: "returns h (UntarGz E L z dest)"
proof -
  have "returns h (untar_entries E dest es err)" for es err
    by (induction es) (auto intro!: returning split: sum.split)
  then show ?thesis unfolding UntarGz_def Untar_def by (auto intro!: returning split: sum.split)
qed

lemma returns_findDBDir [returning]: "returns h (findDBDir E root)"
  unfolding findDBDir_def visit_db_dir_def by (auto intro!: returning split: sum.split)

lemma returns_metadata [returning]: "returns h (getDatabaseMetadata E p)"
  unfolding getDatabaseMetadata_def globRecursively_def visit_glob_def
  by (auto intro!: returning split: sum.split list.split)

text \<open>Without query paths there are no queries, so the pack always counts as supporting SARIF.\<close>

lemma no_queries:
  "getQueryPackRunResults E codeql db pack =
     retP (Inr \<lparr>qp_Queries = [], qp_TotalResultsCount = 0, qp_ResultsBasePath = Join [db, ''results'']\<rparr>)"
  by (rule ext) (simp add: getQueryPackRunResults_def Let_def del: Join.simps)

lemma try_wrap_retP [simp]: "try_wrap msg (retP (Inr x)) k = k x"
  by (rule ext) (simp add: try_wrap_def)

lemma collect_results_eq:
  "collect_results E codeql language dbDir pack sha resultsDir =
     try_wrap ''failed to get source location prefix: '' (getSourceLocationPrefix E codeql dbDir) (\<lambda>prefix.
     bindP (write_sarif E codeql language dbDir pack sha resultsDir) (\<lambda>sarif. case sarif of
         Inl err \<Rightarrow> retP (Inl err)
       | Inr (n, path) \<Rightarrow>
           retP (Inr \<lparr>rr_ResultCount = n, rr_DatabaseSHA = sha, rr_SourceLocationPrefix = prefix,
             rr_BqrsFilePaths = \<lparr>bp_BasePath = Join [dbDir, ''results''], bp_RelativeFilePaths = []\<rparr>,
             rr_SarifFilePath = path\<rparr>)))"
  unfolding collect_results_def no_queries try_wrap_retP
  by (simp add: queryPackSupportsSarif_def adjustBqrsFiles_def del: Join.simps retP_apply cong: sum.case_cong)

text \<open>Running a query pack comes to an end whenever the commands do.\<close>

lemma returns_RunQuery: "returns (\<not> cq_exits E) (RunQuery E database language pack tempDir)"
  unfolding RunQuery_def collect_results_eq getSourceLocationPrefix_def write_sarif_def generateSarif_def Let_def
  by (auto intro!: returning split: sum.split option.split prod.split)

section \<open>The outcome of a run\<close>

lemma bindP_Ret_elim:
  assumes "bindP m k s = (Ret y, t)"
  obtains x u where "m s = (Ret x, u)" and "k x u = (Ret y, t)"
  using assms by (auto simp: bindP_def split: prod.splits go.splits)

lemma try_wrap_Inr_elim:
  assumes "try_wrap msg m k s = (Ret (Inr y), t)"
  obtains x u where "m s = (Ret (Inr x), u)" and "k x u = (Ret (Inr y), t)"
  using assms unfolding try_wrap_def
  by (elim bindP_Ret_elim) (auto split: sum.splits)

lemma write_sarif_outcome:
  assumes "write_sarif E codeql language dbDir pack sha resultsDir s = (Ret (Inr (n, path)), t)"
  shows "path = Join [resultsDir, ''results.sarif''] \<and>
    (\<exists>sarif. gm_get (fs_files t) (Clean path) = Some sarif \<and> n = getSarifResultCount E sarif)"
  using assms unfolding write_sarif_def Let_def
  by (elim try_wrap_Inr_elim) (auto simp: os_defs Let_def split: option.splits if_splits)

lemma RunQuery_outcome:
  assumes "RunQuery E database language pack tempDir s = (Ret (Inr r), t)"
  shows "rr_SarifFilePath r = Join [Join [tempDir, ''results''], ''results.sarif'']"
    and "bp_RelativeFilePaths (rr_BqrsFilePaths r) = []"
    and "\<exists>sarif. gm_get (fs_files t) (Clean (rr_SarifFilePath r)) = Some sarif \<and> rr_ResultCount r = getSarifResultCount E sarif"
proof -
  obtain codeql dbDir sha u where
    "collect_results E codeql language dbDir pack sha (Join [tempDir, ''results'']) u = (Ret (Inr r), t)"
    using assms unfolding RunQuery_def Let_def
    by (auto elim!: try_wrap_Inr_elim bindP_Ret_elim split: sum.splits option.splits)
  then obtain v w n path where
    "write_sarif E codeql language dbDir pack sha (Join [tempDir, ''results'']) v = (Ret (Inr (n, path)), t)"
    "r = \<lparr>rr_ResultCount = n, rr_DatabaseSHA = sha, rr_SourceLocationPrefix = w,
             rr_BqrsFilePaths = \<lparr>bp_BasePath = Join [dbDir, ''results''], bp_RelativeFilePaths = []\<rparr>,
             rr_SarifFilePath = path\<rparr>"
    unfolding collect_results_eq
    by (auto elim!: try_wrap_Inr_elim bindP_Ret_elim split: sum.splits)
  with write_sarif_outcome [OF this(1)]
  show "rr_SarifFilePath r = Join [Join [tempDir, ''results''], ''results.sarif'']"
    and "bp_RelativeFilePaths (rr_BqrsFilePaths r) = []"
    and "\<exists>sarif. gm_get (fs_files t) (Clean (rr_SarifFilePath r)) = Some sarif \<and> rr_ResultCount r = getSarifResultCount E sarif"
    by (auto simp del: Join.simps)
qed

lemma Clean_ne [simp]: "Clean p \<noteq> []"
proof -
  have "join_with ''/'' cs \<noteq> []" if "cs \<noteq> []" "[] \<notin> set cs" for cs
    using that by (cases cs rule: remdups_adj.cases) auto
  moreover have "[] \<notin> set (path_comps p)"
    using normal_no_slash [OF normal_path_comps] by blast
  ultimately show ?thesis by (auto simp: Clean_def path_of_def)
qed

lemma Join2_ne: "b \<noteq> [] \<Longrightarrow> Join [a, b] \<noteq> []"
  by simp

section \<open>Finding the database\<close>

text \<open>The walk changes nothing but the clock.\<close>

definition same_tree :: "fs \<Rightarrow> fs \<Rightarrow> bool" where
  "same_tree s t \<longleftrightarrow> fs_files t = fs_files s \<and> fs_dirs t = fs_dirs s"

definition path_exists :: "fs \<Rightarrow> string \<Rightarrow> bool" where
  "path_exists s p \<longleftrightarrow> gm_get (fs_files s) (Clean p) \<noteq> None \<or> dir_exists s (Clean p)"

definition db_dir :: "fs \<Rightarrow> string \<Rightarrow> bool" where
  "db_dir s d \<longleftrightarrow> dir_exists s (Clean d) \<and> path_exists s (Join [d, ''codeql-database.yml'']) \<and>
     path_exists s (Join [d, ''src.zip''])"

lemma same_tree_refl [simp]: "same_tree s s" "same_tree s (s\<lparr>fs_clock := n\<rparr>)"
  by (simp_all add: same_tree_def)

lemma same_tree_trans: "same_tree s t \<Longrightarrow> same_tree t u \<Longrightarrow> same_tree s u"
  by (simp add: same_tree_def)

lemma same_tree_cong: "same_tree s t \<Longrightarrow> path_exists t = path_exists s \<and> dir_exists t = dir_exists s \<and> db_dir t = db_dir s"
  by (simp add: same_tree_def path_exists_def dir_exists_def db_dir_def fun_eq_iff)

lemma os_Stat_tree: "os_Stat E p s = (Ret r, t) \<Longrightarrow> same_tree s t \<and> (\<not> isl r \<longrightarrow> path_exists s p)"
  by (auto simp: os_Stat_def os_call_def Let_def path_exists_def dir_exists_def same_tree_def split: option.splits if_splits)

lemma os_Lstat_tree: "os_Lstat E p s = (Ret r, t) \<Longrightarrow> same_tree s t \<and> (r = Inr True \<longrightarrow> dir_exists s (Clean p))"
  by (auto simp: os_Lstat_def os_call_def Let_def dir_exists_def same_tree_def split: option.splits if_splits)

lemma visit_db_dir_tree:
  assumes "visit_db_dir E p isDir acc s = (Ret r, t)" and "isDir \<longrightarrow> dir_exists s (Clean p)"
  shows "same_tree s t \<and> (\<forall>acc' skip. r = Inr (acc', skip) \<longrightarrow> acc' = acc \<or> acc' = p \<and> db_dir s p)"
proof (cases isDir)
  case False
  with assms(1) show ?thesis by (auto simp: visit_db_dir_def)
next
  case True
  obtain a u where a: "os_Stat E (Join [p, ''codeql-database.yml'']) s = (Ret a, u)"
    by (rule returnsE [OF returns_os(1)])
  obtain b w where b: "os_Stat E (Join [p, ''src.zip'']) u = (Ret b, w)"
    by (rule returnsE [OF returns_os(1)])
  show ?thesis
    using assms True os_Stat_tree [OF a] os_Stat_tree [OF b] a b same_tree_trans [of s u w] same_tree_cong [of s u]
    by (auto simp: visit_db_dir_def db_dir_def simp del: Join.simps split: sum.splits)
qed

lemma walk_db_dir:
  assumes "walk_paths E (visit_db_dir E) skipped ps acc s = (Ret r, t)"
  shows "same_tree s t \<and> (\<forall>d. r = Inr d \<longrightarrow> d = acc \<or> d \<in> set ps \<and> db_dir s d)"
  using assms
proof (induction ps arbitrary: skipped acc s)
  case Nil
  then show ?case by auto
next
  case (Cons p ps)
  show ?case
  proof (cases "list_ex (\<lambda>d. inside d p) skipped")
    case True
    then show ?thesis using Cons by auto
  next
    case False
    obtain i u where i: "os_Lstat E p s = (Ret i, u)" by (rule returnsE [OF returns_os(7)])
    show ?thesis
    proof (cases i)
      case (Inl e)
      then show ?thesis using False i Cons.prems os_Lstat_tree [OF i] by auto
    next
      case (Inr isDir)
      have "returns False (visit_db_dir E p isDir acc)" unfolding visit_db_dir_def by (auto intro!: returning split: sum.split)
      then obtain v w where v: "visit_db_dir E p isDir acc u = (Ret v, w)" by (rule returnsE)
      have su: "same_tree s u" "isDir \<longrightarrow> dir_exists u (Clean p)"
        using os_Lstat_tree [OF i] Inr same_tree_cong [of s u] by auto
      note vt = visit_db_dir_tree [OF v su(2)]
      show ?thesis
      proof (cases v)
        case (Inl e)
        then show ?thesis using False i Inr v Cons.prems su(1) vt same_tree_trans by auto
      next
        case (Inr x)
        obtain acc' skip where x: "x = (acc', skip)" by fastforce
        have "walk_paths E (visit_db_dir E) (if skip then p # skipped else skipped) ps acc' w = (Ret r, t)"
          using False i \<open>i = Inr isDir\<close> v Inr x Cons.prems by simp
        from Cons.IH [OF this] show ?thesis
          using vt Inr x su(1) same_tree_trans [of s u w] same_tree_trans [of s w t] same_tree_cong [of s u] same_tree_cong [of s w]
          by auto
      qed
    qed
  qed
qed

lemma findDBDir_sound:
  assumes "findDBDir E root s = (Ret (Inr d), t)"
  shows "same_tree s t \<and> (d = root \<or> inside root d) \<and> db_dir s d"
proof -
  obtain r u where w: "walk_paths (cq_os E) (visit_db_dir (cq_os E)) [] (tree_paths s root) [] s = (Ret r, u)"
    and r: "(case r of Inl err \<Rightarrow> retP (Inl err) | Inr dbDir \<Rightarrow> if dbDir = []
           then retP (Inl (ErrMsg ''no directory containing both 'codeql-database.yml' and 'src.zip' found''))
           else retP (Inr dbDir)) u = (Ret (Inr d), t)"
    using assms unfolding findDBDir_def filepath_Walk_def [abs_def] by (elim bindP_Ret_elim)
  then have "r = Inr d" "d \<noteq> []" "u = t" by (auto split: sum.splits if_splits)
  with walk_db_dir [OF w] show ?thesis by (auto simp: tree_paths_def)
qed

section \<open>Properties of the runner\<close>

text \<open>A database with two files, and a command line tool that reports two results.\<close>

definition demo_sarif :: bytes where
  "demo_sarif = json_text (JObj [(''runs'', JArr [JObj [(''results'', JArr [JNull, JNull])]])])"

definition cq_demo :: codeql_env where
  "cq_demo =
     \<lparr>cq_os = \<lparr>os_fault = \<lambda>_. None\<rparr>,
      cq_lib = \<lparr>zip_OpenReader = (\<lambda>_. Inr [\<lparr>ae_Name = ''codeql-database.yml'', ae_IsDir = False, ae_Data = [], ae_Err = None\<rparr>,
          \<lparr>ae_Name = ''src.zip'', ae_IsDir = False, ae_Data = [], ae_Err = None\<rparr>]),
        gzip_NewReader = (\<lambda>_. Inr ()), tar_gz_stream = (\<lambda>_. ([], None))\<rparr>,
      cq_getenv = (\<lambda>k. if k = ''CODEQL_CLI_PATH'' then ''codeql'' else []),
      cq_exec = (\<lambda>n args s. Some (\<lparr>cmd_stdout = ''{}'', cmd_combined = ''{}'', cmd_err = None\<rparr>,
        if contains args ''interpret-results'' then s\<lparr>fs_files := gm_put (drop 9 (args ! 4)) demo_sarif (fs_files s)\<rparr> else s)),
      cq_yaml = (\<lambda>_. Inr \<lparr>dm_CreationMetadata = None\<rparr>), cq_float64 = Some, cq_zip = (\<lambda>es. Inr (concat (map snd es)))\<rparr>"

definition cq_demo_fs :: fs where
  "cq_demo_fs = \<lparr>fs_files = [(''/t/database.zip'', ''z'')], fs_dirs = [''/t''], fs_clock = 0\<rparr>"

definition cq_demo_result :: RunQueryResult where
  "cq_demo_result = \<lparr>rr_ResultCount = 2, rr_DatabaseSHA = [], rr_SourceLocationPrefix = [],
     rr_BqrsFilePaths = \<lparr>bp_BasePath = ''/t/db/results'', bp_RelativeFilePaths = []\<rparr>,
     rr_SarifFilePath = ''/t/results/results.sarif''\<rparr>"

lemma cq_demo_run: "fst (RunQuery cq_demo ''/t/database.zip'' ''cpp'' ''/t/pack'' ''/t'' cq_demo_fs) = Ret (Inr cq_demo_result)"
  by code_simp

text \<open>
  C19. What a successful run leaves for the archive: the SARIF file in the results directory
  holds the text from which the reported number of results was counted, no BQRS file is listed,
  and, if the two file accesses succeed, the archive of the results is made of exactly one entry
  \<^verbatim>\<open>results.sarif\<close> with this text.
\<close>

theorem RunQuery_archive:
  assumes "RunQuery E database language queryPackPath tempDir s = (Ret (Inr r), t)"
    and "os_fault (cq_os E) (fs_clock t) = None" and "os_fault (cq_os E) (Suc (fs_clock t)) = None"
  shows "\<exists>sarif. gm_get (fs_files t) (Clean (Join [Join [tempDir, ''results''], ''results.sarif''])) = Some sarif
    \<and> rr_ResultCount r = getSarifResultCount E sarif
    \<and> fst (GenerateResultsZipArchive E r t) =
        Ret (case cq_zip E [(''results.sarif'', sarif)] of
               Inl err \<Rightarrow> Inl (ErrWrap ''failed to close zip writer: '' err) | Inr data \<Rightarrow> Inr data)"
proof -
  obtain sarif where sarif: "gm_get (fs_files t) (Clean (rr_SarifFilePath r)) = Some sarif"
    "rr_ResultCount r = getSarifResultCount E sarif"
    using RunQuery_outcome(3) [OF assms(1)] by blast
  let ?p = "rr_SarifFilePath r"
  have p: "?p = Join [Join [tempDir, ''results''], ''results.sarif'']" by (rule RunQuery_outcome(1) [OF assms(1)])
  have "?p \<noteq> []" unfolding p by (rule Join2_ne) simp
  moreover have "addFileToZip E [] ?p ''results.sarif'' t =
      (Ret (Inr [(''results.sarif'', sarif)]), t\<lparr>fs_clock := Suc (Suc (fs_clock t))\<rparr>)"
    using sarif(1) assms(2,3) by (simp add: addFileToZip_def try_wrap_def os_defs Let_def)
  ultimately have "fst (GenerateResultsZipArchive E r t) = Ret (case cq_zip E [(''results.sarif'', sarif)] of
               Inl err \<Rightarrow> Inl (ErrWrap ''failed to close zip writer: '' err) | Inr data \<Rightarrow> Inr data)"
    using RunQuery_outcome(2) [OF assms(1)]
    by (simp add: GenerateResultsZipArchive_def try_wrap_def bindP_def split: sum.split)
  with sarif p show ?thesis by auto
qed

theorem RunQuery_archive_witness:
  "\<exists>sarif t. gm_get (fs_files t) (Clean (Join [Join [''/t'', ''results''], ''results.sarif''])) = Some sarif
    \<and> rr_ResultCount cq_demo_result = getSarifResultCount cq_demo sarif
    \<and> fst (GenerateResultsZipArchive cq_demo cq_demo_result t) = Ret (Inr sarif)"
proof -
  obtain t where run: "RunQuery cq_demo ''/t/database.zip'' ''cpp'' ''/t/pack'' ''/t'' cq_demo_fs = (Ret (Inr cq_demo_result), t)"
    using cq_demo_run by (metis fst_conv prod.collapse)
  have ok: "os_fault (cq_os cq_demo) n = None" and zip: "cq_zip cq_demo [(''results.sarif'', d)] = Inr d" for n d
    by (simp_all add: cq_demo_def)
  from RunQuery_archive [OF run ok ok]
  obtain sarif where "gm_get (fs_files t) (Clean (Join [Join [''/t'', ''results''], ''results.sarif''])) = Some sarif"
    "rr_ResultCount cq_demo_result = getSarifResultCount cq_demo sarif"
    "fst (GenerateResultsZipArchive cq_demo cq_demo_result t) = Ret (Inr sarif)"
    unfolding zip by auto
  then show ?thesis by blast
qed

text \<open>
  C24. The database directory that is found is the root itself or lies below it, it is a
  directory, and it contains both files by which a database is recognised; the search changes no
  file.
\<close>

theorem findDBDir_finds_database:
  assumes "findDBDir E rootdir s = (Ret (Inr d), t)"
  shows "(d = rootdir \<or> inside rootdir d) \<and> dir_exists s (Clean d)
    \<and> path_exists s (Join [d, ''codeql-database.yml'']) \<and> path_exists s (Join [d, ''src.zip'']) \<and> same_tree s t"
  using findDBDir_sound [OF assms] by (simp add: db_dir_def)

definition demo_tree :: fs where
  "demo_tree = \<lparr>fs_files = [(''/t/db/x/codeql-database.yml'', []), (''/t/db/x/src.zip'', [])],
     fs_dirs = [''/t'', ''/t/db'', ''/t/db/x''], fs_clock = 0\<rparr>"

lemma demo_tree_found: "fst (findDBDir cq_demo ''/t/db'' demo_tree) = Ret (Inr ''/t/db/x'')"
  by code_simp

theorem findDBDir_finds_database_witness:
  "\<exists>t. (''/t/db/x'' = ''/t/db'' \<or> inside ''/t/db'' ''/t/db/x'') \<and> dir_exists demo_tree (Clean ''/t/db/x'')
    \<and> path_exists demo_tree (Join [''/t/db/x'', ''codeql-database.yml''])
    \<and> path_exists demo_tree (Join [''/t/db/x'', ''src.zip'']) \<and> same_tree demo_tree t"
proof -
  obtain t where "findDBDir cq_demo ''/t/db'' demo_tree = (Ret (Inr ''/t/db/x''), t)"
    using demo_tree_found by (metis fst_conv prod.collapse)
  from findDBDir_finds_database [OF this] show ?thesis by blast
qed

end
