(* ===== verification/Agent.thy ===== *)
theory Agent
  imports Codeql Queue Server_State Artifact_Store QLDB_Store
begin

text \<open>
  The agent, package \<^verbatim>\<open>pkg/agent\<close>: a worker takes a job from the queue, marks it as in
  progress, runs the analysis in a temporary directory and sends the result.  The worker reaches
  the queue, the state, the artifacts and the databases through the same interfaces as the
  server; the file system and the fresh names of \<^verbatim>\<open>uuid.New()\<close> are its own.
\<close>

section \<open>The world of a worker\<close>

record ('q, 's, 'a, 'd) agent_world =
  ag_queue :: 'q
  ag_state :: 's
  ag_artifacts :: 'a
  ag_dbs :: 'd
  ag_fs :: fs
  ag_uuids :: nat

record ('q, 's, 'a, 'd) agent =
  ag_Queue :: "'q Queue"
  ag_State :: "'s ServerState"
  ag_Artifacts :: "'a Store"
  ag_Databases :: "'d QLDBStore"
  ag_codeql :: codeql_env
  ag_tmp :: string
  ag_uuid :: "nat \<Rightarrow> string"

definition ag_on_queue :: "('q, 'x) prog \<Rightarrow> (('q, 's, 'a, 'd) agent_world, 'x) prog" where
  "ag_on_queue m w = (case m (ag_queue w) of (r, q) \<Rightarrow> (r, w\<lparr>ag_queue := q\<rparr>))"

definition ag_on_state :: "('s, 'x) prog \<Rightarrow> (('q, 's, 'a, 'd) agent_world, 'x) prog" where
  "ag_on_state m w = (case m (ag_state w) of (r, s) \<Rightarrow> (r, w\<lparr>ag_state := s\<rparr>))"

definition ag_on_artifacts :: "('a, 'x) prog \<Rightarrow> (('q, 's, 'a, 'd) agent_world, 'x) prog" where
  "ag_on_artifacts m w = (case m (ag_artifacts w) of (r, a) \<Rightarrow> (r, w\<lparr>ag_artifacts := a\<rparr>))"

definition ag_on_dbs :: "('d, 'x) prog \<Rightarrow> (('q, 's, 'a, 'd) agent_world, 'x) prog" where
  "ag_on_dbs m w = (case m (ag_dbs w) of (r, d) \<Rightarrow> (r, w\<lparr>ag_dbs := d\<rparr>))"

definition ag_on_fs :: "(fs, 'x) prog \<Rightarrow> (('q, 's, 'a, 'd) agent_world, 'x) prog" where
  "ag_on_fs m w = (case m (ag_fs w) of (r, f) \<Rightarrow> (r, w\<lparr>ag_fs := f\<rparr>))"

definition new_temp_dir :: "('q, 's, 'a, 'd) agent \<Rightarrow> (('q, 's, 'a, 'd) agent_world, string) prog" where
  "new_temp_dir A w = (Ret (Join [ag_tmp A, ag_uuid A (ag_uuids w)]), w\<lparr>ag_uuids := Suc (ag_uuids w)\<rparr>)"

text \<open>\<^verbatim>\<open>defer\<close> of a call whose result is ignored: it runs after the body, whatever its outcome.\<close>

definition deferred :: "('w, 'x) prog \<Rightarrow> ('w, 'y) prog \<Rightarrow> ('w, 'x) prog" where
  "deferred body cleanup w =
     (case body w of
        (Ret r, t) \<Rightarrow> (case cleanup t of (Ret _, u) \<Rightarrow> (Ret r, u) | (Panic e, u) \<Rightarrow> (Panic e, u) | (Hang, u) \<Rightarrow> (Hang, u))
      | (Panic e, t) \<Rightarrow> (case cleanup t of (Ret _, u) \<Rightarrow> (Panic e, u) | (Panic e', u) \<Rightarrow> (Panic e', u) | (Hang, u) \<Rightarrow> (Hang, u))
      | (Hang, t) \<Rightarrow> (Hang, t))"

section \<open>One analysis\<close>

definition success_result :: "AnalyzeJob \<Rightarrow> RunQueryResult \<Rightarrow> ArtifactLocation \<Rightarrow> AnalyzeResult" where
  "success_result job runResult resultsLocation =
     \<lparr>res_Spec = job_Spec job, res_Status = StatusSucceeded, res_ResultCount = rr_ResultCount runResult,
      res_ResultLocation = resultsLocation, res_SourceLocationPrefix = rr_SourceLocationPrefix runResult,
      res_DatabaseSHA = rr_DatabaseSHA runResult\<rparr>"

definition analyse_in ::
  "('q, 's, 'a, 'd) agent \<Rightarrow> AnalyzeJob \<Rightarrow> string \<Rightarrow> (('q, 's, 'a, 'd) agent_world, AnalyzeResult result) prog" where
  "analyse_in A job tempDir =
     (let E = ag_codeql A; os = cq_os E;
          queryPackArchivePath = Join [tempDir, ''query-pack.tar.gz''];
          queryPackPath = Join [tempDir, ''pack''];
          databasePath = Join [tempDir, ''database.zip''] in
      try_wrap ''failed to download query pack: '' (ag_on_artifacts (GetQueryPack (ag_Artifacts A) (job_QueryPackLocation job)))
        (\<lambda>queryPackData.
      try_wrap ''failed to write query pack archive to disk: '' (ag_on_fs (os_WriteFile os queryPackArchivePath queryPackData))
        (\<lambda>_.
      try_wrap ''failed to create query pack directory: '' (ag_on_fs (os_Mkdir os queryPackPath)) (\<lambda>_.
      try_wrap ''failed to extract query pack: '' (ag_on_fs (UntarGz os (cq_lib E) queryPackArchivePath queryPackPath)) (\<lambda>_.
      try_wrap (''failed to get database for '' @ full_name (NWO (job_Spec job)) @ '': '')
        (ag_on_dbs (GetDatabase (ag_Databases A) (NWO (job_Spec job)))) (\<lambda>databaseData.
      try_wrap ''failed to write CodeQL database to disk: '' (ag_on_fs (os_WriteFile os databasePath databaseData)) (\<lambda>_.
      try_wrap ''failed to run analysis: ''
        (ag_on_fs (RunQuery E databasePath (job_QueryLanguage job) queryPackPath tempDir)) (\<lambda>runResult.
      try_wrap ''failed to generate results archive: '' (ag_on_fs (GenerateResultsZipArchive E runResult)) (\<lambda>resultsArchive.
      try_wrap ''failed to save results archive: ''
        (ag_on_artifacts (SaveResult (ag_Artifacts A) (job_Spec job) resultsArchive)) (\<lambda>resultsLocation.
        retP (Inr (success_result job runResult resultsLocation))))))))))))"

text \<open>The failing result that accompanies an error is never looked at by the caller and is left out.\<close>

definition RunAnalysisJob ::
  "('q, 's, 'a, 'd) agent \<Rightarrow> AnalyzeJob \<Rightarrow> (('q, 's, 'a, 'd) agent_world, AnalyzeResult result) prog" where
  "RunAnalysisJob A job =
     bindP (new_temp_dir A) (\<lambda>tempDir.
       try_wrap ''failed to create temporary directory: '' (ag_on_fs (os_MkdirAll (cq_os (ag_codeql A)) tempDir)) (\<lambda>_.
         deferred (analyse_in A job tempDir) (ag_on_fs (os_RemoveAll (cq_os (ag_codeql A)) tempDir))))"

section \<open>The worker\<close>

text \<open>
  One turn of the loop when a job is received.  The result tells whether the worker goes on:
  it stops when the channel is closed.  A job whose analysis fails is only logged.
\<close>

definition take_job :: "('q, 's, 'a, 'd) agent \<Rightarrow> (('q, 's, 'a, 'd) agent_world, AnalyzeJob option) prog" where
  "take_job A =
     bindP (ag_on_queue (q_RecvJob (ag_Queue A))) (\<lambda>received.
       case received of
         None \<Rightarrow> retP None
       | Some job \<Rightarrow>
           seqP (ag_on_state (ss_SetStatus (ag_State A) (job_Spec job) StatusInProgress)) (retP (Some job)))"

definition RunWorker_turn :: "('q, 's, 'a, 'd) agent \<Rightarrow> (('q, 's, 'a, 'd) agent_world, bool) prog" where
  "RunWorker_turn A =
     bindP (take_job A) (\<lambda>received.
       case received of
         None \<Rightarrow> retP False
       | Some job \<Rightarrow>
           bindP (RunAnalysisJob A job) (\<lambda>r.
             case r of
               Inl err \<Rightarrow> retP True
             | Inr result \<Rightarrow> seqP (ag_on_queue (q_SendResult (ag_Queue A) result)) (retP True)))"

text \<open>
  The events that a worker sees: a stop, either of its own channel or of the context, or a
  job that is ready.  The loop runs over a sequence of them, until the worker stops.
\<close>

datatype worker_event = StopChan | CtxDone | JobReady

fun RunWorker :: "('q, 's, 'a, 'd) agent \<Rightarrow> worker_event list \<Rightarrow> (('q, 's, 'a, 'd) agent_world, unit) prog" where
  "RunWorker A [] = retP ()"
| "RunWorker A (StopChan # es) = retP ()"
| "RunWorker A (CtxDone # es) = retP ()"
| "RunWorker A (JobReady # es) = bindP (RunWorker_turn A) (\<lambda>go_on. if go_on then RunWorker A es else retP ())"

text \<open>The number of workers that are started.\<close>

definition worker_count :: "int \<Rightarrow> int" where
  "worker_count desiredWorkerCount = (if desiredWorkerCount > 0 then desiredWorkerCount else 1)"

text \<open>
  Starting the workers and telling them to stop.  The state has the stop channel of each worker
  and the counter of the wait group; \<open>cancelled\<close> says whether the context is cancelled at some
  time, for which \<^verbatim>\<open>StartAndMonitorWorkers\<close> waits.
\<close>

record worker_monitor =
  wm_stopChans :: "unit chan list"
  wm_wg :: int

definition start_worker :: "(worker_monitor, unit) prog" where
  "start_worker m = (Ret (), m\<lparr>wm_stopChans := wm_stopChans m @ [make_chan 0], wm_wg := wm_wg m + 1\<rparr>)"

definition stop_worker :: "nat \<Rightarrow> (worker_monitor, unit) prog" where
  "stop_worker i m =
     (case chan_close (wm_stopChans m ! i) of (r, c) \<Rightarrow> (r, m\<lparr>wm_stopChans := (wm_stopChans m)[i := c]\<rparr>))"

definition StartAndMonitorWorkers :: "bool \<Rightarrow> int \<Rightarrow> (worker_monitor, unit) prog" where
  "StartAndMonitorWorkers cancelled desiredWorkerCount =
     (let workerCount = nat (worker_count desiredWorkerCount) in
      seqP (forP [0..<workerCount] (\<lambda>_. start_worker))
        (seqP (\<lambda>m. if cancelled then (Ret (), m) else (Hang, m))
           (forP [0..<workerCount] stop_worker)))"

text \<open>The results that the analysis of the next job can have, if it succeeds.\<close>

definition turn_results :: "('q, 's, 'a, 'd) agent \<Rightarrow> ('q, 's, 'a, 'd) agent_world \<Rightarrow> AnalyzeResult set" where
  "turn_results A w = {r. \<exists>j u t. take_job A w = (Ret (Some j), u) \<and> RunAnalysisJob A j u = (Ret (Inr r), t)}"

section \<open>Starting and stopping workers\<close>

lemma start_workers:
  "forP is (\<lambda>_. start_worker) m =
     (Ret (), m\<lparr>wm_stopChans := wm_stopChans m @ replicate (length is) (make_chan 0), wm_wg := wm_wg m + int (length is)\<rparr>)"
  by (induction "is" arbitrary: m) (simp_all add: start_worker_def replicate_append_same)

lemma stop_workers:
  "k \<le> n \<Longrightarrow> length (wm_stopChans m) = n \<Longrightarrow> \<forall>i<n. ch_closed (wm_stopChans m ! i) = (i < k) \<Longrightarrow>
     \<exists>cs. forP [k..<n] stop_worker m = (Ret (), m\<lparr>wm_stopChans := cs\<rparr>) \<and> length cs = n \<and> (\<forall>c \<in> set cs. ch_closed c)"
proof (induction "n - k" arbitrary: k m)
  case 0
  then show ?case by (intro exI [of _ "wm_stopChans m"]) (auto simp: in_set_conv_nth)
next
  case (Suc d)
  then have k: "k < n" "[k..<n] = k # [Suc k..<n]" by (simp_all add: upt_conv_Cons)
  let ?c = "(wm_stopChans m ! k)\<lparr>ch_closed := True\<rparr>"
  let ?m = "m\<lparr>wm_stopChans := (wm_stopChans m)[k := ?c]\<rparr>"
  have step: "stop_worker k m = (Ret (), ?m)" using Suc.prems(3) k(1) by (simp add: stop_worker_def chan_close_def)
  have "\<forall>i<n. ch_closed (wm_stopChans ?m ! i) = (i < Suc k)"
    using Suc.prems by (auto simp: nth_list_update less_Suc_eq)
  then have "\<exists>cs. forP [Suc k..<n] stop_worker ?m = (Ret (), ?m\<lparr>wm_stopChans := cs\<rparr>) \<and> length cs = n \<and> (\<forall>c \<in> set cs. ch_closed c)"
    using Suc.hyps(2) Suc.prems(2) k(1) by (intro Suc.hyps(1)) simp_all
  then show ?case using step k(2) by auto
qed

text \<open>
  As many workers are started as were asked for, at least one, each counted in the wait group;
  when the context is cancelled the stop channel of every one of them is closed, once.
\<close>

lemma all_workers_stopped:
  "\<exists>cs. StartAndMonitorWorkers True n \<lparr>wm_stopChans = [], wm_wg = g\<rparr> =
       (Ret (), \<lparr>wm_stopChans = cs, wm_wg = g + worker_count n\<rparr>)
     \<and> length cs = nat (worker_count n) \<and> 1 \<le> length cs \<and> (\<forall>c \<in> set cs. ch_closed c)"
proof -
  let ?k = "nat (worker_count n)"
  have pos: "1 \<le> ?k" "int ?k = worker_count n" by (auto simp: worker_count_def)
  obtain cs where "forP [0..<?k] stop_worker \<lparr>wm_stopChans = replicate ?k (make_chan 0), wm_wg = g + worker_count n\<rparr> =
      (Ret (), \<lparr>wm_stopChans = cs, wm_wg = g + worker_count n\<rparr>)" "length cs = ?k" "\<forall>c \<in> set cs. ch_closed c"
    using stop_workers [of 0 ?k "\<lparr>wm_stopChans = replicate ?k (make_chan 0), wm_wg = g + worker_count n\<rparr>"]
    by (auto simp: make_chan_def)
  moreover have "forP [0..<?k] (\<lambda>_. start_worker) \<lparr>wm_stopChans = [], wm_wg = g\<rparr> =
      (Ret (), \<lparr>wm_stopChans = replicate ?k (make_chan 0), wm_wg = g + worker_count n\<rparr>)"
    using start_workers [of "[0..<?k]" "\<lparr>wm_stopChans = [], wm_wg = g\<rparr>"] pos(2) by simp
  ultimately show ?thesis using pos(1) by (simp add: StartAndMonitorWorkers_def Let_def)
qed

section \<open>What a worker does\<close>

lemma ag_lift_Ret:
  "m (ag_queue w) = (Ret x, q) \<Longrightarrow> ag_on_queue m w = (Ret x, w\<lparr>ag_queue := q\<rparr>)"
  "k (ag_state w) = (Ret y, s) \<Longrightarrow> ag_on_state k w = (Ret y, w\<lparr>ag_state := s\<rparr>)"
  by (simp_all add: ag_on_queue_def ag_on_state_def)

lemma deferred_Ret:
  "body w = (Ret r, t) \<Longrightarrow> cleanup t = (Ret y, u) \<Longrightarrow> deferred body cleanup w = (Ret r, u)"
  by (simp add: deferred_def)

text \<open>
  \<open>runs h I m Q\<close>: from a state in which \<open>I\<close> holds, the computation returns, in a state
  for which \<open>Q\<close> holds with the value, or it waits forever, which it may only if \<open>h\<close> holds.
\<close>

definition runs :: "bool \<Rightarrow> ('w \<Rightarrow> bool) \<Rightarrow> ('w, 'x) prog \<Rightarrow> ('x \<Rightarrow> 'w \<Rightarrow> bool) \<Rightarrow> bool" where
  "runs h I m Q \<longleftrightarrow> (\<forall>w. I w \<longrightarrow> (\<exists>r t. m w = (Ret r, t) \<and> Q r t) \<or> (h \<and> fst (m w) = Hang))"

abbreviation keeps :: "bool \<Rightarrow> ('w \<Rightarrow> bool) \<Rightarrow> ('w, 'x) prog \<Rightarrow> bool" where
  "keeps h I m \<equiv> runs h I m (\<lambda>_. I)"

lemma runsI:
  assumes "\<And>w. I w \<Longrightarrow> (\<exists>r t. m w = (Ret r, t) \<and> Q r t) \<or> (h \<and> fst (m w) = Hang)"
  shows "runs h I m Q"
  using assms unfolding runs_def by blast

lemma runsE:
  assumes "runs h I m Q" and "I w"
  obtains (returned) r t where "m w = (Ret r, t)" and "Q r t" | (waits) t where "h" and "m w = (Hang, t)"
  using assms unfolding runs_def by (metis prod.collapse)

lemma runs_retP: "(\<And>w. I w \<Longrightarrow> Q x w) \<Longrightarrow> runs h I (retP x) Q"
  by (simp add: runs_def)

lemma runs_bindP:
  assumes "runs h I m J" and "\<And>x. runs h (J x) (k x) Q"
  shows "runs h I (bindP m k) Q"
proof (rule runsI)
  fix w assume "I w"
  from assms(1) this show "(\<exists>r t. bindP m k w = (Ret r, t) \<and> Q r t) \<or> (h \<and> fst (bindP m k w) = Hang)"
  proof (cases rule: runsE)
    case (returned r t)
    then show ?thesis using assms(2) [of r] by (simp add: runs_def)
  next
    case (waits t)
    then show ?thesis by simp
  qed
qed

lemma runs_try_wrap:
  assumes "runs h I m J" and "\<And>x. runs h (J (Inr x)) (k x) Q" and "\<And>e e' w. J (Inl e) w \<Longrightarrow> Q (Inl e') w"
  shows "runs h I (try_wrap msg m k) Q"
  unfolding try_wrap_def
proof (rule runs_bindP [OF assms(1)])
  fix r :: "error + 'b"
  show "runs h (J r) (case r of Inl e \<Rightarrow> retP (Inl (ErrWrap msg e)) | Inr x \<Rightarrow> k x) Q"
    using assms(2,3) by (cases r) (auto intro: runs_retP)
qed

lemma runs_deferred:
  assumes "runs h I m Q" and "\<And>x. keeps False (Q x) c"
  shows "runs h I (deferred m c) Q"
proof (rule runsI)
  fix w assume "I w"
  from assms(1) this show "(\<exists>r t. deferred m c w = (Ret r, t) \<and> Q r t) \<or> (h \<and> fst (deferred m c w) = Hang)"
  proof (cases rule: runsE)
    case (returned r t)
    from assms(2) returned(2) obtain y u where "c t = (Ret y, u)" "Q r u" by (rule runsE) blast+
    with deferred_Ret [of m w r t c] returned(1) show ?thesis by blast
  next
    case (waits t)
    then show ?thesis by (simp add: deferred_def)
  qed
qed

lemma keeps_fs:
  assumes "returns h m" and "\<And>w f. I w \<Longrightarrow> I (w\<lparr>ag_fs := f\<rparr>)"
  shows "keeps h I (ag_on_fs m)"
proof (rule runsI)
  fix w assume "I w"
  consider r t where "m (ag_fs w) = (Ret r, t)" | t where h "m (ag_fs w) = (Hang, t)"
    using assms(1) unfolding returns_def by (metis prod.collapse)
  then show "(\<exists>r t. ag_on_fs m w = (Ret r, t) \<and> I t) \<or> (h \<and> fst (ag_on_fs m w) = Hang)"
    using assms(2) [OF \<open>I w\<close>] by cases (simp_all add: ag_on_fs_def)
qed

lemma returns_zip: "returns h (GenerateResultsZipArchive E r)"
proof -
  have add: "returns h (addFileToZip E zw p q)" for zw p q
    unfolding addFileToZip_def by (auto intro!: returning)
  have "returns h (add_bqrs_files E base ps zw)" for base ps zw
    by (induction ps arbitrary: zw) (auto intro!: returning add)
  then show ?thesis
    unfolding GenerateResultsZipArchive_def by (auto intro!: returning add split: sum.split)
qed

text \<open>A worker whose four interfaces keep their contracts.\<close>

locale worker =
  st: server_state "ag_State A" s_ok s_view issued room fits adm_spec adm_job adm_result adm_info repo_ids +
  qu: job_queue "ag_Queue A" q_ok jobs results free_jobs free_results qadm_job qadm_result +
  ar: artifact_store "ag_Artifacts A" a_ok pack_at result_at bucket_ok +
  db: qldb_store "ag_Databases A" d_ok
  for A :: "('q, 's, 'a, 'd) agent"
    and s_ok s_view issued room fits adm_spec adm_job adm_result adm_info repo_ids
    and q_ok jobs results free_jobs free_results qadm_job qadm_result
    and a_ok pack_at result_at bucket_ok and d_ok
begin

text \<open>While a job is analysed, the queue and the state are left alone, and so is what is stored.\<close>

definition analysing :: "('q, 's, 'a, 'd) agent_world \<Rightarrow> ('q, 's, 'a, 'd) agent_world \<Rightarrow> bool" where
  "analysing w0 w \<longleftrightarrow> ag_queue w = ag_queue w0 \<and> ag_state w = ag_state w0 \<and> a_ok (ag_artifacts w) \<and> d_ok (ag_dbs w)
     \<and> pack_at (ag_artifacts w) = pack_at (ag_artifacts w0) \<and> result_at (ag_artifacts w) = result_at (ag_artifacts w0)"

text \<open>
  Once the archive is saved, it is the only object that has changed, and the result names the
  job and the place of the archive.
\<close>

fun analysed ::
  "('q, 's, 'a, 'd) agent_world \<Rightarrow> AnalyzeJob \<Rightarrow> AnalyzeResult result \<Rightarrow> ('q, 's, 'a, 'd) agent_world \<Rightarrow> bool" where
  "analysed w0 job (Inl e) w = analysing w0 w"
| "analysed w0 job (Inr r) w \<longleftrightarrow>
     ag_queue w = ag_queue w0 \<and> ag_state w = ag_state w0 \<and> a_ok (ag_artifacts w) \<and> d_ok (ag_dbs w)
     \<and> res_Spec r = job_Spec job \<and> res_Status r = StatusSucceeded
     \<and> loc_Key (res_ResultLocation r) = result_key (job_Spec job) \<and> bucket_ok (loc_Bucket (res_ResultLocation r))
     \<and> result_at (ag_artifacts w) (res_ResultLocation r) \<noteq> None
     \<and> (\<forall>l. loc_Key l \<noteq> result_key (job_Spec job) \<longrightarrow>
          pack_at (ag_artifacts w) l = pack_at (ag_artifacts w0) l
        \<and> result_at (ag_artifacts w) l = result_at (ag_artifacts w0) l)
     \<and> dom (result_at (ag_artifacts w0)) \<subseteq> dom (result_at (ag_artifacts w))"

lemma analysed_fs: "analysed w0 job r w \<Longrightarrow> analysed w0 job r (w\<lparr>ag_fs := f\<rparr>)"
  by (cases r) (simp_all add: analysing_def)

lemma runs_fs: "returns h m \<Longrightarrow> keeps h (analysing w0) (ag_on_fs m)" "returns h m \<Longrightarrow> keeps h (analysed w0 job r) (ag_on_fs m)"
  by (rule keeps_fs, assumption, simp add: analysing_def) (rule keeps_fs, assumption, erule analysed_fs)

lemma runs_get_pack: "keeps h (analysing w0) (ag_on_artifacts (GetQueryPack (ag_Artifacts A) l))"
proof (rule runsI, rule disjI1)
  fix w assume w: "analysing w0 w"
  then have ok: "a_ok (ag_artifacts w)" by (simp add: analysing_def)
  have "\<exists>r t. GetQueryPack (ag_Artifacts A) l (ag_artifacts w) = (Ret r, t) \<and> a_ok t
      \<and> pack_at t = pack_at (ag_artifacts w) \<and> result_at t = result_at (ag_artifacts w)"
    using ar.get_pack_Some [OF ok, of l] ar.get_pack_None [OF ok, of l]
    by (cases "pack_at (ag_artifacts w) l") blast+
  then obtain r t where "GetQueryPack (ag_Artifacts A) l (ag_artifacts w) = (Ret r, t)" "a_ok t"
    "pack_at t = pack_at (ag_artifacts w)" "result_at t = result_at (ag_artifacts w)" by blast
  with w show "\<exists>r t. ag_on_artifacts (GetQueryPack (ag_Artifacts A) l) w = (Ret r, t) \<and> analysing w0 t"
    by (simp add: ag_on_artifacts_def analysing_def)
qed

text \<open>The waiting that is possible during an analysis: for the command line tool, or for a database.\<close>

definition may_wait :: bool where
  "may_wait \<longleftrightarrow> \<not> (cq_exits (ag_codeql A) \<and> (\<forall>n d. d_ok d \<longrightarrow> fst (GetDatabase (ag_Databases A) n d) \<noteq> Hang))"

lemma runs_get_db: "keeps may_wait (analysing w0) (ag_on_dbs (GetDatabase (ag_Databases A) n))"
proof (rule runsI)
  fix w assume w: "analysing w0 w"
  then have "d_ok (ag_dbs w)" by (simp add: analysing_def)
  then consider r t where "GetDatabase (ag_Databases A) n (ag_dbs w) = (Ret r, t)" "d_ok t"
    | t where may_wait "GetDatabase (ag_Databases A) n (ag_dbs w) = (Hang, t)"
    using db.get_db [of "ag_dbs w" n] unfolding may_wait_def by (metis prod.collapse)
  then show "(\<exists>r t. ag_on_dbs (GetDatabase (ag_Databases A) n) w = (Ret r, t) \<and> analysing w0 t)
      \<or> (may_wait \<and> fst (ag_on_dbs (GetDatabase (ag_Databases A) n) w) = Hang)"
    using w by cases (simp_all add: ag_on_dbs_def analysing_def)
qed

lemma runs_query: "keeps may_wait (analysing w0) (ag_on_fs (RunQuery (ag_codeql A) database language pack dir))"
proof (rule runs_fs)
  show "returns may_wait (RunQuery (ag_codeql A) database language pack dir)"
    using returns_RunQuery [of "ag_codeql A"] unfolding returns_def may_wait_def by blast
qed

lemma runs_save:
  "runs h (analysing w0) (try_wrap msg (ag_on_artifacts (SaveResult (ag_Artifacts A) (job_Spec job) d))
     (\<lambda>l. retP (Inr (success_result job rr l)))) (analysed w0 job)"
proof (rule runsI, rule disjI1)
  fix w assume w: "analysing w0 w"
  then obtain l t where "SaveResult (ag_Artifacts A) (job_Spec job) d (ag_artifacts w) = (Ret (Inr l), t)" "a_ok t"
    "loc_Key l = result_key (job_Spec job)" "bucket_ok (loc_Bucket l)" "result_at t l = Some d"
    "\<forall>l'. loc_Key l' \<noteq> result_key (job_Spec job) \<longrightarrow>
       pack_at t l' = pack_at (ag_artifacts w) l' \<and> result_at t l' = result_at (ag_artifacts w) l'"
    "dom (result_at (ag_artifacts w)) \<subseteq> dom (result_at t)"
    using ar.save_result [of "ag_artifacts w" "job_Spec job" d] unfolding analysing_def by blast
  with w show "\<exists>r t. try_wrap msg (ag_on_artifacts (SaveResult (ag_Artifacts A) (job_Spec job) d))
      (\<lambda>l. retP (Inr (success_result job rr l))) w = (Ret r, t) \<and> analysed w0 job r t"
    by (simp add: try_wrap_def bindP_def ag_on_artifacts_def analysing_def success_result_def)
qed

lemma runs_step:
  assumes "keeps h (analysing w0) m" and "\<And>x. runs h (analysing w0) (k x) (analysed w0 job)"
  shows "runs h (analysing w0) (try_wrap msg m k) (analysed w0 job)"
  using assms by (rule runs_try_wrap) simp

text \<open>
  The analysis returns with an error and nothing stored or with a stored result, unless it waits
  for a command or a database.
\<close>

lemma runs_analysis: "runs may_wait (analysing w0) (RunAnalysisJob A job) (analysed w0 job)"
proof -
  have body: "runs may_wait (analysing w0) (analyse_in A job dir) (analysed w0 job)" for dir
    unfolding analyse_in_def Let_def
    by (intro runs_step runs_query runs_get_pack runs_get_db runs_save runs_fs returns_os returns_UntarGz returns_zip)
  have "keeps may_wait (analysing w0) (new_temp_dir A)" by (simp add: runs_def new_temp_dir_def analysing_def)
  then show ?thesis
    unfolding RunAnalysisJob_def
    by (rule runs_bindP) (intro runs_step runs_deferred body runs_fs returns_os)
qed

definition ag_ok :: "('q, 's, 'a, 'd) agent_world \<Rightarrow> bool" where
  "ag_ok w \<longleftrightarrow> s_ok (ag_state w) \<and> q_ok (ag_queue w) \<and> a_ok (ag_artifacts w) \<and> d_ok (ag_dbs w)"

text \<open>
  One turn of a worker with a job at the head of the queue.  The job is taken and marked as
  in progress.  Either the analysis fails, and nothing else happens, or its result is appended to
  the results and names an archive in the store.  The turn does not end if the analysis waits
  forever or the result cannot be sent.
\<close>

lemma turn_effect:
  assumes w: "ag_ok w" "jobs (ag_queue w) = j # js" "adm_spec (job_Spec j)" "issued (ag_state w) (SessionID (job_Spec j))"
    and send: "\<forall>r \<in> turn_results A w. qadm_result r"
  shows "(\<exists>w' rs. RunWorker_turn A w = (Ret True, w') \<and> ag_ok w' \<and> jobs (ag_queue w') = js
    \<and> (\<forall>n. free_results (ag_queue w) (Suc n) \<longrightarrow> free_results (ag_queue w') n)
    \<and> dom (result_at (ag_artifacts w)) \<subseteq> dom (result_at (ag_artifacts w')) \<and> set rs \<subseteq> turn_results A w
    \<and> results (ag_queue w') = results (ag_queue w) @ rs
    \<and> issued (ag_state w') = issued (ag_state w)
    \<and> s_view (ag_state w') = (s_view (ag_state w))
        \<lparr>jv_status := (jv_status (s_view (ag_state w)))(job_Spec j \<mapsto> StatusInProgress)\<rparr>
    \<and> (rs = [] \<and> pack_at (ag_artifacts w') = pack_at (ag_artifacts w)
          \<and> result_at (ag_artifacts w') = result_at (ag_artifacts w)
       \<or> (\<exists>r. rs = [r] \<and> res_Spec r = job_Spec j \<and> res_Status r = StatusSucceeded
           \<and> loc_Key (res_ResultLocation r) = result_key (job_Spec j) \<and> bucket_ok (loc_Bucket (res_ResultLocation r))
           \<and> result_at (ag_artifacts w') (res_ResultLocation r) \<noteq> None
           \<and> (\<forall>l. loc_Key l \<noteq> result_key (job_Spec j) \<longrightarrow>
                pack_at (ag_artifacts w') l = pack_at (ag_artifacts w) l
              \<and> result_at (ag_artifacts w') l = result_at (ag_artifacts w) l))))
    \<or> fst (RunWorker_turn A w) = Hang \<and> 
      (may_wait \<or> turn_results A w \<noteq> {} \<and> (\<forall>n. \<not> free_results (ag_queue w) (Suc n)))" (is "?effect \<or> ?waits")
proof -
  obtain q where q: "q_RecvJob (ag_Queue A) (ag_queue w) = (Ret (Some j), q)" "q_ok q" "jobs q = js"
    "results q = results (ag_queue w)" "free_results q = free_results (ag_queue w)"
    using qu.recv_job [of "ag_queue w" j js] w(1,2) unfolding ag_ok_def by blast
  have "known_status StatusInProgress" by (simp add: known_status_iff)
  then obtain s where s: "ss_SetStatus (ag_State A) (job_Spec j) StatusInProgress (ag_state w) = (Ret (), s)" "s_ok s"
    "issued s = issued (ag_state w)"
    "s_view s = (s_view (ag_state w))\<lparr>jv_status := (jv_status (s_view (ag_state w)))(job_Spec j \<mapsto> StatusInProgress)\<rparr>"
    using st.set_status [OF _ w(4,3)] w(1) unfolding ag_ok_def by blast
  define u where "u = w\<lparr>ag_queue := q, ag_state := s\<rparr>"
  have u: "analysing u u" using w(1) by (simp add: analysing_def u_def ag_ok_def)
  have take: "take_job A w = (Ret (Some j), u)"
    using q(1) s(1) by (simp add: take_job_def bindP_def ag_on_queue_def ag_on_state_def u_def)
  from runs_analysis [of u j] u show ?thesis
  proof (cases rule: runsE)
    case (waits t)
    then have ?waits using take by (simp add: RunWorker_turn_def bindP_def)
    then show ?thesis ..
  next
    case t: (returned r t)
    have turn: "RunWorker_turn A w = (case r of Inl err \<Rightarrow> retP True
        | Inr result \<Rightarrow> seqP (ag_on_queue (q_SendResult (ag_Queue A) result)) (retP True)) t"
      using take t(1) by (simp add: RunWorker_turn_def bindP_def)
    show ?thesis
    proof (cases r)
      case (Inl e)
      with t have t': "analysing u t" by simp
      then have "ag_ok t" "ag_queue t = q" "ag_state t = s"
        "pack_at (ag_artifacts t) = pack_at (ag_artifacts w)" "result_at (ag_artifacts t) = result_at (ag_artifacts w)"
        using q(2) s(2) by (simp_all add: ag_ok_def analysing_def u_def)
      then have ?effect
        using turn q(3-5) s(3,4) Inl qu.free_results_Suc by (intro exI [of _ t] exI [of _ "[]"]) simp
      then show ?thesis ..
    next
      case (Inr res)
      with t have t': "analysed u j (Inr res) t" by simp
      have mem: "res \<in> turn_results A w" using take t(1) Inr unfolding turn_results_def by blast
      from t' have qt: "ag_queue t = q" "ag_state t = s" "a_ok (ag_artifacts t)" "d_ok (ag_dbs t)" by (simp_all add: u_def)
      consider q' where "q_SendResult (ag_Queue A) res q = (Ret (), q')" "q_ok q'" "results q' = results q @ [res]"
          "jobs q' = jobs q" "\<forall>n. free_results q (Suc n) \<longrightarrow> free_results q' n"
        | q' where "q_SendResult (ag_Queue A) res q = (Hang, q')" "\<forall>n. \<not> free_results q (Suc n)"
        using qu.send_result [OF q(2), of res] mem send by (metis prod.collapse)
      then show ?thesis
      proof cases
        case q': 1
        let ?t = "t\<lparr>ag_queue := q'\<rparr>"
        have "RunWorker_turn A w = (Ret True, ?t)"
          using turn Inr q'(1) qt(1) by (simp add: ag_on_queue_def)
        moreover have "ag_ok ?t" using qt q'(2) s(2) by (simp add: ag_ok_def)
        ultimately have ?effect
          using t' q q' s qt mem by (intro exI [of _ ?t] exI [of _ "[res]"]) (simp add: u_def)
        then show ?thesis ..
      next
        case q': 2
        then have ?waits using turn Inr qt(1) q(5) mem by (auto simp: ag_on_queue_def)
        then show ?thesis ..
      qed
    qed
  qed
qed

end

section \<open>Cleaning up\<close>

lemma deferred_Ret_elim:
  assumes "deferred body cleanup w = (Ret r, u)"
  obtains t y where "body w = (Ret r, t)" and "cleanup t = (Ret y, u)"
  using assms by (auto simp: deferred_def split: prod.splits go.splits)

text \<open>
  C17. An analysis cleans up after itself: whatever the outcome of a job for which the temporary
  directory could be made, when the function returns there is no file and no directory left at its
  path or below it, provided that the operating system reports no fault.
\<close>

theorem RunAnalysisJob_cleans_up:
  assumes "RunAnalysisJob A job w = (Ret r, t)" and "\<forall>n. os_fault (cq_os (ag_codeql A)) n = None"
    and "os_MkdirAll (cq_os (ag_codeql A)) (Join [ag_tmp A, ag_uuid A (ag_uuids w)]) (ag_fs w) = (Ret (Inr ()), f)"
  shows "\<forall>q. (q \<in> fst ` set (fs_files (ag_fs t)) \<or> q \<in> set (fs_dirs (ag_fs t))) \<longrightarrow>
    q \<noteq> Clean (Join [ag_tmp A, ag_uuid A (ag_uuids w)])
    \<and> \<not> HasPrefix q (Clean (Join [ag_tmp A, ag_uuid A (ag_uuids w)]) @ ''/'')"
proof -
  let ?d = "Join [ag_tmp A, ag_uuid A (ag_uuids w)]"
  have "deferred (analyse_in A job ?d) (ag_on_fs (os_RemoveAll (cq_os (ag_codeql A)) ?d))
      (w\<lparr>ag_uuids := Suc (ag_uuids w), ag_fs := f\<rparr>) = (Ret r, t)"
    using assms(1,3) by (simp add: RunAnalysisJob_def new_temp_dir_def try_wrap_def bindP_def ag_on_fs_def del: Join.simps)
  then obtain u y where "ag_on_fs (os_RemoveAll (cq_os (ag_codeql A)) ?d) u = (Ret y, t)"
    by (rule deferred_Ret_elim)
  then have t: "fs_files (ag_fs t) = filter (\<lambda>(q, d). \<not> (q = Clean ?d \<or> HasPrefix q (Clean ?d @ ''/''))) (fs_files (ag_fs u))"
      "fs_dirs (ag_fs t) = filter (\<lambda>q. \<not> (q = Clean ?d \<or> HasPrefix q (Clean ?d @ ''/''))) (fs_dirs (ag_fs u))"
    using assms(2) by (auto simp: ag_on_fs_def os_RemoveAll_def os_call_def Let_def simp del: Join.simps)
  show ?thesis unfolding t by auto
qed

end
