(* ===== verification/Pipeline.thy ===== *)
theory Pipeline
  imports Deployment Agent
begin

text \<open>
  The server and an agent at work on the same services.  Both are built by
  \<^verbatim>\<open>pkg/deploy/init.go\<close> on RabbitMQ, PostgreSQL and MinIO; the agent has its own HEPC
  client and its own file system.  A step of the system is a request to the server, a step of its
  result loop, or a turn of the worker.  The invariant of the reachable states relates the queues,
  the recorded jobs and the stored artifacts.
\<close>

section \<open>The system\<close>

definition container_agent ::
  "'b amqp \<Rightarrow> pg_env \<Rightarrow> BucketNames \<Rightarrow> 'm minio_client \<Rightarrow> hepc_env \<Rightarrow> codeql_env \<Rightarrow> string \<Rightarrow> (nat \<Rightarrow> string) \<Rightarrow>
   ('b rabbit_system, PGState, 'm, HepcStore) agent" where
  "container_agent A P bkt C H Q tmp uuid =
     \<lparr>ag_Queue = Rabbit_Queue A, ag_State = PG_ServerState P, ag_Artifacts = MinIO_Store bkt C,
      ag_Databases = Hepc_DBStore H, ag_codeql = Q, ag_tmp = tmp, ag_uuid = uuid\<rparr>"

text \<open>What the agent has for itself.\<close>

record agent_private =
  pv_dbs :: HepcStore
  pv_fs :: fs
  pv_uuids :: nat

type_synonym ('b, 'm) system = "('b rabbit_system, PGState, 'm, HepcStore) world \<times> agent_private"

definition agent_view :: "('b, 'm) system \<Rightarrow> ('b rabbit_system, PGState, 'm, HepcStore) agent_world" where
  "agent_view x = (case x of (w, p) \<Rightarrow>
     \<lparr>ag_queue = w_queue w, ag_state = w_state w, ag_artifacts = w_artifacts w, ag_dbs = pv_dbs p, ag_fs = pv_fs p,
      ag_uuids = pv_uuids p\<rparr>)"

definition after_agent ::
  "('b rabbit_system, PGState, 'm, HepcStore) agent_world \<Rightarrow> ('b, 'm) system \<Rightarrow> ('b, 'm) system" where
  "after_agent a x =
     ((fst x)\<lparr>w_queue := ag_queue a, w_state := ag_state a, w_artifacts := ag_artifacts a\<rparr>,
      \<lparr>pv_dbs = ag_dbs a, pv_fs = ag_fs a, pv_uuids = ag_uuids a\<rparr>)"

definition worker_turn ::
  "('b rabbit_system, PGState, 'm, HepcStore) agent \<Rightarrow> (('b, 'm) system, bool) prog" where
  "worker_turn G x = (case RunWorker_turn G (agent_view x) of (r, a) \<Rightarrow> (r, after_agent a x))"

text \<open>A result that can be sent and recorded: its texts can be stored and its numbers fit.\<close>

definition admissible :: "AnalyzeResult \<Rightarrow> bool" where
  "admissible r \<longleftrightarrow> pg_adm_result r \<and> wf_AnalyzeResult r"

section \<open>The agent meets its contract\<close>

locale pipeline = deployment A up V P bkt C healthy obj H
  for A :: "'b amqp" and up :: "'b \<Rightarrow> bool" and V :: "'b \<Rightarrow> broker_view" and P :: pg_env
    and bkt :: BucketNames and C :: "'m minio_client" and healthy :: "'m \<Rightarrow> bool"
    and obj :: "'m \<Rightarrow> string \<Rightarrow> string \<Rightarrow> bytes option" and H :: hepc_env +
  fixes H' :: hepc_env and Q :: codeql_env and tmp :: string and uuid :: "nat \<Rightarrow> string"

sublocale pipeline \<subseteq> wk: worker "container_agent A P bkt C H' Q tmp uuid" pg_inv pg_view pg_issued
  "\<lambda>s. session_id_seq s < max_int32" pg_fits key_ok pg_adm_job pg_adm_result pg_adm_info pg_repo_ids
  "rabbit_ok up V" "rabbit_jobs V" "rabbit_results V" "rabbit_free_jobs V" "rabbit_free_results V" wf_AnalyzeJob wf_AnalyzeResult
  healthy "at_loc obj" "at_loc obj" "bucket_of bkt" "\<lambda>h. \<not> hs_cacheMutex h"
proof -
  have s: "server_state (PG_ServerState P) pg_inv pg_view pg_issued (\<lambda>s. session_id_seq s < max_int32) pg_fits key_ok
      pg_adm_job pg_adm_result pg_adm_info pg_repo_ids"
    and q: "job_queue (Rabbit_Queue A) (rabbit_ok up V) (rabbit_jobs V) (rabbit_results V)
      (rabbit_free_jobs V) (rabbit_free_results V) wf_AnalyzeJob wf_AnalyzeResult"
    and a: "artifact_store (MinIO_Store bkt C) healthy (at_loc obj) (at_loc obj) (bucket_of bkt)"
    using commander_axioms by (simp_all add: commander_def container_server_def)
  moreover have d: "qldb_store (Hepc_DBStore H') (\<lambda>h. \<not> hs_cacheMutex h)" by unfold_locales
  ultimately show "worker (container_agent A P bkt C H' Q tmp uuid) pg_inv pg_view pg_issued
    (\<lambda>s. session_id_seq s < max_int32) pg_fits key_ok pg_adm_job pg_adm_result pg_adm_info pg_repo_ids
    (rabbit_ok up V) (rabbit_jobs V) (rabbit_results V) (rabbit_free_jobs V) (rabbit_free_results V) wf_AnalyzeJob wf_AnalyzeResult
    healthy (at_loc obj) (at_loc obj) (bucket_of bkt) (\<lambda>h. \<not> hs_cacheMutex h)"
    by (simp add: worker_def container_agent_def)
qed

text \<open>A turn of the worker, as the server sees it.\<close>

definition pair_ok ::
  "('b \<Rightarrow> bool) \<Rightarrow> ('b \<Rightarrow> broker_view) \<Rightarrow> ('m \<Rightarrow> bool) \<Rightarrow> ('b, 'm) system \<Rightarrow> bool" where
  "pair_ok up V healthy x \<longleftrightarrow> sys_ok up V healthy (fst x) \<and> \<not> hs_cacheMutex (pv_dbs (snd x))"

context pipeline
begin

lemma ag_ok_agent_view: "pair_ok up V healthy x \<Longrightarrow> wk.ag_ok (agent_view x)"
  by (auto simp: pair_ok_def sys_ok_def wk.ag_ok_def agent_view_def split: prod.split)

lemma agent_view_fields:
  "ag_queue (agent_view x) = w_queue (fst x)" "ag_state (agent_view x) = w_state (fst x)"
  "ag_artifacts (agent_view x) = w_artifacts (fst x)" "ag_dbs (agent_view x) = pv_dbs (snd x)"
  by (simp_all add: agent_view_def split: prod.split)

lemma may_wait_agent: "wk.may_wait \<Longrightarrow> \<not> (cq_exits Q \<and> answering H')"
  using hepc_answers(2) [of H'] unfolding wk.may_wait_def by (auto simp: container_agent_def)

lemma worker_turn_effect:
  assumes x: "pair_ok up V healthy x" "rabbit_jobs V (w_queue (fst x)) = j # js" "key_ok (job_Spec j)"
      "pg_issued (w_state (fst x)) (SessionID (job_Spec j))"
    and adm: "\<forall>r \<in> turn_results (container_agent A P bkt C H' Q tmp uuid) (agent_view x). admissible r"
  shows "(\<exists>y rs. worker_turn (container_agent A P bkt C H' Q tmp uuid) x = (Ret True, y) \<and> pair_ok up V healthy y
    \<and> (\<forall>n. rabbit_free_results V (w_queue (fst x)) (Suc n) \<longrightarrow> rabbit_free_results V (w_queue (fst y)) n)
    \<and> rabbit_jobs V (w_queue (fst y)) = js
    \<and> rabbit_results V (w_queue (fst y)) = rabbit_results V (w_queue (fst x)) @ rs
    \<and> pg_issued (w_state (fst y)) = pg_issued (w_state (fst x))
    \<and> pg_view (w_state (fst y)) = (pg_view (w_state (fst x)))
        \<lparr>jv_status := (jv_status (pg_view (w_state (fst x))))(job_Spec j \<mapsto> StatusInProgress)\<rparr>
    \<and> dom (at_loc obj (w_artifacts (fst x))) \<subseteq> dom (at_loc obj (w_artifacts (fst y)))
    \<and> set rs \<subseteq> turn_results (container_agent A P bkt C H' Q tmp uuid) (agent_view x)
    \<and> (rs = [] \<and> at_loc obj (w_artifacts (fst y)) = at_loc obj (w_artifacts (fst x))
       \<or> (\<exists>r. rs = [r] \<and> admissible r \<and> res_Spec r = job_Spec j \<and> res_Status r = StatusSucceeded
           \<and> at_loc obj (w_artifacts (fst y)) (res_ResultLocation r) \<noteq> None)))
    \<or> fst (worker_turn (container_agent A P bkt C H' Q tmp uuid) x) = Hang \<and>
      (\<not> (cq_exits Q \<and> answering H')
       \<or> turn_results (container_agent A P bkt C H' Q tmp uuid) (agent_view x) \<noteq> {} \<and> (\<forall>n. \<not> rabbit_free_results V (w_queue (fst x)) (Suc n)))"
    (is "?effect \<or> ?waits")
proof -
  let ?G = "container_agent A P bkt C H' Q tmp uuid"
  have "\<forall>r \<in> turn_results ?G (agent_view x). wf_AnalyzeResult r" using adm by (simp add: admissible_def)
  then consider (ended) w' rs where "RunWorker_turn ?G (agent_view x) = (Ret True, w')" "wk.ag_ok w'"
    "rabbit_jobs V (ag_queue w') = js" "set rs \<subseteq> turn_results ?G (agent_view x)"
    "dom (at_loc obj (w_artifacts (fst x))) \<subseteq> dom (at_loc obj (ag_artifacts w'))"
    "rabbit_results V (ag_queue w') = rabbit_results V (w_queue (fst x)) @ rs"
    "pg_issued (ag_state w') = pg_issued (w_state (fst x))"
    "pg_view (ag_state w') = (pg_view (w_state (fst x)))
       \<lparr>jv_status := (jv_status (pg_view (w_state (fst x))))(job_Spec j \<mapsto> StatusInProgress)\<rparr>"
    "rs = [] \<and> at_loc obj (ag_artifacts w') = at_loc obj (w_artifacts (fst x))
       \<or> (\<exists>r. rs = [r] \<and> res_Spec r = job_Spec j \<and> res_Status r = StatusSucceeded
           \<and> at_loc obj (ag_artifacts w') (res_ResultLocation r) \<noteq> None)"
    "\<forall>n. rabbit_free_results V (w_queue (fst x)) (Suc n) \<longrightarrow> rabbit_free_results V (ag_queue w') n"
    | (waits) "fst (RunWorker_turn ?G (agent_view x)) = Hang" "wk.may_wait \<or>
        turn_results ?G (agent_view x) \<noteq> {} \<and> (\<forall>n. \<not> rabbit_free_results V (w_queue (fst x)) (Suc n))"
    using wk.turn_effect [of "agent_view x" j js] ag_ok_agent_view [OF x(1)] x(2-4) unfolding agent_view_fields
    by blast
  then show ?thesis
  proof cases
    case waits
    then have ?waits using may_wait_agent by (auto simp: worker_turn_def split: prod.split)
    then show ?thesis ..
  next
    case t: ended
    have run: "worker_turn ?G x = (Ret True, after_agent w' x)" using t(1) by (simp add: worker_turn_def)
    moreover have "pair_ok up V healthy (after_agent w' x)"
      using t(2) x(1) by (simp add: pair_ok_def after_agent_def sys_ok_def wk.ag_ok_def)
    moreover have "\<forall>r \<in> set rs. admissible r" using t(4) adm by blast
    ultimately have ?effect
      using t(3-10) by (intro exI [of _ "after_agent w' x"] exI [of _ rs]) (auto simp: after_agent_def)
    then show ?thesis ..
  qed
qed

end

section \<open>Consistent states\<close>

text \<open>
  The relation between the tables, the store and the queues that the system maintains.  Every
  session with jobs is issued, and its jobs have a status and share the information of the session;
  every job with a status is registered; every queued job and every queued result belongs to a
  registered job; the artifact of every queued result is in the store, and so is the artifact of
  every job that has succeeded.
\<close>

definition sessions_complete :: "job_view \<Rightarrow> (int \<Rightarrow> bool) \<Rightarrow> bool" where
  "sessions_complete v issued \<longleftrightarrow> (\<forall>sid. jv_specs v sid \<noteq> {} \<longrightarrow> issued sid \<and>
     (\<exists>ji. \<forall>x \<in> jv_specs v sid. SessionID x = sid \<and> key_ok x \<and> jv_status v x \<noteq> None \<and> jv_info v x = Some ji))"

definition registered :: "job_view \<Rightarrow> JobSpec \<Rightarrow> bool" where
  "registered v x \<longleftrightarrow> x \<in> jv_specs v (SessionID x)"

definition deliverable :: "job_view \<Rightarrow> (ArtifactLocation \<Rightarrow> bytes option) \<Rightarrow> AnalyzeResult \<Rightarrow> bool" where
  "deliverable v R r \<longleftrightarrow> pg_adm_result r \<and> res_Status r = StatusSucceeded \<and> registered v (res_Spec r) \<and>
     R (res_ResultLocation r) \<noteq> None"

definition fetchable :: "job_view \<Rightarrow> (ArtifactLocation \<Rightarrow> bytes option) \<Rightarrow> JobSpec \<Rightarrow> bool" where
  "fetchable v R x \<longleftrightarrow> (\<exists>r. jv_result v x = Some r \<and> R (res_ResultLocation r) \<noteq> None)"

definition consistent ::
  "job_view \<Rightarrow> (int \<Rightarrow> bool) \<Rightarrow> (ArtifactLocation \<Rightarrow> bytes option) \<Rightarrow> AnalyzeJob list \<Rightarrow> AnalyzeResult list \<Rightarrow> bool" where
  "consistent v issued R js rs \<longleftrightarrow> sessions_complete v issued \<and> (\<forall>x. jv_status v x \<noteq> None \<longrightarrow> registered v x) \<and>
     (\<forall>j \<in> set js. registered v (job_Spec j)) \<and> (\<forall>r \<in> set rs. deliverable v R r) \<and>
     (\<forall>x. jv_status v x = Some StatusSucceeded \<longrightarrow> fetchable v R x)"

lemma registered_known:
  assumes "sessions_complete v issued" and "x \<in> jv_specs v sid"
  shows "issued sid" and "SessionID x = sid" and "key_ok x" and "jv_status v x \<noteq> None"
  using assms unfolding sessions_complete_def by blast+

lemma consistentD:
  assumes "consistent v issued R js rs"
  shows "sessions_complete v issued" and "jv_status v x \<noteq> None \<Longrightarrow> registered v x"
    and "j \<in> set js \<Longrightarrow> registered v (job_Spec j)" and "r \<in> set rs \<Longrightarrow> deliverable v R r"
    and "jv_status v x = Some StatusSucceeded \<Longrightarrow> fetchable v R x"
  using assms by (simp_all add: consistent_def)

lemma registered_cong: "jv_specs v' = jv_specs v \<Longrightarrow> registered v' = registered v"
  by (simp add: registered_def fun_eq_iff)

lemma deliverable_mono:
  "deliverable v R r \<Longrightarrow> (\<And>x. registered v x \<Longrightarrow> registered v' x) \<Longrightarrow> dom R \<subseteq> dom R' \<Longrightarrow> deliverable v' R' r"
  by (auto simp: deliverable_def)

lemma fetchable_mono: "fetchable v R x \<Longrightarrow> jv_result v' x = jv_result v x \<Longrightarrow> dom R \<subseteq> dom R' \<Longrightarrow> fetchable v' R' x"
  by (auto simp: fetchable_def)

lemma consistent_empty:
  "jv_specs v = (\<lambda>_. {}) \<Longrightarrow> jv_status v = Map.empty \<Longrightarrow> consistent v issued R [] []"
  by (simp add: consistent_def sessions_complete_def)

lemma consistent_store:
  assumes "consistent v issued R js rs" and "dom R \<subseteq> dom R'"
  shows "consistent v issued R' js rs"
  using assms deliverable_mono [of v R _ v R'] fetchable_mono [of v R _ v R'] by (simp add: consistent_def)

lemma sessions_complete_status:
  "sessions_complete v issued \<Longrightarrow> jv_specs v' = jv_specs v \<Longrightarrow> jv_info v' = jv_info v \<Longrightarrow>
   (\<And>x. jv_status v x \<noteq> None \<Longrightarrow> jv_status v' x \<noteq> None) \<Longrightarrow> sessions_complete v' issued"
  unfolding sessions_complete_def by (metis (no_types, lifting))

lemma consistent_submit:
  assumes c: "consistent v issued R js rs" and fresh: "\<not> issued sid"
    and specs: "jv_specs v' = (jv_specs v)(sid := S)" and S: "\<forall>x \<in> S. SessionID x = sid \<and> key_ok x"
    and new: "\<forall>x \<in> S. jv_status v' x = Some StatusPending \<and> jv_info v' x = Some ji"
    and old: "\<forall>x. x \<notin> S \<longrightarrow> jv_status v' x = jv_status v x \<and> jv_info v' x = jv_info v x"
    and res: "jv_result v' = jv_result v" and js': "\<forall>j \<in> set js'. job_Spec j \<in> S"
  shows "consistent v' (issued(sid := True)) R (js @ js') rs"
proof -
  note C = consistentD [OF c]
  have none: "jv_specs v sid = {}" using C(1) fresh unfolding sessions_complete_def by blast
  have reg: "registered v' x" if "registered v x" for x
    using that none specs by (cases "SessionID x = sid") (simp_all add: registered_def)
  have regS: "registered v' x" if "x \<in> S" for x using that S specs by (simp add: registered_def)
  have "sessions_complete v' (issued(sid := True))"
    unfolding sessions_complete_def
  proof (intro allI impI)
    fix i assume i: "jv_specs v' i \<noteq> {}"
    show "(issued(sid := True)) i \<and>
       (\<exists>ji. \<forall>x \<in> jv_specs v' i. SessionID x = i \<and> key_ok x \<and> jv_status v' x \<noteq> None \<and> jv_info v' x = Some ji)"
    proof (cases "i = sid")
      case True
      then have "jv_specs v' i = S" using specs by simp
      with True S new show ?thesis by simp
    next
      case False
      then have eq: "jv_specs v' i = jv_specs v i" using specs by simp
      have "x \<notin> S" if "x \<in> jv_specs v i" for x using registered_known(2) [OF C(1) that] S False by blast
      then show ?thesis using i eq False C(1) old unfolding sessions_complete_def by (metis fun_upd_other)
    qed
  qed
  moreover have "registered v' x" if "jv_status v' x \<noteq> None" for x
    using that old C(2) [of x] reg regS by (cases "x \<in> S") auto
  moreover have "\<forall>j \<in> set (js @ js'). registered v' (job_Spec j)" using C(3) reg regS js' by auto
  moreover have "\<forall>r \<in> set rs. deliverable v' R r" using C(4) deliverable_mono reg by blast
  moreover have "fetchable v' R x" if "jv_status v' x = Some StatusSucceeded" for x
  proof -
    have "x \<notin> S" using that new by (auto simp: status_defs)
    then show ?thesis using that old C(5) [of x] fetchable_mono [of v R x v' R] res by simp
  qed
  ultimately show ?thesis by (simp add: consistent_def)
qed

lemma consistent_turn:
  assumes c: "consistent v issued R (j # js) rs"
    and new: "\<forall>r \<in> set rs'. pg_adm_result r \<and> res_Spec r = job_Spec j \<and> res_Status r = StatusSucceeded
      \<and> R (res_ResultLocation r) \<noteq> None"
  shows "consistent (v\<lparr>jv_status := (jv_status v)(job_Spec j \<mapsto> StatusInProgress)\<rparr>) issued R js (rs @ rs')"
proof -
  let ?v = "v\<lparr>jv_status := (jv_status v)(job_Spec j \<mapsto> StatusInProgress)\<rparr>"
  note C = consistentD [OF c]
  have reg: "registered ?v = registered v" by (rule registered_cong) simp
  have del: "deliverable ?v R = deliverable v R" by (simp add: deliverable_def reg fun_eq_iff)
  have fet: "fetchable ?v R = fetchable v R" by (simp add: fetchable_def fun_eq_iff)
  have ne: "StatusInProgress \<noteq> StatusSucceeded" by (simp add: status_defs)
  have "sessions_complete ?v issued" by (rule sessions_complete_status [OF C(1)]) auto
  moreover have "registered v x" if "jv_status ?v x \<noteq> None" for x
    using that C(2) [of x] C(3) [of j] by (cases "x = job_Spec j") auto
  moreover have "\<forall>r \<in> set (rs @ rs'). deliverable v R r"
    using C(3) [of j] C(4) new by (auto simp: deliverable_def)
  moreover have "fetchable v R x" if "jv_status ?v x = Some StatusSucceeded" for x
    using that C(5) [of x] ne by (cases "x = job_Spec j") auto
  ultimately show ?thesis using C(3) by (simp add: consistent_def reg del fet)
qed

lemma consistent_consume:
  assumes c: "consistent v issued R js (r # rs)"
  shows "consistent (v\<lparr>jv_result := (jv_result v)(res_Spec r \<mapsto> r), jv_status := (jv_status v)(res_Spec r \<mapsto> res_Status r)\<rparr>)
    issued R js rs"
proof -
  let ?v = "v\<lparr>jv_result := (jv_result v)(res_Spec r \<mapsto> r), jv_status := (jv_status v)(res_Spec r \<mapsto> res_Status r)\<rparr>"
  note C = consistentD [OF c]
  have r: "deliverable v R r" using C(4) by simp
  have reg: "registered ?v = registered v" by (rule registered_cong) simp
  have del: "deliverable ?v R = deliverable v R" by (simp add: deliverable_def reg fun_eq_iff)
  have "sessions_complete ?v issued" by (rule sessions_complete_status [OF C(1)]) auto
  moreover have "registered v x" if "jv_status ?v x \<noteq> None" for x
    using that C(2) [of x] r by (cases "x = res_Spec r") (auto simp: deliverable_def)
  moreover have "fetchable ?v R x" if "jv_status ?v x = Some StatusSucceeded" for x
  proof (cases "x = res_Spec r")
    case True
    then show ?thesis using r by (simp add: fetchable_def deliverable_def)
  next
    case False
    then show ?thesis using that C(5) [of x] by (simp add: fetchable_def)
  qed
  ultimately show ?thesis using C(3,4) by (simp add: consistent_def reg del)
qed

section \<open>Steps of the system\<close>

text \<open>
  The parameters are the environment of the server, the names of the buckets, the objects of
  the store, the contents of the broker, the server and the agent.  Every step runs the function of
  the code; the response of a request starts empty.
\<close>

definition fresh :: "('q, 's, 'a, 'd) world \<Rightarrow> ('q, 's, 'a, 'd) world" where
  "fresh w = w\<lparr>w_resp := response0\<rparr>"

text \<open>The size of an artifact is passed on as a 32-bit number.\<close>

definition small_objects :: "('m \<Rightarrow> string \<Rightarrow> string \<Rightarrow> bytes option) \<Rightarrow> 'm \<Rightarrow> bool" where
  "small_objects obj m \<longleftrightarrow> (\<forall>l d. at_loc obj m l = Some d \<longrightarrow> int (length d) \<le> max_int32)"

inductive pipeline_step ::
  "server_env \<Rightarrow> BucketNames \<Rightarrow> ('m \<Rightarrow> string \<Rightarrow> string \<Rightarrow> bytes option) \<Rightarrow> ('b \<Rightarrow> broker_view) \<Rightarrow>
   ('b rabbit_system, PGState, 'm, HepcStore) Visibles \<Rightarrow> ('b rabbit_system, PGState, 'm, HepcStore) agent \<Rightarrow>
   ('b, 'm) system \<Rightarrow> ('b, 'm) system \<Rightarrow> bool"
  for E bkt obj V v G where
  submit: "pipeline_step E bkt obj V v G (w, p) (w', p)"
    if "good_submission rq lang entries tgz" "storable E bkt (w_ticks w) lang entries"
      "numbers_left (w_state w) (length entries)" "MRVARequestCommon E v rq (fresh w) = (Ret (), w')"
| refuse: "pipeline_step E bkt obj V v G (w, p) (w', p)"
    if "bad_submission rq code" "numbers_left (w_state w) 0" "MRVARequestCommon E v rq (fresh w) = (Ret (), w')"
| work: "pipeline_step E bkt obj V v G x y"
    if "rabbit_jobs V (w_queue (fst x)) \<noteq> []" "\<forall>r \<in> turn_results G (agent_view x). admissible r"
      "worker_turn G x = (Ret True, y)"
| collect: "pipeline_step E bkt obj V v G (w, p) (w', p)"
    if "rabbit_results V (w_queue w) \<noteq> []" "ConsumeResults_once v w = (Ret (), w')"
| report: "pipeline_step E bkt obj V v G (w, p) (w', p)"
    if "jv_specs (pg_view (w_state w)) sid \<noteq> {}" "pg_fits (w_state w) (card (jv_specs (pg_view (w_state w)) sid))"
      "small_objects obj (w_artifacts w)" "ParseInt 32 (mux_var rq ''codeql_variant_analysis_id'') = Inr sid"
      "MRVAStatus v rq (fresh w) = (Ret (), w')"
| download: "pipeline_step E bkt obj V v G (w, p) (w', p)"
    if "jv_status (pg_view (w_state w)) js = Some StatusSucceeded" "EncodeJobSpec js = Inr (mux_var rq ''encoded_job_spec'')"
      "MRVADownloadServe v rq (fresh w) = (Ret (), w')"

inductive_cases pipeline_stepE: "pipeline_step E bkt obj V v G x y"

definition pipeline_inv ::
  "('b \<Rightarrow> bool) \<Rightarrow> ('b \<Rightarrow> broker_view) \<Rightarrow> ('m \<Rightarrow> bool) \<Rightarrow> ('m \<Rightarrow> string \<Rightarrow> string \<Rightarrow> bytes option) \<Rightarrow> ('b, 'm) system \<Rightarrow> bool" where
  "pipeline_inv up V healthy obj x \<longleftrightarrow> pair_ok up V healthy x \<and>
     consistent (pg_view (w_state (fst x))) (pg_issued (w_state (fst x))) (at_loc obj (w_artifacts (fst x)))
       (rabbit_jobs V (w_queue (fst x))) (rabbit_results V (w_queue (fst x)))"

lemma fresh_fields [simp]:
  "w_state (fresh w) = w_state w" "w_queue (fresh w) = w_queue w" "w_artifacts (fresh w) = w_artifacts w"
  "w_dbs (fresh w) = w_dbs w" "w_ticks (fresh w) = w_ticks w" "w_resp (fresh w) = response0"
  by (simp_all add: fresh_def)

lemma sys_ok_fresh [simp]: "sys_ok up V healthy (fresh w) = sys_ok up V healthy w"
  by (simp add: sys_ok_def)

lemma undisturbed_inv:
  "pipeline_inv up V healthy obj (w, p) \<Longrightarrow> undisturbed up V healthy obj (fresh w) w' \<Longrightarrow> pipeline_inv up V healthy obj (w', p)"
  by (simp add: pipeline_inv_def undisturbed_def pair_ok_def)

context pipeline
begin

text \<open>One lemma for each kind of step.\<close>

lemma submit_inv:
  assumes inv: "pipeline_inv up V healthy obj (w, p)"
    and sub: "good_submission rq lang entries tgz" "storable E bkt (w_ticks w) lang entries"
      "numbers_left (w_state w) (length entries)" "MRVARequestCommon E (container_server A P bkt C H) rq (fresh w) = (Ret (), w')"
  shows "pipeline_inv up V healthy obj (w', p)"
proof -
  have ok: "sys_ok up V healthy w" "\<not> hs_cacheMutex (pv_dbs p)"
    and c: "consistent (pg_view (w_state w)) (pg_issued (w_state w)) (at_loc obj (w_artifacts w))
      (rabbit_jobs V (w_queue w)) (rabbit_results V (w_queue w))"
    using inv by (simp_all add: pipeline_inv_def pair_ok_def)
  let ?S = "\<lambda>sid found. (\<lambda>n. \<lparr>SessionID = sid, NWO = n\<rparr>) ` set found"
  obtain sid l nf found where s: "sys_ok up V healthy w'" "\<not> pg_issued (w_state w) sid"
    "pg_issued (w_state w') = (pg_issued (w_state w))(sid := True)" "map nwo_of entries \<in> shuffles nf found"
    "rabbit_jobs V (w_queue w') = rabbit_jobs V (w_queue w) @ map (mk_job l sid lang) found"
    "rabbit_results V (w_queue w') = rabbit_results V (w_queue w)"
    "dom (at_loc obj (w_artifacts w)) \<subseteq> dom (at_loc obj (w_artifacts w'))"
    "jv_specs (pg_view (w_state w')) = (jv_specs (pg_view (w_state w)))(sid := ?S sid found)"
    "\<forall>n \<in> set found. jv_status (pg_view (w_state w')) \<lparr>SessionID = sid, NWO = n\<rparr> = Some StatusPending
         \<and> jv_info (pg_view (w_state w')) \<lparr>SessionID = sid, NWO = n\<rparr> = Some (info_of E (w_ticks w) lang nf)"
    "\<forall>x. x \<notin> ?S sid found \<longrightarrow> jv_status (pg_view (w_state w')) x = jv_status (pg_view (w_state w)) x
         \<and> jv_info (pg_view (w_state w')) x = jv_info (pg_view (w_state w)) x"
    "jv_result (pg_view (w_state w')) = jv_result (pg_view (w_state w))"
    using deployed_submission [of "fresh w" entries rq lang tgz E] ok(1) sub by auto
  have "key_ok x" if "x \<in> ?S sid found" for x
  proof -
    have "set found \<subseteq> nwo_of ` set entries" using set_shuffles [OF s(4)] by auto
    moreover have "int4_ok sid" using issued_int4 [of "w_state w'" sid] s(1,3) by (simp add: sys_ok_def)
    ultimately show ?thesis using that sub(2) by (auto simp: storable_def text_ok_nwo_def key_ok_def)
  qed
  then have "consistent (pg_view (w_state w')) ((pg_issued (w_state w))(sid := True)) (at_loc obj (w_artifacts w))
      (rabbit_jobs V (w_queue w) @ map (mk_job l sid lang) found) (rabbit_results V (w_queue w))"
    using s(9,10) by (intro consistent_submit [OF c s(2,8) _ _ _ s(11), of "info_of E (w_ticks w) lang nf"])
      (auto simp: mk_job_def)
  from consistent_store [OF this s(7)] show ?thesis
    using s(1,3,5,6) ok(2) by (simp add: pipeline_inv_def pair_ok_def)
qed

lemma refuse_inv:
  assumes inv: "pipeline_inv up V healthy obj (w, p)" and sub: "bad_submission rq code" "numbers_left (w_state w) 0"
      "MRVARequestCommon E (container_server A P bkt C H) rq (fresh w) = (Ret (), w')"
  shows "pipeline_inv up V healthy obj (w', p)"
proof -
  have ok: "sys_ok up V healthy (fresh w)" "session_id_seq (w_state (fresh w)) < max_int32"
    using inv sub(2) by (simp_all add: pipeline_inv_def pair_ok_def numbers_left_def)
  from deployed_rejection [OF ok _ sub(1), of E] sub(3)
  obtain sid where s: "sys_ok up V healthy w'" "pg_view (w_state w') = pg_view (w_state w)"
    "pg_issued (w_state w') = (pg_issued (w_state w))(sid := True)" "w_queue w' = w_queue w" "w_artifacts w' = w_artifacts w"
    by auto
  have "sessions_complete v (i(sid := True))" if "sessions_complete v i" for v i
    using that by (simp add: sessions_complete_def)
  then show ?thesis using inv s by (simp add: pipeline_inv_def pair_ok_def consistent_def)
qed

lemma work_inv:
  assumes inv: "pipeline_inv up V healthy obj x" and jobs: "rabbit_jobs V (w_queue (fst x)) \<noteq> []"
    and adm: "\<forall>r \<in> turn_results (container_agent A P bkt C H' Q tmp uuid) (agent_view x). admissible r"
    and run: "worker_turn (container_agent A P bkt C H' Q tmp uuid) x = (Ret True, y)"
  shows "pipeline_inv up V healthy obj y"
proof -
  obtain j js where j: "rabbit_jobs V (w_queue (fst x)) = j # js" using jobs by (auto simp: neq_Nil_conv)
  have ok: "pair_ok up V healthy x" and c: "consistent (pg_view (w_state (fst x))) (pg_issued (w_state (fst x)))
      (at_loc obj (w_artifacts (fst x))) (j # js) (rabbit_results V (w_queue (fst x)))"
    using inv j by (simp_all add: pipeline_inv_def)
  have reg: "job_Spec j \<in> jv_specs (pg_view (w_state (fst x))) (SessionID (job_Spec j))"
    using consistentD(3) [OF c, of j] by (simp add: registered_def)
  note known = registered_known [OF consistentD(1) [OF c] reg]
  from worker_turn_effect [OF ok j known(3,1) adm] run
  obtain rs where t: "pair_ok up V healthy y" "rabbit_jobs V (w_queue (fst y)) = js"
    "rabbit_results V (w_queue (fst y)) = rabbit_results V (w_queue (fst x)) @ rs"
    "pg_issued (w_state (fst y)) = pg_issued (w_state (fst x))"
    "pg_view (w_state (fst y)) = (pg_view (w_state (fst x)))
        \<lparr>jv_status := (jv_status (pg_view (w_state (fst x))))(job_Spec j \<mapsto> StatusInProgress)\<rparr>"
    "dom (at_loc obj (w_artifacts (fst x))) \<subseteq> dom (at_loc obj (w_artifacts (fst y)))"
    "rs = [] \<or> (\<exists>r. rs = [r] \<and> admissible r \<and> res_Spec r = job_Spec j \<and> res_Status r = StatusSucceeded
           \<and> at_loc obj (w_artifacts (fst y)) (res_ResultLocation r) \<noteq> None)"
    by auto
  have "consistent (pg_view (w_state (fst y))) (pg_issued (w_state (fst x))) (at_loc obj (w_artifacts (fst y))) js
      (rabbit_results V (w_queue (fst x)) @ rs)"
    unfolding t(5) by (rule consistent_turn [OF consistent_store [OF c t(6)]]) (use t(7) in \<open>auto simp: admissible_def\<close>)
  with t(1-4) show ?thesis by (simp add: pipeline_inv_def)
qed

lemma collect_inv:
  assumes inv: "pipeline_inv up V healthy obj (w, p)" and res: "rabbit_results V (w_queue w) \<noteq> []"
    and run: "ConsumeResults_once (container_server A P bkt C H) w = (Ret (), w')"
  shows "pipeline_inv up V healthy obj (w', p)"
proof -
  obtain r rs where r: "rabbit_results V (w_queue w) = r # rs" using res by (auto simp: neq_Nil_conv)
  have ok: "sys_ok up V healthy w" "\<not> hs_cacheMutex (pv_dbs p)"
    and c: "consistent (pg_view (w_state w)) (pg_issued (w_state w)) (at_loc obj (w_artifacts w))
      (rabbit_jobs V (w_queue w)) (r # rs)"
    using inv r by (simp_all add: pipeline_inv_def pair_ok_def)
  have d: "deliverable (pg_view (w_state w)) (at_loc obj (w_artifacts w)) r" using consistentD(4) [OF c, of r] by simp
  then have a: "pg_adm_result r" "known_status (res_Status r)"
    "res_Spec r \<in> jv_specs (pg_view (w_state w)) (SessionID (res_Spec r))"
    by (simp_all add: deliverable_def registered_def known_status_iff)
  note known = registered_known [OF consistentD(1) [OF c] a(3)]
  from deployed_result [OF ok(1) r a(1) known(3) a(2) known(1)] run
  have "sys_ok up V healthy w'" "w_artifacts w' = w_artifacts w" "rabbit_results V (w_queue w') = rs"
    "rabbit_jobs V (w_queue w') = rabbit_jobs V (w_queue w)" "pg_issued (w_state w') = pg_issued (w_state w)"
    "pg_view (w_state w') = (pg_view (w_state w))
        \<lparr>jv_result := (jv_result (pg_view (w_state w)))(res_Spec r \<mapsto> r),
         jv_status := (jv_status (pg_view (w_state w)))(res_Spec r \<mapsto> res_Status r)\<rparr>"
    by auto
  then show ?thesis using consistent_consume [OF c] ok(2) by (simp add: pipeline_inv_def pair_ok_def)
qed

lemma inv_reportable:
  assumes inv: "pipeline_inv up V healthy obj (w, p)" and small: "small_objects obj (w_artifacts w)"
    and sid: "jv_specs (pg_view (w_state w)) sid \<noteq> {}" "pg_fits (w_state w) (card (jv_specs (pg_view (w_state w)) sid))"
  shows "\<exists>ji. session_reportable obj w sid ji"
proof -
  let ?v = "pg_view (w_state w)" and ?R = "at_loc obj (w_artifacts w)"
  have c: "consistent ?v (pg_issued (w_state w)) ?R (rabbit_jobs V (w_queue w)) (rabbit_results V (w_queue w))"
    using inv by (simp add: pipeline_inv_def)
  obtain ji where ji: "pg_issued (w_state w) sid"
    "\<forall>x \<in> jv_specs ?v sid. SessionID x = sid \<and> key_ok x \<and> jv_status ?v x \<noteq> None \<and> jv_info ?v x = Some ji"
    using consistentD(1) [OF c] sid(1) unfolding sessions_complete_def by blast
  have "reported ?v ?R x" if x: "x \<in> jv_specs ?v sid" for x
  proof -
    obtain st where st: "jv_status ?v x = Some st" using registered_known(4) [OF consistentD(1) [OF c] x] by blast
    show ?thesis
    proof (cases "st = StatusSucceeded")
      case True
      then have "fetchable ?v ?R x" using consistentD(5) [OF c, of x] st by simp
      then obtain r d where "jv_result ?v x = Some r" "?R (res_ResultLocation r) = Some d"
        by (auto simp: fetchable_def)
      moreover from this(2) have "int (length d) \<le> max_int32" using small by (simp add: small_objects_def)
      ultimately show ?thesis using st unfolding reported_def by blast
    qed (use st in \<open>simp add: reported_def\<close>)
  qed
  then have "session_reportable obj w sid ji" using ji sid by (simp add: session_reportable_def)
  then show ?thesis ..
qed

lemma inv_fetch:
  assumes inv: "pipeline_inv up V healthy obj (w, p)" and js: "jv_status (pg_view (w_state w)) js = Some StatusSucceeded"
  shows "key_ok js" and "\<exists>r d. jv_result (pg_view (w_state w)) js = Some r \<and> at_loc obj (w_artifacts w) (res_ResultLocation r) = Some d"
proof -
  let ?v = "pg_view (w_state w)" and ?R = "at_loc obj (w_artifacts w)"
  have c: "consistent ?v (pg_issued (w_state w)) ?R (rabbit_jobs V (w_queue w)) (rabbit_results V (w_queue w))"
    using inv by (simp add: pipeline_inv_def)
  have "js \<in> jv_specs ?v (SessionID js)" using consistentD(2) [OF c, of js] js by (simp add: registered_def)
  from registered_known(3) [OF consistentD(1) [OF c] this] show "key_ok js" .
  show "\<exists>r d. jv_result ?v js = Some r \<and> ?R (res_ResultLocation r) = Some d"
    using consistentD(5) [OF c js] by (auto simp: fetchable_def)
qed

lemma inv_served:
  assumes inv: "pipeline_inv up V healthy obj (w, p)" and js: "jv_status (pg_view (w_state w)) js = Some StatusSucceeded"
    and rq: "EncodeJobSpec js = Inr (mux_var rq ''encoded_job_spec'')"
  shows "\<exists>r d w'. jv_result (pg_view (w_state w)) js = Some r \<and> at_loc obj (w_artifacts w) (res_ResultLocation r) = Some d
    \<and> MRVADownloadServe (container_server A P bkt C H) rq (fresh w) = (Ret (), w')
    \<and> undisturbed up V healthy obj (fresh w) w' \<and> answered 200 ''application/octet-stream'' d (w_resp w')"
proof -
  have ok: "sys_ok up V healthy (fresh w)" using inv by (simp add: pipeline_inv_def pair_ok_def)
  from inv_fetch [OF inv js] obtain r d where "key_ok js" and rd: "jv_result (pg_view (w_state w)) js = Some r"
    "at_loc obj (w_artifacts w) (res_ResultLocation r) = Some d" by blast
  with deployed_download(1) [OF ok _ _ rq, of r d rq] js show ?thesis by auto
qed

lemma inv_status:
  assumes inv: "pipeline_inv up V healthy obj (w, p)" and small: "small_objects obj (w_artifacts w)"
    and sid: "jv_specs (pg_view (w_state w)) sid \<noteq> {}" "pg_fits (w_state w) (card (jv_specs (pg_view (w_state w)) sid))"
    and rq: "ParseInt 32 (mux_var rq ''codeql_variant_analysis_id'') = Inr sid"
  shows "\<exists>ji js ids w'. MRVAStatus (container_server A P bkt C H) rq (fresh w) = (Ret (), w')
    \<and> undisturbed up V healthy obj (fresh w) w'
    \<and> job_Spec ` set js = jv_specs (pg_view (w_state w)) sid \<and> distinct (map job_Spec js)
    \<and> list_all2 (\<lambda>j i. pg_repo_ids (w_state w') i = Some (NWO (job_Spec j))) js ids
    \<and> answered 200 ''application/json'' (json_text (StatusResponse_json (status_response sid ji
         (ToExternalString (overall_spec (session_statuses (pg_view (w_state w)) sid)))
         (map2 (scan_of (pg_view (w_state w)) (at_loc obj (w_artifacts w)) ji) js ids)))) (w_resp w')"
proof -
  obtain ji where ji: "session_reportable obj w sid ji" using inv_reportable [OF inv small sid] by blast
  have ok: "sys_ok up V healthy (fresh w)" using inv by (simp add: pipeline_inv_def pair_ok_def)
  have "session_reportable obj (fresh w) sid ji" using ji by (simp add: session_reportable_def)
  from deployed_status [OF ok fresh_fields(6) this rq] show ?thesis unfolding MRVAStatus_def fresh_fields by blast
qed

lemma step_inv:
  assumes "pipeline_inv up V healthy obj x"
    and "pipeline_step E bkt obj V (container_server A P bkt C H) (container_agent A P bkt C H' Q tmp uuid) x y"
  shows "pipeline_inv up V healthy obj y"
  using assms(2,1)
proof (cases rule: pipeline_step.cases)
  case (submit rq lang entries tgz w w' p)
  then show ?thesis using submit_inv assms(1) by blast
next
  case (refuse rq code w w' p)
  then show ?thesis using refuse_inv assms(1) by blast
next
  case work
  then show ?thesis using work_inv assms(1) by blast
next
  case (collect w w' p)
  then show ?thesis using collect_inv assms(1) by blast
next
  case (report w sid rq w' p)
  then show ?thesis using inv_status [of w p sid rq] undisturbed_inv [of up V healthy obj w p w'] assms(1) by auto
next
  case (download w js rq w' p)
  then show ?thesis using inv_served [of w p js rq] undisturbed_inv [of up V healthy obj w p w'] assms(1) by auto
qed

lemma reachable_inv:
  assumes "(pipeline_step E bkt obj V (container_server A P bkt C H) (container_agent A P bkt C H' Q tmp uuid))\<^sup>*\<^sup>* x y"
    and "pipeline_inv up V healthy obj x"
  shows "pipeline_inv up V healthy obj y"
  using assms by (induction rule: rtranclp_induct) (auto intro: step_inv)

end

section \<open>Working off the queues\<close>

text \<open>The worker over a sequence of events, and the first iterations of the result loop.\<close>

definition worker_run ::
  "('b rabbit_system, PGState, 'm, HepcStore) agent \<Rightarrow> worker_event list \<Rightarrow> (('b, 'm) system, unit) prog" where
  "worker_run G es x = (case RunWorker G es (agent_view x) of (r, a) \<Rightarrow> (r, after_agent a x))"

primrec ConsumeResults_n :: "('q, 's, 'a, 'd) Visibles \<Rightarrow> nat \<Rightarrow> (('q, 's, 'a, 'd) world, unit) prog" where
  "ConsumeResults_n v 0 = retP ()"
| "ConsumeResults_n v (Suc n) = seqP (ConsumeResults_once v) (ConsumeResults_n v n)"

text \<open>The results of the next analyses can be sent and recorded.\<close>

definition turns_admissible :: "('b rabbit_system, PGState, 'm, HepcStore) agent \<Rightarrow> ('b, 'm) system \<Rightarrow> nat \<Rightarrow> bool" where
  "turns_admissible G x n \<longleftrightarrow> (\<forall>k < n. \<forall>y. worker_run G (replicate k JobReady) x = (Ret (), y) \<longrightarrow>
     (\<forall>r \<in> turn_results G (agent_view y). admissible r))"

lemma after_agent_simps [simp]:
  "agent_view (after_agent a x) = a" "after_agent a (after_agent b x) = after_agent a x" "after_agent (agent_view x) x = x"
  by (auto simp: agent_view_def after_agent_def split: prod.split)

lemma worker_run_Nil: "worker_run G [] x = (Ret (), x)"
  by (simp add: worker_run_def)

lemma worker_run_JobReady:
  assumes "worker_turn G x = (Ret True, y)"
  shows "worker_run G (JobReady # es) x = worker_run G es y"
proof -
  obtain a where "RunWorker_turn G (agent_view x) = (Ret True, a)" "y = after_agent a x"
    using assms by (auto simp: worker_turn_def split: prod.splits)
  then show ?thesis by (simp add: worker_run_def split: prod.split)
qed

context pipeline
begin

lemma worker_run_effect:
  assumes "pipeline_inv up V healthy obj x" and "rabbit_jobs V (w_queue (fst x)) = js"
    and "turns_admissible (container_agent A P bkt C H' Q tmp uuid) x (length js)"
    and "rabbit_free_results V (w_queue (fst x)) (length js)" and "cq_exits Q" and "answering H'"
  shows "\<exists>y rs. worker_run (container_agent A P bkt C H' Q tmp uuid) (replicate (length js) JobReady) x = (Ret (), y)
    \<and> pipeline_inv up V healthy obj y \<and> rabbit_jobs V (w_queue (fst y)) = []
    \<and> rabbit_results V (w_queue (fst y)) = rabbit_results V (w_queue (fst x)) @ rs
    \<and> res_Spec ` set rs \<subseteq> job_Spec ` set js
    \<and> jv_status (pg_view (w_state (fst y))) =
        (\<lambda>s. if s \<in> job_Spec ` set js then Some StatusInProgress else jv_status (pg_view (w_state (fst x))) s)"
  using assms
proof (induction js arbitrary: x)
  case Nil
  then show ?case by (intro exI [of _ x] exI [of _ "[]"]) (simp add: worker_run_Nil)
next
  case (Cons j js)
  let ?G = "container_agent A P bkt C H' Q tmp uuid"
  have ok: "pair_ok up V healthy x" and c: "consistent (pg_view (w_state (fst x))) (pg_issued (w_state (fst x)))
      (at_loc obj (w_artifacts (fst x))) (j # js) (rabbit_results V (w_queue (fst x)))"
    using Cons.prems(1,2) by (simp_all add: pipeline_inv_def)
  have reg: "job_Spec j \<in> jv_specs (pg_view (w_state (fst x))) (SessionID (job_Spec j))"
    using consistentD(3) [OF c, of j] by (simp add: registered_def)
  note known = registered_known [OF consistentD(1) [OF c] reg]
  have adm: "\<forall>r \<in> turn_results ?G (agent_view x). admissible r" 
    using Cons.prems(3) unfolding turns_admissible_def by (metis length_Cons replicate_0 worker_run_Nil zero_less_Suc)
  from worker_turn_effect [OF ok Cons.prems(2) known(3,1) adm]
  obtain y rs where t: "worker_turn ?G x = (Ret True, y)" "rabbit_jobs V (w_queue (fst y)) = js"
    "rabbit_results V (w_queue (fst y)) = rabbit_results V (w_queue (fst x)) @ rs"
    "pg_view (w_state (fst y)) = (pg_view (w_state (fst x)))
        \<lparr>jv_status := (jv_status (pg_view (w_state (fst x))))(job_Spec j \<mapsto> StatusInProgress)\<rparr>"
    "\<forall>r \<in> set rs. res_Spec r = job_Spec j" "rabbit_free_results V (w_queue (fst y)) (length js)"
    using Cons.prems(4-6) by auto
  have inv: "pipeline_inv up V healthy obj y" using work_inv [OF Cons.prems(1) _ adm t(1)] Cons.prems(2) by simp
  have "turns_admissible ?G y (length js)"
    unfolding turns_admissible_def
  proof (intro allI impI)
    fix k z assume "k < length js" "worker_run ?G (replicate k JobReady) y = (Ret (), z)"
    then have "Suc k < length (j # js)" "worker_run ?G (replicate (Suc k) JobReady) x = (Ret (), z)"
      using worker_run_JobReady [OF t(1)] by simp_all
    then show "\<forall>r \<in> turn_results ?G (agent_view z). admissible r"
      using Cons.prems(3) unfolding turns_admissible_def by blast
  qed
  from Cons.IH [OF inv t(2) this t(6) Cons.prems(5,6)]
  obtain z rs' where z: "worker_run ?G (replicate (length js) JobReady) y = (Ret (), z)" "pipeline_inv up V healthy obj z"
    "rabbit_jobs V (w_queue (fst z)) = []" "rabbit_results V (w_queue (fst z)) = rabbit_results V (w_queue (fst y)) @ rs'"
    "res_Spec ` set rs' \<subseteq> job_Spec ` set js"
    "jv_status (pg_view (w_state (fst z))) =
        (\<lambda>s. if s \<in> job_Spec ` set js then Some StatusInProgress else jv_status (pg_view (w_state (fst y))) s)"
    by blast
  have "worker_run ?G (replicate (length (j # js)) JobReady) x = (Ret (), z)"
    using z(1) worker_run_JobReady [OF t(1)] by simp
  then show ?case
    using z(2-6) t(3,4,5) by (intro exI [of _ z] exI [of _ "rs @ rs'"]) (auto simp: fun_eq_iff)
qed

lemma collect_effect:
  assumes "pipeline_inv up V healthy obj (w, p)" and "rabbit_results V (w_queue w) = rs"
  shows "\<exists>w'. ConsumeResults_n (container_server A P bkt C H) (length rs) w = (Ret (), w') \<and> pipeline_inv up V healthy obj (w', p)
    \<and> rabbit_results V (w_queue w') = [] \<and> rabbit_jobs V (w_queue w') = rabbit_jobs V (w_queue w)
    \<and> jv_status (pg_view (w_state w')) =
        (\<lambda>s. if s \<in> res_Spec ` set rs then Some StatusSucceeded else jv_status (pg_view (w_state w)) s)"
  using assms
proof (induction rs arbitrary: w)
  case Nil
  then show ?case by simp
next
  case (Cons r rs)
  have ok: "sys_ok up V healthy w"
    and c: "consistent (pg_view (w_state w)) (pg_issued (w_state w)) (at_loc obj (w_artifacts w))
      (rabbit_jobs V (w_queue w)) (r # rs)"
    using Cons.prems by (simp_all add: pipeline_inv_def pair_ok_def)
  have "deliverable (pg_view (w_state w)) (at_loc obj (w_artifacts w)) r" using consistentD(4) [OF c, of r] by simp
  then have a: "pg_adm_result r" "known_status (res_Status r)" "res_Status r = StatusSucceeded"
    "res_Spec r \<in> jv_specs (pg_view (w_state w)) (SessionID (res_Spec r))"
    by (simp_all add: deliverable_def registered_def known_status_iff)
  note known = registered_known [OF consistentD(1) [OF c] a(4)]
  from deployed_result [OF ok Cons.prems(2) a(1) known(3) a(2) known(1)]
  obtain w1 where w1: "ConsumeResults_once (container_server A P bkt C H) w = (Ret (), w1)"
    "rabbit_results V (w_queue w1) = rs" "rabbit_jobs V (w_queue w1) = rabbit_jobs V (w_queue w)"
    "jv_status (pg_view (w_state w1)) = (jv_status (pg_view (w_state w)))(res_Spec r \<mapsto> StatusSucceeded)"
    using a(3) by auto
  have "pipeline_inv up V healthy obj (w1, p)" using collect_inv [OF Cons.prems(1) _ w1(1)] Cons.prems(2) by simp
  from Cons.IH [OF this w1(2)] obtain w' where "ConsumeResults_n (container_server A P bkt C H) (length rs) w1 = (Ret (), w')"
    "pipeline_inv up V healthy obj (w', p)" "rabbit_results V (w_queue w') = []"
    "rabbit_jobs V (w_queue w') = rabbit_jobs V (w_queue w1)"
    "jv_status (pg_view (w_state w')) =
        (\<lambda>s. if s \<in> res_Spec ` set rs then Some StatusSucceeded else jv_status (pg_view (w_state w1)) s)"
    by blast
  then show ?case using w1 by (intro exI [of _ w']) (auto simp: fun_eq_iff)
qed

end

section \<open>Properties of the system\<close>

text \<open>The system before the first request: empty tables and empty queues.\<close>

definition pipeline_init :: "('b \<Rightarrow> bool) \<Rightarrow> ('b \<Rightarrow> broker_view) \<Rightarrow> ('m \<Rightarrow> bool) \<Rightarrow> ('b, 'm) system \<Rightarrow> bool" where
  "pipeline_init up V healthy x \<longleftrightarrow> pair_ok up V healthy x \<and> rabbit_jobs V (w_queue (fst x)) = [] \<and>
     rabbit_results V (w_queue (fst x)) = [] \<and> jv_specs (pg_view (w_state (fst x))) = (\<lambda>_. {}) \<and>
     jv_status (pg_view (w_state (fst x))) = Map.empty"

lemma pipeline_init_inv: "pipeline_init up V healthy x \<Longrightarrow> pipeline_inv up V healthy obj x"
  by (simp add: pipeline_init_def pipeline_inv_def consistent_empty)

lemma pipeline_intro: "services_ok A up V P bkt C healthy obj \<Longrightarrow> pipeline A up V P bkt C healthy obj"
  by (simp add: pipeline_def deployment_def)

text \<open>A worker on services in memory, and a run of it on a query pack.\<close>

definition demo_agent :: "(list_net rabbit_system, PGState, (string \<times> string, bytes) gomap, HepcStore) agent" where
  "demo_agent = container_agent list_amqp pg_plain AF_BUCKETNAMES list_minio hepc_demo cq_demo ''/tmp'' (\<lambda>n. ''job'')"

definition demo_disk :: "nat \<Rightarrow> fs" where
  "demo_disk n = foldl (\<lambda>s m. snd (m s)) \<lparr>fs_files = [], fs_dirs = [''/tmp''], fs_clock = 0\<rparr>
     (take n [os_MkdirAll (cq_os cq_demo) ''/tmp/job'',
        os_WriteFile (cq_os cq_demo) ''/tmp/job/query-pack.tar.gz'' ''tgz'',
        os_Mkdir (cq_os cq_demo) ''/tmp/job/pack'',
        UntarGz (cq_os cq_demo) (cq_lib cq_demo) ''/tmp/job/query-pack.tar.gz'' ''/tmp/job/pack'',
        os_WriteFile (cq_os cq_demo) ''/tmp/job/database.zip'' ''http://hepc:8070/c/a.zip''])"

lemma demo_paths:
  "Join [''/tmp'', ''job''] = ''/tmp/job''" "Join [''/tmp/job'', ''query-pack.tar.gz''] = ''/tmp/job/query-pack.tar.gz''"
  "Join [''/tmp/job'', ''pack''] = ''/tmp/job/pack''" "Join [''/tmp/job'', ''database.zip''] = ''/tmp/job/database.zip''"
  by code_simp+

lemma demo_disk_steps:
  "os_MkdirAll (cq_os cq_demo) ''/tmp/job'' (demo_disk 0) = (Ret (Inr ()), demo_disk (Suc 0))"
  "os_WriteFile (cq_os cq_demo) ''/tmp/job/query-pack.tar.gz'' ''tgz'' (demo_disk (Suc 0)) = (Ret (Inr ()), demo_disk 2)"
  "os_Mkdir (cq_os cq_demo) ''/tmp/job/pack'' (demo_disk 2) = (Ret (Inr ()), demo_disk 3)"
  "UntarGz (cq_os cq_demo) (cq_lib cq_demo) ''/tmp/job/query-pack.tar.gz'' ''/tmp/job/pack'' (demo_disk 3) = (Ret (Inr ()), demo_disk 4)"
  "os_WriteFile (cq_os cq_demo) ''/tmp/job/database.zip'' ''http://hepc:8070/c/a.zip'' (demo_disk 4) = (Ret (Inr ()), demo_disk 5)"
  by code_simp+

lemma demo_database: "fst (hepc_GetDatabase hepc_demo (NWO (job_Spec demo_job)) hepc_demo_store) = Ret (Inr ''http://hepc:8070/c/a.zip'')"
  by code_simp

lemma demo_RunQuery:
  "\<exists>f. RunQuery cq_demo ''/tmp/job/database.zip'' ''cpp'' ''/tmp/job/pack'' ''/tmp/job'' (demo_disk 5) =
     (Ret (Inr \<lparr>rr_ResultCount = 2, rr_DatabaseSHA = [], rr_SourceLocationPrefix = [],
     rr_BqrsFilePaths = \<lparr>bp_BasePath = ''/tmp/job/db/results'', bp_RelativeFilePaths = []\<rparr>,
     rr_SarifFilePath = ''/tmp/job/results/results.sarif''\<rparr>), f)"
proof -
  have "fst (RunQuery cq_demo ''/tmp/job/database.zip'' ''cpp'' ''/tmp/job/pack'' ''/tmp/job'' (demo_disk 5)) =
     Ret (Inr \<lparr>rr_ResultCount = 2, rr_DatabaseSHA = [], rr_SourceLocationPrefix = [],
     rr_BqrsFilePaths = \<lparr>bp_BasePath = ''/tmp/job/db/results'', bp_RelativeFilePaths = []\<rparr>,
     rr_SarifFilePath = ''/tmp/job/results/results.sarif''\<rparr>)"
    by code_simp
  then show ?thesis by (metis prod.collapse)
qed

definition demo_private :: agent_private where
  "demo_private = \<lparr>pv_dbs = hepc_demo_store, pv_fs = demo_disk 0, pv_uuids = 0\<rparr>"

definition demo_finding :: AnalyzeResult where
  "demo_finding = \<lparr>res_Spec = demo_spec, res_Status = StatusSucceeded, res_ResultCount = 2,
     res_ResultLocation = \<lparr>loc_Key = result_key demo_spec, loc_Bucket = ''mrvabucket''\<rparr>,
     res_SourceLocationPrefix = [], res_DatabaseSHA = []\<rparr>"

interpretation plain_pipeline: pipeline list_amqp "\<lambda>_. True" list_broker pg_plain AF_BUCKETNAMES list_minio "\<lambda>_. True"
  "\<lambda>m b k. gm_get m (b, k)" hepc_demo hepc_demo cq_demo "''/tmp''" "\<lambda>n. ''job''"
  by unfold_locales

lemma demo_answers: "cq_exits cq_demo" "answering hepc_demo"
  by (simp_all add: cq_exits_def cq_demo_def answering_def hepc_demo_def)

lemma demo_analysis:
  assumes "ag_artifacts u = [((''mrvabucket'', ''1-packs''), ''tgz'')]" and "ag_dbs u = hepc_demo_store"
    and "ag_fs u = demo_disk 0" and "RunAnalysisJob demo_agent demo_job u = (Ret (Inr r), t)"
  shows "r = demo_finding"
proof -
  obtain f where q: "RunQuery cq_demo ''/tmp/job/database.zip'' ''cpp'' ''/tmp/job/pack'' ''/tmp/job'' (demo_disk 5) =
     (Ret (Inr \<lparr>rr_ResultCount = 2, rr_DatabaseSHA = [], rr_SourceLocationPrefix = [],
     rr_BqrsFilePaths = \<lparr>bp_BasePath = ''/tmp/job/db/results'', bp_RelativeFilePaths = []\<rparr>,
     rr_SarifFilePath = ''/tmp/job/results/results.sarif''\<rparr>), f)"
    using demo_RunQuery by blast
  have "NWO (job_Spec demo_job) = \<lparr>Owner = ''o'', Repo = ''r''\<rparr>" by (simp add: demo_job_def)
  then obtain h where h: "hepc_GetDatabase hepc_demo \<lparr>Owner = ''o'', Repo = ''r''\<rparr> hepc_demo_store = (Ret (Inr ''http://hepc:8070/c/a.zip''), h)"
    using demo_database by (metis prod.collapse)
  note run_defs = RunAnalysisJob_def analyse_in_def try_wrap_def bindP_def deferred_def new_temp_dir_def
    ag_on_fs_def ag_on_artifacts_def ag_on_dbs_def
  note store_defs = MinIO_Store_def Hepc_DBStore_def minio_GetQueryPack_def getArtifact_def minio_SaveResult_def
    saveArtifact_def AF_BUCKETNAMES_def
  show ?thesis
    using assms(4)
    by (simp add: run_defs store_defs Let_def demo_agent_def container_agent_def demo_paths assms(1-3) demo_disk_steps
        q h list_minio_def demo_job_def del: Join.simps)
      (auto simp: bindP_def ag_on_artifacts_def success_result_def demo_finding_def demo_spec_def split: prod.splits go.splits sum.splits)
qed

text \<open>The system with one job in the queue.\<close>

definition demo_queued :: "(list_net, (string \<times> string, bytes) gomap) system" where
  "demo_queued = (demo_running\<lparr>w_artifacts := [((''mrvabucket'', ''1-packs''), ''tgz'')],
     w_queue := \<lparr>rs_server = demo_rq False, rs_agent = demo_rq True,
       rs_net = demo_net\<lparr>ln_queues := (\<lambda>_. [])(jobsQueueName := [json_text (AnalyzeJob_json demo_job)])\<rparr>\<rparr>\<rparr>, demo_private)"

lemma demo_queued_fields:
  "rabbit_jobs list_broker (w_queue (fst demo_queued)) = [demo_job]" "rabbit_results list_broker (w_queue (fst demo_queued)) = []"
  "w_state (fst demo_queued) = demo_session" "w_artifacts (fst demo_queued) = [((''mrvabucket'', ''1-packs''), ''tgz'')]"
  "snd demo_queued = demo_private"
  using demo_rows(1)
  by (simp_all add: demo_queued_def rabbit_jobs_def rabbit_results_def list_broker_def demo_net_def list_net0_def demo_running_fields)

lemma demo_queued_ok: "pair_ok (\<lambda>_. True) list_broker (\<lambda>_. True) demo_queued"
  using demo_running_ok demo_rows(1)
  by (simp add: pair_ok_def sys_ok_def demo_queued_def rabbit_ok_def connected_def list_broker_def demo_net_def list_net0_def demo_rq_def decodes_def
      demo_private_def hepc_demo_store_def)

lemma demo_consistent: "consistent (pg_view demo_session) (pg_issued demo_session) R [demo_job] []"
proof -
  have specs: "jv_specs (pg_view demo_session) sid = (if sid = 1 then {demo_spec} else {})" for sid
    by (auto simp: demo_session_def demo_pg_def PG_empty_def pg_view_def demo_spec_def)
  have "StatusPending \<noteq> StatusSucceeded" "job_Spec demo_job = demo_spec" "SessionID demo_spec = 1"
    by (simp_all add: status_defs demo_job_def demo_spec_def)
  then show ?thesis
    using demo_view demo_key specs by (simp add: consistent_def sessions_complete_def registered_def)
qed

lemma demo_queued_inv: "pipeline_inv (\<lambda>_. True) list_broker (\<lambda>_. True) (\<lambda>m b k. gm_get m (b, k)) demo_queued"
  using demo_queued_ok demo_consistent by (simp add: pipeline_inv_def demo_queued_fields)

lemma take_job_shape:
  assumes "take_job G w = (Ret (Some j), u)"
  shows "\<exists>q s. q_RecvJob (ag_Queue G) (ag_queue w) = (Ret (Some j), q) \<and> u = w\<lparr>ag_queue := q, ag_state := s\<rparr>"
  using assms unfolding take_job_def
  by (elim bindP_Ret_elim) (auto simp: ag_on_queue_def ag_on_state_def seqP_def bindP_def split: prod.splits option.splits go.splits)

lemma demo_turn:
  assumes "rabbit_jobs list_broker (w_queue (fst x)) = [demo_job]" and "pair_ok (\<lambda>_. True) list_broker (\<lambda>_. True) x"
    and "r \<in> turn_results demo_agent (agent_view x)"
  shows "\<exists>u t. RunAnalysisJob demo_agent demo_job u = (Ret (Inr r), t) \<and> ag_artifacts u = w_artifacts (fst x)
    \<and> ag_dbs u = pv_dbs (snd x) \<and> ag_fs u = pv_fs (snd x)"
proof -
  obtain j u t where t: "take_job demo_agent (agent_view x) = (Ret (Some j), u)" "RunAnalysisJob demo_agent j u = (Ret (Inr r), t)"
    using assms(3) by (auto simp: turn_results_def)
  obtain q s where u: "q_RecvJob (Rabbit_Queue list_amqp) (w_queue (fst x)) = (Ret (Some j), q)"
    "u = (agent_view x)\<lparr>ag_queue := q, ag_state := s\<rparr>"
    using take_job_shape [OF t(1)] by (auto simp: demo_agent_def container_agent_def agent_view_def split: prod.splits)
  have "rabbit_ok (\<lambda>_. True) list_broker (w_queue (fst x))" using assms(2) by (simp add: pair_ok_def sys_ok_def)
  from rabbit.recv_job [OF this assms(1)] u(1) have "j = demo_job" by auto
  with t(2) u(2) show ?thesis by (intro exI [of _ u] exI [of _ t]) (simp add: agent_view_def split: prod.split)
qed

lemma demo_finding_admissible: "admissible demo_finding"
proof -
  have "result_key demo_spec = ''1-results-{o r}''" by code_simp
  moreover have "text_ok ''1-results-{o r}''" "text_ok []" by (rule text_ok_ascii; simp)+
  ultimately show ?thesis
    using demo_texts demo_key
    by (simp add: admissible_def pg_adm_result_def demo_finding_def wf_AnalyzeResult_def int64_ok_def status_defs
        wf_ArtifactLocation_def text_ok_def AnalyzeResult_json_def ArtifactLocation_json_def JobSpec_json_def
        JobSpec_members_def demo_spec_def JInt_def Itoa_def)
qed

lemma demo_turn_admissible: "\<forall>r \<in> turn_results demo_agent (agent_view demo_queued). admissible r"
proof
  fix r assume "r \<in> turn_results demo_agent (agent_view demo_queued)"
  from demo_turn [OF demo_queued_fields(1) demo_queued_ok this]
  obtain u t where "RunAnalysisJob demo_agent demo_job u = (Ret (Inr r), t)"
    "ag_artifacts u = [((''mrvabucket'', ''1-packs''), ''tgz'')]" "ag_dbs u = hepc_demo_store" "ag_fs u = demo_disk 0"
    unfolding demo_queued_fields by (auto simp: demo_private_def)
  then have "r = demo_finding" using demo_analysis by blast
  then show "admissible r" using demo_finding_admissible by simp
qed

theorem RunAnalysisJob_cleans_up_witness:
  "\<exists>r t. RunAnalysisJob demo_agent demo_job (agent_view demo_queued) = (Ret r, t)
    \<and> (\<forall>q. (q \<in> fst ` set (fs_files (ag_fs t)) \<or> q \<in> set (fs_dirs (ag_fs t))) \<longrightarrow>
        q \<noteq> Clean ''/tmp/job'' \<and> \<not> HasPrefix q (Clean ''/tmp/job'' @ ''/''))"
proof -
  let ?w = "agent_view demo_queued"
  have w: "ag_fs ?w = demo_disk 0" "ag_uuid demo_agent n = ''job''" "ag_tmp demo_agent = ''/tmp''" "ag_codeql demo_agent = cq_demo" for n
    by (auto simp: agent_view_def demo_queued_def demo_agent_def container_agent_def demo_private_def split: prod.split)
  have "plain_pipeline.wk.analysing ?w ?w"
    using plain_pipeline.ag_ok_agent_view [OF demo_queued_ok]
    by (simp add: plain_pipeline.wk.analysing_def plain_pipeline.wk.ag_ok_def)
  with plain_pipeline.wk.runs_analysis obtain r t where r: "RunAnalysisJob demo_agent demo_job ?w = (Ret r, t)"
    unfolding demo_agent_def by (rule runsE) (use plain_pipeline.may_wait_agent demo_answers in \<open>blast+\<close>)
  have f: "\<forall>n. os_fault (cq_os (ag_codeql demo_agent)) n = None" unfolding w by (simp add: cq_demo_def)
  have m: "os_MkdirAll (cq_os (ag_codeql demo_agent)) (Join [ag_tmp demo_agent, ag_uuid demo_agent (ag_uuids ?w)]) (ag_fs ?w) =
      (Ret (Inr ()), demo_disk (Suc 0))"
    unfolding w demo_paths by (rule demo_disk_steps(1))
  from RunAnalysisJob_cleans_up [OF r f m] r show ?thesis unfolding w demo_paths by blast
qed

text \<open>
  C1. Every state that the deployed system reaches from an empty start is in order.  Whatever
  sequence of submissions, refused submissions, status requests, downloads, turns of the worker and
  steps of the result loop is run: every session with jobs was issued, its jobs have a status and
  share the information of the session; every job with a status is registered; every queued job and
  every queued result belongs to a registered job; the artifact of every queued result and of every
  job that has succeeded is in the store.
\<close>

theorem reachable_states_consistent:
  assumes "services_ok A up V P bkt C healthy obj" and "pipeline_init up V healthy x"
    and "(pipeline_step E bkt obj V (container_server A P bkt C H) (container_agent A P bkt C H' Q tmp uuid))\<^sup>*\<^sup>* x y"
  shows "pair_ok up V healthy y
    \<and> consistent (pg_view (w_state (fst y))) (pg_issued (w_state (fst y))) (at_loc obj (w_artifacts (fst y)))
        (rabbit_jobs V (w_queue (fst y))) (rabbit_results V (w_queue (fst y)))"
  using pipeline.reachable_inv [OF pipeline_intro [OF assms(1)] assms(3) pipeline_init_inv [OF assms(2)]]
  by (simp add: pipeline_inv_def)

lemma demo_init: "pipeline_init (\<lambda>_. True) list_broker (\<lambda>_. True) (demo_world, demo_private)"
  using demo_world_ok
  by (simp add: pipeline_init_def pair_ok_def demo_private_def hepc_demo_store_def rabbit_jobs_def rabbit_results_def
      demo_world_def list_broker_def demo_net_def list_net0_def demo_pg_def PG_empty_def pg_view_def fun_eq_iff)

abbreviation demo_step where
  "demo_step \<equiv> pipeline_step demo_env AF_BUCKETNAMES (\<lambda>m b k. gm_get m (b, k)) list_broker demo_server demo_agent"

lemma demo_submitted:
  "\<exists>w'. demo_step (demo_world, demo_private) (w', demo_private)
     \<and> (\<exists>sid. pg_issued (w_state w') sid) \<and> rw_code (w_resp w') = Some 200"
proof -
  have f: "fresh demo_world = demo_world" by (simp add: fresh_def demo_world_def)
  obtain sid w' where "MRVARequestCommon demo_env demo_server demo_request demo_world = (Ret (), w')"
    and i: "pg_issued (w_state w') = (pg_issued demo_pg)(sid := True)" and "rw_code (w_resp w') = Some 200"
    using plain.deployed_submission [OF demo_world_ok, of "[''o/r'']" demo_request "''cpp''" "[CHR 0x1F, CHR 0x8B]" demo_env]
      demo_storable demo_request_good demo_world_open by (auto simp: answered_def)
  moreover have "pg_issued (w_state w') sid" using i by simp
  ultimately show ?thesis
    using demo_storable demo_request_good
    by (intro exI [of _ w'] conjI pipeline_step.submit) (auto simp: f)
qed

theorem reachable_states_consistent_witness:
  "\<exists>y. demo_step\<^sup>*\<^sup>* (demo_world, demo_private) y \<and> (\<exists>sid. pg_issued (w_state (fst y)) sid) \<and>
     consistent (pg_view (w_state (fst y))) (pg_issued (w_state (fst y))) (at_loc (\<lambda>m b k. gm_get m (b, k)) (w_artifacts (fst y)))
        (rabbit_jobs list_broker (w_queue (fst y))) (rabbit_results list_broker (w_queue (fst y)))"
proof -
  obtain w' where w': "demo_step\<^sup>*\<^sup>* (demo_world, demo_private) (w', demo_private)" "\<exists>sid. pg_issued (w_state w') sid"
    using demo_submitted by blast
  from reachable_states_consistent [OF list_services_ok demo_init w'(1) [unfolded demo_agent_def]] w'
  show ?thesis by (intro exI [of _ "(w', demo_private)"]) simp
qed

text \<open>
  C8. In every state that is reached from a state in order, such as the empty start, a job
  that is reported as succeeded can be downloaded: the
  request for its token is answered with code 200 and with exactly the bytes of the artifact that
  its recorded result names, and the request changes nothing that another request could notice.
\<close>

theorem succeeded_job_downloadable:
  assumes "services_ok A up V P bkt C healthy obj" and "pipeline_inv up V healthy obj x"
    and "(pipeline_step E bkt obj V (container_server A P bkt C H) (container_agent A P bkt C H' Q tmp uuid))\<^sup>*\<^sup>* x (w, p)"
    and "jv_status (pg_view (w_state w)) js = Some StatusSucceeded"
    and "EncodeJobSpec js = Inr (mux_var rq ''encoded_job_spec'')"
  shows "\<exists>r d w'. jv_result (pg_view (w_state w)) js = Some r \<and> at_loc obj (w_artifacts w) (res_ResultLocation r) = Some d
    \<and> MRVADownloadServe (container_server A P bkt C H) rq (fresh w) = (Ret (), w')
    \<and> undisturbed up V healthy obj (fresh w) w' \<and> answered 200 ''application/octet-stream'' d (w_resp w')"
proof -
  note L = pipeline_intro [OF assms(1)]
  from pipeline.reachable_inv [OF L assms(3,2)]
  show ?thesis by (rule pipeline.inv_served [OF L _ assms(4,5)])
qed

lemma demo_running_inv:
  "pipeline_inv (\<lambda>_. True) list_broker (\<lambda>_. True) (\<lambda>m b k. gm_get m (b, k)) (demo_running, demo_private)"
proof -
  have "registered (pg_view demo_session) demo_spec" using demo_view(3) by (simp add: registered_def demo_spec_def)
  then have "deliverable (pg_view demo_session) (at_loc (\<lambda>m b k. gm_get m (b, k)) (w_artifacts demo_running)) demo_result"
    using demo_result_adm(1) demo_running_fields(4) by (simp add: deliverable_def demo_result_def)
  then have "consistent (pg_view demo_session) (pg_issued demo_session) (at_loc (\<lambda>m b k. gm_get m (b, k)) (w_artifacts demo_running)) [] [demo_result]"
    using demo_consistent by (simp add: consistent_def)
  moreover have "rabbit_jobs list_broker (w_queue demo_running) = []" by (simp add: demo_running_def rabbit_jobs_def list_broker_def demo_net_def list_net0_def)
  ultimately show ?thesis
    using demo_running_ok
    by (simp add: pipeline_inv_def pair_ok_def demo_running_fields demo_private_def hepc_demo_store_def)
qed

theorem succeeded_job_downloadable_witness:
  "\<exists>w tok d w'. demo_step\<^sup>*\<^sup>* (demo_running, demo_private) (w, demo_private)
    \<and> jv_status (pg_view (w_state w)) demo_spec = Some StatusSucceeded \<and> EncodeJobSpec demo_spec = Inr tok
    \<and> MRVADownloadServe demo_server (demo_request\<lparr>rq_vars := [(''encoded_job_spec'', tok)]\<rparr>) (fresh w) = (Ret (), w')
    \<and> answered 200 ''application/octet-stream'' d (w_resp w')"
proof -
  obtain tok where tok: "EncodeJobSpec demo_spec = Inr tok" by (simp add: EncodeJobSpec_def)
  let ?rq = "demo_request\<lparr>rq_vars := [(''encoded_job_spec'', tok)]\<rparr>"
  have rq: "EncodeJobSpec demo_spec = Inr (mux_var ?rq ''encoded_job_spec'')" using tok by (simp add: mux_var_def gm_get0_def)
  obtain w where w: "ConsumeResults_once demo_server demo_running = (Ret (), w)"
    "jv_status (pg_view (w_state w)) demo_spec = Some StatusSucceeded"
    using plain_pipeline.collect_effect [OF demo_running_inv demo_running_fields(3)]
    by (auto simp: demo_result_def seqP_def elim!: bindP_Ret_elim)
  have "demo_step (demo_running, demo_private) (w, demo_private)"
    using w(1) demo_running_fields(3) by (intro pipeline_step.collect) auto
  then have step: "demo_step\<^sup>*\<^sup>* (demo_running, demo_private) (w, demo_private)" by blast
  from succeeded_job_downloadable [OF list_services_ok demo_running_inv step [unfolded demo_agent_def] w(2) rq]
  show ?thesis using step w(2) tok by blast
qed

text \<open>
  C13. In every state that is reached from a state in order, a status request for a session
  with jobs is answered with code 200 and lists every job of the session once, as long as there are repository numbers left
  and the artifacts are smaller than two gigabytes; it changes nothing that another request could
  notice.
\<close>

theorem session_always_reported:
  assumes "services_ok A up V P bkt C healthy obj" and "pipeline_inv up V healthy obj x"
    and "(pipeline_step E bkt obj V (container_server A P bkt C H) (container_agent A P bkt C H' Q tmp uuid))\<^sup>*\<^sup>* x (w, p)"
    and "small_objects obj (w_artifacts w)" and "jv_specs (pg_view (w_state w)) sid \<noteq> {}"
    and "pg_fits (w_state w) (card (jv_specs (pg_view (w_state w)) sid))"
    and "ParseInt 32 (mux_var rq ''codeql_variant_analysis_id'') = Inr sid"
  shows "\<exists>ji js ids w'. MRVAStatus (container_server A P bkt C H) rq (fresh w) = (Ret (), w')
    \<and> undisturbed up V healthy obj (fresh w) w'
    \<and> job_Spec ` set js = jv_specs (pg_view (w_state w)) sid \<and> distinct (map job_Spec js)
    \<and> list_all2 (\<lambda>j i. pg_repo_ids (w_state w') i = Some (NWO (job_Spec j))) js ids
    \<and> answered 200 ''application/json'' (json_text (StatusResponse_json (status_response sid ji
         (ToExternalString (overall_spec (session_statuses (pg_view (w_state w)) sid)))
         (map2 (scan_of (pg_view (w_state w)) (at_loc obj (w_artifacts w)) ji) js ids)))) (w_resp w')"
proof -
  note L = pipeline_intro [OF assms(1)]
  from pipeline.reachable_inv [OF L assms(3,2)]
  show ?thesis by (rule pipeline.inv_status [OF L _ assms(4-7)])
qed

theorem session_always_reported_witness:
  "\<exists>(js :: AnalyzeJob list) w'. MRVAStatus demo_server (demo_request\<lparr>rq_vars := [(''codeql_variant_analysis_id'', ''1'')]\<rparr>)
      (fresh (fst demo_queued)) = (Ret (), w') \<and> job_Spec ` set js = {demo_spec} \<and> rw_code (w_resp w') = Some 200"
proof -
  let ?rq = "demo_request\<lparr>rq_vars := [(''codeql_variant_analysis_id'', ''1'')]\<rparr>" and ?w = "fst demo_queued"
  have "Itoa 1 = ''1''" by code_simp
  then have rq: "ParseInt 32 (mux_var ?rq ''codeql_variant_analysis_id'') = Inr 1"
    using ParseInt_Itoa [of 32 1] by (simp add: mux_var_def gm_get0_def)
  have r: "demo_step\<^sup>*\<^sup>* demo_queued (?w, snd demo_queued)" by simp
  have s: "small_objects (\<lambda>m b k. gm_get m (b, k)) (w_artifacts ?w)"
    by (auto simp: small_objects_def demo_queued_fields at_loc_def split: if_splits)
  have n: "jv_specs (pg_view (w_state ?w)) 1 \<noteq> {}" "pg_fits (w_state ?w) (card (jv_specs (pg_view (w_state ?w)) 1))"
    using demo_view(3) by (simp_all add: demo_queued_fields) (simp add: pg_fits_def demo_session_def demo_pg_def PG_empty_def)
  from session_always_reported [OF list_services_ok demo_queued_inv r [unfolded demo_agent_def] s n rq]
  obtain js :: "AnalyzeJob list" and w' where "MRVAStatus demo_server ?rq (fresh ?w) = (Ret (), w')"
    "job_Spec ` set js = jv_specs (pg_view (w_state ?w)) 1" "rw_code (w_resp w') = Some 200"
    unfolding answered_def by blast
  then show ?thesis using demo_view(3) by (intro exI [of _ js] exI [of _ w']) (simp add: demo_queued_fields)
qed

text \<open>
  C14. The queued work gets done.  From a state in order, as many turns of the worker as there
  are jobs in the queue, followed by as many steps of the result loop as there are results then,
  empty both queues, provided that the command line tool always exits, that the database server
  answers, and that the agent's channel to the broker can take as many results; every job whose result arrived is then reported as succeeded, every other job
  that was queued is reported as in progress, and the state is in order again.
\<close>

theorem queued_jobs_worked_off:
  assumes "services_ok A up V P bkt C healthy obj" and "pipeline_inv up V healthy obj x"
    and "turns_admissible (container_agent A P bkt C H' Q tmp uuid) x (length (rabbit_jobs V (w_queue (fst x))))"
    and "rabbit_free_results V (w_queue (fst x)) (length (rabbit_jobs V (w_queue (fst x))))" and "cq_exits Q" and "answering H'"
  shows "\<exists>y w. worker_run (container_agent A P bkt C H' Q tmp uuid)
        (replicate (length (rabbit_jobs V (w_queue (fst x)))) JobReady) x = (Ret (), y)
    \<and> ConsumeResults_n (container_server A P bkt C H) (length (rabbit_results V (w_queue (fst y)))) (fst y) = (Ret (), w)
    \<and> pipeline_inv up V healthy obj (w, snd y) \<and> rabbit_jobs V (w_queue w) = [] \<and> rabbit_results V (w_queue w) = []
    \<and> (\<forall>j \<in> set (rabbit_jobs V (w_queue (fst x))). jv_status (pg_view (w_state w)) (job_Spec j) =
         Some (if job_Spec j \<in> res_Spec ` set (rabbit_results V (w_queue (fst y))) then StatusSucceeded else StatusInProgress))"
proof -
  note L = pipeline_intro [OF assms(1)]
  let ?js = "rabbit_jobs V (w_queue (fst x))" and ?G = "container_agent A P bkt C H' Q tmp uuid"
  from pipeline.worker_run_effect [OF L assms(2) refl assms(3-6)]
  obtain y where y: "worker_run ?G (replicate (length ?js) JobReady) x = (Ret (), y)" "pipeline_inv up V healthy obj y"
    "rabbit_jobs V (w_queue (fst y)) = []" "jv_status (pg_view (w_state (fst y))) =
        (\<lambda>s. if s \<in> job_Spec ` set ?js then Some StatusInProgress else jv_status (pg_view (w_state (fst x))) s)"
    by blast
  have "pipeline_inv up V healthy obj (fst y, snd y)" using y(2) by simp
  from pipeline.collect_effect [OF L this refl, of H]
  obtain w where "ConsumeResults_n (container_server A P bkt C H) (length (rabbit_results V (w_queue (fst y)))) (fst y) = (Ret (), w)"
    "pipeline_inv up V healthy obj (w, snd y)" "rabbit_results V (w_queue w) = []"
    "rabbit_jobs V (w_queue w) = rabbit_jobs V (w_queue (fst y))"
    "jv_status (pg_view (w_state w)) = (\<lambda>s. if s \<in> res_Spec ` set (rabbit_results V (w_queue (fst y)))
       then Some StatusSucceeded else jv_status (pg_view (w_state (fst y))) s)"
    by blast
  with y show ?thesis by (intro exI [of _ y] exI [of _ w]) simp
qed

theorem queued_jobs_worked_off_witness:
  "\<exists>y w. worker_run demo_agent [JobReady] demo_queued = (Ret (), y)
    \<and> ConsumeResults_n demo_server (length (rabbit_results list_broker (w_queue (fst y)))) (fst y) = (Ret (), w)
    \<and> rabbit_jobs list_broker (w_queue w) = [] \<and> rabbit_results list_broker (w_queue w) = []
    \<and> jv_status (pg_view (w_state w)) demo_spec \<in> {Some StatusSucceeded, Some StatusInProgress}"
proof -
  have "turns_admissible demo_agent demo_queued (length (rabbit_jobs list_broker (w_queue (fst demo_queued))))"
    using demo_turn_admissible by (simp add: turns_admissible_def demo_queued_fields worker_run_Nil)
  moreover have "rabbit_free_results list_broker (w_queue (fst demo_queued)) (length (rabbit_jobs list_broker (w_queue (fst demo_queued))))"
    unfolding demo_queued_fields
    by (simp add: demo_queued_def rabbit_free_results_def channel_free_def demo_rq_def demo_net_def list_net0_def
        list_broker_def listen_free_def)
  ultimately have turns: "turns_admissible demo_agent demo_queued (length (rabbit_jobs list_broker (w_queue (fst demo_queued))))"
    and free: "rabbit_free_results list_broker (w_queue (fst demo_queued)) (length (rabbit_jobs list_broker (w_queue (fst demo_queued))))"
    by blast+
  from queued_jobs_worked_off [OF list_services_ok demo_queued_inv turns [unfolded demo_agent_def] free demo_answers, of hepc_demo]
  obtain y w where "worker_run demo_agent [JobReady] demo_queued = (Ret (), y)"
    "ConsumeResults_n demo_server (length (rabbit_results list_broker (w_queue (fst y)))) (fst y) = (Ret (), w)"
    "rabbit_jobs list_broker (w_queue w) = []" "rabbit_results list_broker (w_queue w) = []"
    "jv_status (pg_view (w_state w)) (job_Spec demo_job) = Some
       (if job_Spec demo_job \<in> res_Spec ` set (rabbit_results list_broker (w_queue (fst y))) then StatusSucceeded else StatusInProgress)"
    unfolding demo_agent_def [symmetric] demo_queued_fields by auto
  moreover have "job_Spec demo_job = demo_spec" by (simp add: demo_job_def demo_spec_def)
  ultimately show ?thesis by (intro exI [of _ y] exI [of _ w]) simp
qed

text \<open>
  C23. A job whose analysis fails is lost: if the command line tool exits and the database
  server answers, but the analysis gives no result, the turn of the worker ends; the job has left the
  queue, no result is sent, nothing is stored, and its status stays in progress.
\<close>

theorem failed_analysis_loses_job:
  assumes "services_ok A up V P bkt C healthy obj" and "pipeline_inv up V healthy obj x"
    and "rabbit_jobs V (w_queue (fst x)) = j # js"
    and "turn_results (container_agent A P bkt C H' Q tmp uuid) (agent_view x) = {}" and "cq_exits Q" and "answering H'"
  shows "\<exists>y. worker_turn (container_agent A P bkt C H' Q tmp uuid) x = (Ret True, y) \<and> rabbit_jobs V (w_queue (fst y)) = js
    \<and> rabbit_results V (w_queue (fst y)) = rabbit_results V (w_queue (fst x))
    \<and> at_loc obj (w_artifacts (fst y)) = at_loc obj (w_artifacts (fst x))
    \<and> jv_status (pg_view (w_state (fst y))) (job_Spec j) = Some StatusInProgress"
proof -
  note L = pipeline_intro [OF assms(1)]
  have ok: "pair_ok up V healthy x" and c: "consistent (pg_view (w_state (fst x))) (pg_issued (w_state (fst x)))
      (at_loc obj (w_artifacts (fst x))) (j # js) (rabbit_results V (w_queue (fst x)))"
    using assms(2,3) by (simp_all add: pipeline_inv_def)
  have reg: "job_Spec j \<in> jv_specs (pg_view (w_state (fst x))) (SessionID (job_Spec j))"
    using consistentD(3) [OF c, of j] by (simp add: registered_def)
  note known = registered_known [OF consistentD(1) [OF c] reg]
  have adm: "\<forall>r \<in> turn_results (container_agent A P bkt C H' Q tmp uuid) (agent_view x). admissible r"
    using assms(4) by simp
  from pipeline.worker_turn_effect [OF L ok assms(3) known(3,1) adm] assms(4-6) show ?thesis by fastforce
qed

text \<open>The same system without the query pack.\<close>

definition demo_missing :: "(list_net, (string \<times> string, bytes) gomap) system" where
  "demo_missing = ((fst demo_queued)\<lparr>w_artifacts := []\<rparr>, demo_private)"

theorem failed_analysis_loses_job_witness:
  "\<exists>y. worker_turn demo_agent demo_missing = (Ret True, y) \<and> rabbit_jobs list_broker (w_queue (fst y)) = []
    \<and> rabbit_results list_broker (w_queue (fst y)) = [] \<and> jv_status (pg_view (w_state (fst y))) demo_spec = Some StatusInProgress"
proof -
  have inv: "pipeline_inv (\<lambda>_. True) list_broker (\<lambda>_. True) (\<lambda>m b k. gm_get m (b, k)) demo_missing"
    using demo_queued_inv
    by (simp add: pipeline_inv_def demo_missing_def demo_queued_fields pair_ok_def sys_ok_def consistent_def fetchable_def)
      (auto simp: demo_view split: if_splits simp: status_defs)
  have f: "rabbit_jobs list_broker (w_queue (fst demo_missing)) = [demo_job]" "rabbit_results list_broker (w_queue (fst demo_missing)) = []"
    "w_artifacts (fst demo_missing) = []" "snd demo_missing = demo_private"
    using demo_queued_fields by (simp_all add: demo_missing_def)
  have ok: "pair_ok (\<lambda>_. True) list_broker (\<lambda>_. True) demo_missing" using inv by (simp add: pipeline_inv_def)
  have "turn_results demo_agent (agent_view demo_missing) = {}"
  proof (rule equals0I)
    fix r assume "r \<in> turn_results demo_agent (agent_view demo_missing)"
    from demo_turn [OF f(1) ok this] obtain u t where "RunAnalysisJob demo_agent demo_job u = (Ret (Inr r), t)"
      "ag_artifacts u = []" "ag_fs u = demo_disk 0" unfolding f by (auto simp: demo_private_def)
    then show False
      by (simp add: RunAnalysisJob_def analyse_in_def try_wrap_def bindP_def deferred_def new_temp_dir_def ag_on_fs_def
          ag_on_artifacts_def MinIO_Store_def minio_GetQueryPack_def getArtifact_def Let_def demo_agent_def
          container_agent_def demo_paths demo_disk_steps list_minio_def demo_job_def del: Join.simps split: prod.splits go.splits)
  qed
  from failed_analysis_loses_job [OF list_services_ok inv f(1) this [unfolded demo_agent_def] demo_answers]
  show ?thesis by (auto simp: demo_agent_def f demo_job_def demo_spec_def)
qed

end
