(* ===== verification/Startup.thy ===== *)
theory Startup
  imports Pipeline
begin

text \<open>
  Starting the parts: \<^verbatim>\<open>pkg/deploy/init.go\<close>, the constructors
  \<^verbatim>\<open>NewPGState\<close> and \<^verbatim>\<open>NewMinIOArtifactStore\<close>, the address of the server, and
  the configuration file of \<^verbatim>\<open>config/mcc\<close>.  The environment of the process is a map;
  \<^verbatim>\<open>os.Exit(1)\<close> ends the computation.  The constructors of the client libraries, the parser
  of URLs and the parser of TOML are parameters.
\<close>

section \<open>The environment of the process\<close>

type_synonym process_env = "string \<Rightarrow> string option"

definition os_Getenv :: "process_env \<Rightarrow> string \<Rightarrow> string" where
  "os_Getenv env k = (case env k of None \<Rightarrow> [] | Some x \<Rightarrow> x)"

definition validateEnvVars :: "process_env \<Rightarrow> string list \<Rightarrow> ('s, unit) prog" where
  "validateEnvVars env requiredEnvVars =
     (let missing = foldl (\<lambda>missing envVar. case env envVar of None \<Rightarrow> True | Some _ \<Rightarrow> missing) False requiredEnvVars in
      if missing then panicP os_exit else retP ())"

section \<open>The four parts\<close>

definition rabbit_vars :: "string list" where
  "rabbit_vars = [''MRVA_RABBITMQ_HOST'', ''MRVA_RABBITMQ_PORT'', ''MRVA_RABBITMQ_USER'', ''MRVA_RABBITMQ_PASSWORD'']"

definition InitRabbitMQ :: "'b amqp \<Rightarrow> process_env \<Rightarrow> bool \<Rightarrow> ('b, RabbitMQQueue result) prog" where
  "InitRabbitMQ A env isAgent =
     seqP (validateEnvVars env rabbit_vars)
       (let rmqHost = os_Getenv env ''MRVA_RABBITMQ_HOST''; rmqPort = os_Getenv env ''MRVA_RABBITMQ_PORT'';
            rmqUser = os_Getenv env ''MRVA_RABBITMQ_USER''; rmqPass = os_Getenv env ''MRVA_RABBITMQ_PASSWORD'' in
        case ParseInt 16 rmqPort of
          Inl err \<Rightarrow> retP (Inl (ErrWrap ''failed to parse RabbitMQ port: '' err))
        | Inr rmqPortAsInt \<Rightarrow>
            try_wrap ''failed to initialize RabbitMQ: '' (NewRabbitMQQueue A rmqHost rmqPortAsInt rmqUser rmqPass isAgent)
              (\<lambda>rabbitMQQueue. retP (Inr rabbitMQQueue)))"

datatype BucketLookupType = BucketLookupDNS | BucketLookupPath

text \<open>
  \<open>new\<close> is \<^verbatim>\<open>minio.New\<close>, with the endpoint, the two credentials and the way buckets
  are looked up.
\<close>

type_synonym 'c minio_new = "string \<Rightarrow> string \<Rightarrow> string \<Rightarrow> BucketLookupType \<Rightarrow> 'c result"

definition NewMinIOArtifactStore :: "'c minio_new \<Rightarrow> string \<Rightarrow> string \<Rightarrow> string \<Rightarrow> BucketLookupType \<Rightarrow> 'c result" where
  "NewMinIOArtifactStore new endpoint ident secret lookup =
     (case new endpoint ident secret lookup of Inl err \<Rightarrow> Inl err | Inr minioClient \<Rightarrow> Inr minioClient)"

definition minio_vars :: "string list" where
  "minio_vars = [''ARTIFACT_MINIO_ENDPOINT'', ''ARTIFACT_MINIO_ID'', ''ARTIFACT_MINIO_SECRET'', ''MRVA_MINIO_VIRTUAL_HOST'']"

text \<open>
  The name of the bucket and the way to look it up.  \<open>host\<close> gives the host name of a URL,
  or the error of the parser.
\<close>

definition minio_bucket :: "(string \<Rightarrow> string result) \<Rightarrow> process_env \<Rightarrow> (string \<times> BucketLookupType) result" where
  "minio_bucket host env =
     (if os_Getenv env ''MRVA_MINIO_VIRTUAL_HOST'' = ''1''
      then case host (os_Getenv env ''ARTIFACT_MINIO_ENDPOINT'') of
             Inl err \<Rightarrow> Inl (ErrWrap ''failed to parse ARTIFACT_MINIO_ENDPOINT: '' err)
           | Inr name \<Rightarrow>
               (let hostParts = split_on CHR ''.'' name in
                if length hostParts < 2 then Inl (ErrMsg (''unable to extract bucket from host: '' @ name))
                else Inr (hostParts ! 0, BucketLookupDNS))
      else Inr (''mrvabucket'', BucketLookupPath))"

text \<open>The state is the pair of global variables with the names of the buckets.\<close>

definition InitMinIOArtifactStore ::
  "'c minio_new \<Rightarrow> (string \<Rightarrow> string result) \<Rightarrow> process_env \<Rightarrow> (BucketNames, 'c result) prog" where
  "InitMinIOArtifactStore new host env =
     seqP (validateEnvVars env minio_vars)
       (case minio_bucket host env of
          Inl err \<Rightarrow> retP (Inl err)
        | Inr (bucketName, lookup) \<Rightarrow>
            seqP (\<lambda>g. (Ret (), g\<lparr>AF_BUCKETNAME_RESULTS := bucketName, AF_BUCKETNAME_PACKS := bucketName\<rparr>))
              (case NewMinIOArtifactStore new (os_Getenv env ''ARTIFACT_MINIO_ENDPOINT'') (os_Getenv env ''ARTIFACT_MINIO_ID'')
                      (os_Getenv env ''ARTIFACT_MINIO_SECRET'') lookup of
                 Inl err \<Rightarrow> retP (Inl (ErrWrap ''failed to initialize artifact store: '' err))
               | Inr store \<Rightarrow> retP (Inr store)))"

definition hepc_vars :: "string list" where
  "hepc_vars = [''MRVA_HEPC_ENDPOINT'', ''MRVA_HEPC_CACHE_DURATION'', ''MRVA_HEPC_DATAVIACLI'', ''MRVA_HEPC_OUTDIR'',
     ''MRVA_HEPC_TOOL'']"

definition InitHEPCDatabaseStore :: "hepc_env \<Rightarrow> process_env \<Rightarrow> (fs, HepcStore result) prog" where
  "InitHEPCDatabaseStore H env =
     seqP (validateEnvVars env hepc_vars)
       (\<lambda>f. (Ret (Inr (NewHepcStore H (os_Getenv env ''MRVA_HEPC_ENDPOINT'') f)), f))"

section \<open>The state in PostgreSQL\<close>

definition pg_vars :: "string list" where
  "pg_vars = [''POSTGRES_USER'', ''POSTGRES_PASSWORD'', ''POSTGRES_DB'', ''POSTGRES_HOST'', ''POSTGRES_PORT'']"

definition postgres_url :: "process_env \<Rightarrow> string \<Rightarrow> string" where
  "postgres_url env pass =
     ''postgres://'' @ os_Getenv env ''POSTGRES_USER'' @ '':'' @ pass @ ''@'' @ os_Getenv env ''POSTGRES_HOST'' @ '':'' @
     os_Getenv env ''POSTGRES_PORT'' @ ''/'' @ os_Getenv env ''POSTGRES_DB''"

text \<open>
  The calls outside the program: the parser of the connection string, which also validates
  it, reading the file with the certificates, parsing them, and opening the pool with a
  configuration.  The configuration is what the parser returned, the certificates with the name of
  the host if there are any, and the largest number of connections.
\<close>

record 'c pg_boot_env =
  pb_ParseConfig :: "string \<Rightarrow> 'c result"
  pb_ReadFile :: "string \<Rightarrow> bytes result"
  pb_AppendCertsFromPEM :: "bytes \<Rightarrow> bool"
  pb_NewWithConfig :: "'c \<Rightarrow> (bytes \<times> string) option \<Rightarrow> int \<Rightarrow> unit result"

text \<open>The state is the database together with the URLs that were written to the log.\<close>

type_synonym pg_boot = "PGState \<times> string list"

definition log_url :: "string \<Rightarrow> (pg_boot, unit) prog" where
  "log_url url = (\<lambda>(s, l). (Ret (), (s, l @ [url])))"

definition on_pg :: "(PGState, 'a) prog \<Rightarrow> (pg_boot, 'a) prog" where
  "on_pg m = (\<lambda>(s, l). case m s of (r, t) \<Rightarrow> (r, (t, l)))"

definition pg_tls :: "'c pg_boot_env \<Rightarrow> process_env \<Rightarrow> (pg_boot, (bytes \<times> string) option) prog" where
  "pg_tls B env =
     (let caCertFile = os_Getenv env ''POSTGRES_CA_CERT_FILE'' in
      if caCertFile = [] then retP None
      else case pb_ReadFile B caCertFile of
        Inl err \<Rightarrow> panicP os_exit
      | Inr caCert \<Rightarrow>
          if pb_AppendCertsFromPEM B caCert then retP (Some (caCert, os_Getenv env ''POSTGRES_HOST'')) else panicP os_exit)"

definition NewPGState :: "'c pg_boot_env \<Rightarrow> pg_env \<Rightarrow> process_env \<Rightarrow> (pg_boot, unit) prog" where
  "NewPGState B P env =
     seqP (validateEnvVars env pg_vars)
       (let dbURL = postgres_url env (os_Getenv env ''POSTGRES_PASSWORD''); redactedDbURL = postgres_url env ''<redacted>'' in
        seqP (log_url redactedDbURL)
          (case pb_ParseConfig B dbURL of
             Inl err \<Rightarrow> seqP (log_url dbURL) (panicP os_exit)
           | Inr config \<Rightarrow>
               bindP (pg_tls B env) (\<lambda>tls.
                 case pb_NewWithConfig B config tls 10 of
                   Inl err \<Rightarrow> panicP os_exit
                 | Inr _ \<Rightarrow> on_pg (SetupSchemas P))))"

definition InitPGState :: "'c pg_boot_env \<Rightarrow> pg_env \<Rightarrow> process_env \<Rightarrow> (pg_boot, unit) prog" where
  "InitPGState = NewPGState"

section \<open>The address of the server and the configuration file\<close>

definition listen_address :: "process_env \<Rightarrow> string" where
  "listen_address env = (let port = os_Getenv env ''SERVER_PORT'' in '':'' @ (if port = [] then ''8080'' else port))"

text \<open>The structs without fields are all alike.\<close>

record Storage =
  StartingID :: int

record System =
  sys_Commander :: unit
  sys_Logger :: unit
  sys_Queue :: unit
  sys_Storage :: Storage
  sys_Runner :: unit

definition System0 :: System where
  "System0 = \<lparr>sys_Commander = (), sys_Logger = (), sys_Queue = (), sys_Storage = \<lparr>StartingID = 0\<rparr>, sys_Runner = ()\<rparr>"

text \<open>\<open>decode\<close> is \<^verbatim>\<open>toml.DecodeFile\<close> into an empty configuration.\<close>

definition LoadConfig :: "os_env \<Rightarrow> (string \<Rightarrow> System result) \<Rightarrow> string \<Rightarrow> (fs, System) prog" where
  "LoadConfig E decode fname =
     bindP (os_Stat E fname) (\<lambda>st.
       case st of
         Inl err \<Rightarrow> retP System0
       | Inr _ \<Rightarrow> (case decode fname of Inl err \<Rightarrow> panicP os_exit | Inr config \<Rightarrow> retP config))"

section \<open>What a start achieves\<close>

lemma validateEnvVars_cases:
  "validateEnvVars env vs s = (if \<forall>k \<in> set vs. env k \<noteq> None then Ret () else Panic os_exit, s)"
proof -
  have "foldl (\<lambda>missing k. case env k of None \<Rightarrow> True | Some _ \<Rightarrow> missing) m vs \<longleftrightarrow> m \<or> (\<exists>k \<in> set vs. env k = None)" for m
    by (induction vs arbitrary: m) (auto split: option.split)
  then show ?thesis by (auto simp: validateEnvVars_def Let_def)
qed

lemma missing_seqP: "env k = None \<Longrightarrow> k \<in> set vs \<Longrightarrow> seqP (validateEnvVars env vs) m x = (Panic os_exit, x)"
  by (auto simp: validateEnvVars_cases seqP_def bindP_def)

lemma snd_on_pg: "snd (snd (on_pg m x)) = snd x"
  by (auto simp: on_pg_def split: prod.split)

text \<open>
  A broker that accepts connections: dialling opens a connection, a new channel without listeners
  can be opened on it, queues can be declared and the prefetch count set; no message is touched
  and nothing is closed.
\<close>

definition accepts :: "'b amqp \<Rightarrow> ('b \<Rightarrow> bool) \<Rightarrow> ('b \<Rightarrow> broker_view) \<Rightarrow> bool" where
  "accepts A up V \<longleftrightarrow>
     (\<forall>b url. up b \<longrightarrow> (\<exists>c b'. amqp_Dial A url b = (Ret (Inr c), b') \<and> up b' \<and>
        V b' = (V b)\<lparr>bv_conns := insert c (bv_conns (V b))\<rparr>)) \<and>
     (\<forall>b c. up b \<and> c \<in> bv_conns (V b) \<longrightarrow> (\<exists>ch b'. amqp_Channel A c b = (Ret (Inr ch), b') \<and> up b' \<and> ch \<notin> bv_chans (V b) \<and>
        V b' = (V b)\<lparr>bv_chans := insert ch (bv_chans (V b)), bv_listeners := (bv_listeners (V b))(ch := [])\<rparr>)) \<and>
     (\<forall>b ch q. up b \<and> ch \<in> bv_chans (V b) \<longrightarrow> (\<exists>b'. amqp_QueueDeclare A ch q b = (Ret (Inr ()), b') \<and> up b' \<and> V b' = V b)) \<and>
     (\<forall>b ch n. up b \<and> ch \<in> bv_chans (V b) \<longrightarrow> (\<exists>b'. amqp_Qos A ch n b = (Ret (Inr ()), b') \<and> up b' \<and> V b' = V b))"

text \<open>
  What a process that connects finds and leaves: it has an open channel of its own, with room for
  100000 publications, and the messages and the other connected processes are as before.
\<close>

definition joined :: "broker_view \<Rightarrow> RabbitMQQueue \<Rightarrow> broker_view \<Rightarrow> bool" where
  "joined v q v' \<longleftrightarrow> connected v' q \<and> channel_free v' q 100000 \<and> bv_msgs v' = bv_msgs v \<and>
     (\<forall>q'. connected v q' \<longrightarrow> connected v' q' \<and> channel_free v' q' = channel_free v q' \<and> rq_channel q' \<noteq> rq_channel q)"

lemma NewRabbitMQQueue_connects:
  assumes acc: "accepts A up V" and b: "up b"
  shows "\<exists>q b'. NewRabbitMQQueue A host port user password isAgent b = (Ret (Inr q), b') \<and> up b' \<and> rq_isAgent q = isAgent
    \<and> joined (V b) q (V b')"
proof -
  let ?url = "rabbit_url host port user password"
  obtain c b1 where b1: "amqp_Dial A ?url b = (Ret (Inr c), b1)" "up b1" "V b1 = (V b)\<lparr>bv_conns := insert c (bv_conns (V b))\<rparr>"
    using acc b unfolding accepts_def by blast
  have "c \<in> bv_conns (V b1)" using b1(3) by simp
  then obtain ch b2 where b2: "amqp_Channel A c b1 = (Ret (Inr ch), b2)" "up b2" "ch \<notin> bv_chans (V b1)"
    "V b2 = (V b1)\<lparr>bv_chans := insert ch (bv_chans (V b1)), bv_listeners := (bv_listeners (V b1))(ch := [])\<rparr>"
    using acc b1(2) unfolding accepts_def by blast
  have ch: "ch \<in> bv_chans (V b2)" using b2(4) by simp
  then obtain b3 where b3: "amqp_QueueDeclare A ch jobsQueueName b2 = (Ret (Inr ()), b3)" "up b3" "V b3 = V b2"
    using acc b2(2) unfolding accepts_def by blast
  obtain b4 where b4: "amqp_QueueDeclare A ch resultsQueueName b3 = (Ret (Inr ()), b4)" "up b4" "V b4 = V b3"
    using acc b3(2,3) ch unfolding accepts_def by metis
  obtain b5 where b5: "amqp_Qos A ch 1 b4 = (Ret (Inr ()), b5)" "up b5" "V b5 = V b4"
    using acc b4(2,3) b3(3) ch unfolding accepts_def by metis
  let ?q = "\<lparr>rq_conn = Some c, rq_channel = Some ch, rq_connString = ?url, rq_isAgent = isAgent\<rparr>"
  have dial: "dial_retry A ?url tryCount b = (Ret (Inr c), b1)"
    using b1(1) by (simp add: tryCount_def eval_nat_numeral)
  have run: "NewRabbitMQQueue A host port user password isAgent b = (Ret (Inr ?q), b5)"
    using dial b2(1) b3(1) b4(1) b5(1) by (simp add: NewRabbitMQQueue_def Let_def)
  have "joined (V b) ?q (V b5)"
    using b1(3) b2(3,4) b3(3) b4(3) b5(3)
    by (auto simp: joined_def connected_def channel_free_def listen_free_def confirmChannelSize_def fun_eq_iff split: if_splits)
  with run b5(2) show ?thesis by (intro exI [of _ ?q] exI [of _ b5]) simp
qed

lemma InitRabbitMQ_connects:
  assumes "accepts A up V" and "up b" and "\<forall>k \<in> set rabbit_vars. env k \<noteq> None"
    and "ParseInt 16 (os_Getenv env ''MRVA_RABBITMQ_PORT'') = Inr port"
  shows "\<exists>q b'. InitRabbitMQ A env isAgent b = (Ret (Inr q), b') \<and> up b' \<and> rq_isAgent q = isAgent \<and> joined (V b) q (V b')"
proof -
  have "validateEnvVars env rabbit_vars b = (Ret (), b)" using assms(3) by (simp add: validateEnvVars_cases)
  with NewRabbitMQQueue_connects [OF assms(1,2), of "os_Getenv env ''MRVA_RABBITMQ_HOST''" port
      "os_Getenv env ''MRVA_RABBITMQ_USER''" "os_Getenv env ''MRVA_RABBITMQ_PASSWORD''" isAgent] assms(4)
  show ?thesis by (auto simp: InitRabbitMQ_def try_wrap_def Let_def)
qed

text \<open>Setting up the schemas of a database whose advisory lock is free.\<close>

definition add_tables :: "string list \<Rightarrow> string list \<Rightarrow> string list" where
  "add_tables names ts = foldl (\<lambda>ts n. if n \<in> set ts then ts else ts @ [n]) ts names"

lemma set_add_tables: "set (add_tables names ts) = set ts \<union> set names"
  by (induction names arbitrary: ts) (auto simp: add_tables_def)

lemma add_tables_present: "set names \<subseteq> set ts \<Longrightarrow> add_tables names ts = ts"
  by (induction names arbitrary: ts) (auto simp: add_tables_def)

lemma create_loop_run:
  assumes "\<forall>n. pg_fault E n = None" and "''pg'' \<in> set (pg_tables s)"
  shows "forP names (\<lambda>name. bindP (pg_exec E ''pg'' (create_schema name)) (\<lambda>r.
       case r of Inl err \<Rightarrow> seqP (\<lambda>s. (Ret (), s\<lparr>schema_lock := False\<rparr>)) (panicP os_exit) | Inr _ \<Rightarrow> retP ())) s =
     (Ret (), s\<lparr>pg_tables := add_tables names (pg_tables s), pg_clock := pg_clock s + length names\<rparr>)"
  using assms(2)
proof (induction names arbitrary: s)
  case Nil
  then show ?case by (simp add: add_tables_def)
next
  case (Cons n names)
  let ?t = "s\<lparr>pg_tables := add_tables [n] (pg_tables s), pg_clock := Suc (pg_clock s)\<rparr>"
  have "pg_exec E ''pg'' (create_schema n) s = (Ret (Inr ()), ?t)"
    using Cons.prems assms(1) by (simp add: pg_exec_def create_schema_def Let_def add_tables_def)
  moreover have "''pg'' \<in> set (pg_tables ?t)" using Cons.prems by (simp add: set_add_tables)
  ultimately show ?case using Cons.IH [of ?t] by (simp add: add_tables_def)
qed

lemma SetupSchemas_run:
  assumes "pg_healthy E" and "''pg'' \<in> set (pg_tables s)" and "\<not> schema_lock s"
  shows "SetupSchemas E s = (Ret (), s\<lparr>pg_tables := add_tables schemas (pg_tables s), pg_clock := pg_clock s + 9\<rparr>)"
proof -
  have f: "\<forall>n. pg_fault E n = None" using assms(1) by (simp add: pg_healthy_def)
  let ?s = "s\<lparr>pg_clock := pg_clock s + 2, schema_lock := True\<rparr>"
  have "create_all E ?s = (Ret (), ?s\<lparr>pg_tables := add_tables schemas (pg_tables s), pg_clock := pg_clock s + 8\<rparr>)"
    unfolding create_all_def using create_loop_run [OF f, of ?s schemas] assms(2) by (simp add: schemas_def)
  moreover have "''pg'' \<in> set (add_tables schemas (pg_tables s))" using assms(2) by (simp add: set_add_tables)
  ultimately show ?thesis
    using assms(2,3) f by (simp add: SetupSchemas_def pg_exec_def Let_def)
qed

text \<open>
  C29. Setting up the schemas can be repeated.  On a database that answers and whose lock is
  free, the set-up returns with the lock free again, all tables exist, no row and no sequence has
  changed, and a second set-up changes nothing but the number of statements executed.
\<close>

theorem SetupSchemas_repeatable:
  assumes "pg_healthy E" and "''pg'' \<in> set (pg_tables s)" and "\<not> schema_lock s"
  shows "\<exists>t. SetupSchemas E s = (Ret (), t) \<and> set (pg_tables t) = set (pg_tables s) \<union> set schemas
    \<and> \<not> schema_lock t \<and> pg_view t = pg_view s \<and> session_id_seq t = session_id_seq s \<and> job_repo_map t = job_repo_map s
    \<and> (\<exists>n. SetupSchemas E t = (Ret (), t\<lparr>pg_clock := n\<rparr>))"
proof -
  let ?t = "s\<lparr>pg_tables := add_tables schemas (pg_tables s), pg_clock := pg_clock s + 9\<rparr>"
  have t: "''pg'' \<in> set (pg_tables ?t)" "\<not> schema_lock ?t" using assms(2,3) by (simp_all add: set_add_tables)
  have "add_tables schemas (pg_tables ?t) = pg_tables ?t" by (rule add_tables_present) (simp add: set_add_tables)
  then show ?thesis
    using SetupSchemas_run [OF assms] SetupSchemas_run [OF assms(1) t] assms(3)
    by (intro exI [of _ ?t] conjI exI [of _ "pg_clock ?t + 9"]) (simp_all add: set_add_tables pg_view_def)
qed

theorem SetupSchemas_repeatable_witness:
  "\<exists>t. SetupSchemas pg_plain PG_empty = (Ret (), t) \<and> set (pg_tables t) = set (pg_tables PG_empty) \<union> set schemas
    \<and> \<not> schema_lock t \<and> pg_view t = pg_view PG_empty \<and> session_id_seq t = session_id_seq PG_empty
    \<and> job_repo_map t = job_repo_map PG_empty \<and> (\<exists>n. SetupSchemas pg_plain t = (Ret (), t\<lparr>pg_clock := n\<rparr>))"
  by (rule SetupSchemas_repeatable [OF pg_plain_healthy]) (simp_all add: PG_empty_def)

text \<open>
  C30. The password of the database is not logged.  Two processes whose environments differ only
  in the password write the same URLs to the log, as long as both connection strings can be parsed.
\<close>

theorem password_not_logged:
  assumes "pb_ParseConfig B (postgres_url env p) = Inr c" and "pb_ParseConfig B (postgres_url env p') = Inr c'"
  shows "snd (snd (NewPGState B P (env(''POSTGRES_PASSWORD'' \<mapsto> p)) (s, l))) =
         snd (snd (NewPGState B P (env(''POSTGRES_PASSWORD'' \<mapsto> p')) (s, l)))"
proof -
  have url: "postgres_url (env(''POSTGRES_PASSWORD'' \<mapsto> q)) q' = postgres_url env q'" for q q'
    by (simp add: postgres_url_def os_Getenv_def)
  have pw: "os_Getenv (env(''POSTGRES_PASSWORD'' \<mapsto> q)) ''POSTGRES_PASSWORD'' = q" for q by (simp add: os_Getenv_def)
  have kept: "snd (snd (pg_tls B e x)) = snd x" for e x by (auto simp: pg_tls_def Let_def split: sum.split)
  have log: "snd (snd (NewPGState B P (env(''POSTGRES_PASSWORD'' \<mapsto> q)) (s, l))) =
      (if \<forall>k \<in> set pg_vars. (env(''POSTGRES_PASSWORD'' \<mapsto> q)) k \<noteq> None then l @ [postgres_url env ''<redacted>''] else l)"
    if "pb_ParseConfig B (postgres_url env q) = Inr d" for q d
  proof -
    let ?e = "env(''POSTGRES_PASSWORD'' \<mapsto> q)"
    obtain r x where x: "pg_tls B ?e (s, l @ [postgres_url env ''<redacted>'']) = (r, x)" by (metis surj_pair)
    then have "snd x = l @ [postgres_url env ''<redacted>'']" using kept [of ?e "(s, l @ [postgres_url env ''<redacted>''])"] by simp
    then show ?thesis
      using that x
      by (cases r) (auto simp: snd_on_pg NewPGState_def validateEnvVars_cases seqP_def bindP_def log_url_def url pw Let_def split: sum.split)
  qed
  show ?thesis unfolding log [OF assms(1)] log [OF assms(2)] by (simp add: pg_vars_def)
qed

definition demo_boot :: "unit pg_boot_env" where
  "demo_boot = \<lparr>pb_ParseConfig = (\<lambda>_. Inr ()), pb_ReadFile = (\<lambda>_. Inl not_exist), pb_AppendCertsFromPEM = (\<lambda>_. True),
     pb_NewWithConfig = (\<lambda>_ _ _. Inr ())\<rparr>"

definition demo_vars :: process_env where
  "demo_vars = map_of (map (\<lambda>k. (k, ''1'')) (rabbit_vars @ minio_vars @ hepc_vars @ pg_vars))"

theorem password_not_logged_witness:
  "snd (snd (NewPGState demo_boot pg_plain (demo_vars(''POSTGRES_PASSWORD'' \<mapsto> ''a'')) (PG_empty, []))) =
   snd (snd (NewPGState demo_boot pg_plain (demo_vars(''POSTGRES_PASSWORD'' \<mapsto> ''b'')) (PG_empty, [])))"
  by (rule password_not_logged) (simp_all add: demo_boot_def)

lemma ParseInt_out_of_range:
  assumes "2 ^ (bits - 1) \<le> n" and "n \<le> 2 ^ bits - 1"
  shows "ParseInt bits (Itoa (int n)) = Inl (NumRange (Itoa (int n)))"
proof -
  have p: "parse_uint_loop x (2 ^ bits - 1) 0 (digits10 n) = Inr n" for x using assms(2) by (rule parse_uint_loop_digits10)
  obtain c cs where d: "digits10 n = c # cs" and c: "is_digit c" using digits10_hd [of n] by (cases "digits10 n") auto
  from c have "c \<noteq> CHR ''+''" "c \<noteq> CHR ''-''" using not_digit_chars by blast+
  with p d assms(1) show ?thesis by (simp add: Itoa_def ParseInt_def parse_signed_def)
qed

text \<open>
  C34. A port of the message broker that needs more than 15 bits is refused, although TCP ports
  go up to 65535: with all variables set, the initialization returns a range error and no
  connection is attempted.
\<close>

theorem InitRabbitMQ_refuses_high_port:
  assumes "\<forall>k \<in> set rabbit_vars. env k \<noteq> None" and "os_Getenv env ''MRVA_RABBITMQ_PORT'' = Itoa (int port)"
    and "32768 \<le> port" and "port \<le> 65535"
  shows "InitRabbitMQ A env isAgent b =
    (Ret (Inl (ErrWrap ''failed to parse RabbitMQ port: '' (NumRange (Itoa (int port))))), b)"
proof -
  have "ParseInt 16 (Itoa (int port)) = Inl (NumRange (Itoa (int port)))" using assms(3,4) by (simp add: ParseInt_out_of_range)
  then show ?thesis
    using assms(1,2) by (simp add: InitRabbitMQ_def validateEnvVars_cases)
qed

theorem InitRabbitMQ_refuses_high_port_witness:
  "InitRabbitMQ list_amqp (demo_vars(''MRVA_RABBITMQ_PORT'' \<mapsto> Itoa (int 60000))) False list_net0 =
    (Ret (Inl (ErrWrap ''failed to parse RabbitMQ port: '' (NumRange (Itoa (int 60000))))), list_net0)"
  by (rule InitRabbitMQ_refuses_high_port) (simp_all add: demo_vars_def rabbit_vars_def os_Getenv_def)

text \<open>
  A process whose environment lacks one of the required variables exits, for each of the
  four parts, before it contacts a service, opens the database or changes the names of the buckets.
\<close>

lemma missing_variable_exits:
  assumes "env k = None"
  shows "(k \<in> set rabbit_vars \<longrightarrow> InitRabbitMQ A env isAgent b = (Panic os_exit, b))
    \<and> (k \<in> set minio_vars \<longrightarrow> InitMinIOArtifactStore new host env g = (Panic os_exit, g))
    \<and> (k \<in> set hepc_vars \<longrightarrow> InitHEPCDatabaseStore H env f = (Panic os_exit, f))
    \<and> (k \<in> set pg_vars \<longrightarrow> InitPGState B P env (s, l) = (Panic os_exit, (s, l)))"
  by (simp add: InitRabbitMQ_def InitMinIOArtifactStore_def InitHEPCDatabaseStore_def InitPGState_def NewPGState_def missing_seqP [of env, OF assms])

text \<open>
  C28. A start of the whole system on working services leaves it ready.  If the broker accepts
  connections and holds no messages, the database is empty, the variables of the environment are
  set to usable values, and the buckets that they name exist in the object store, then each of the
  four parts starts without an error, in the server and in the agent: both connect to the broker on
  channels of their own with room for 100000 publications, both use the bucket that the variables
  name, the schemas are set up, the stores of CodeQL databases are created, and the
  state in which the server and the agent begin is an initial state of the system.
\<close>

theorem start_leaves_system_ready:
  assumes "amqp_laws A up V" and "accepts A up V" and "up b" and "bv_msgs (V b) = (\<lambda>_. [])" and "pg_healthy P"
    and "\<forall>k \<in> set (rabbit_vars @ minio_vars @ hepc_vars @ pg_vars). env k \<noteq> None"
    and "ParseInt 16 (os_Getenv env ''MRVA_RABBITMQ_PORT'') = Inr port"
    and "pb_ParseConfig B (postgres_url env (os_Getenv env ''POSTGRES_PASSWORD'')) = Inr c"
    and "os_Getenv env ''POSTGRES_CA_CERT_FILE'' = []" and "pb_NewWithConfig B c None 10 = Inr ()"
    and "minio_bucket host env = Inr (bucket, lookup)"
    and "new (os_Getenv env ''ARTIFACT_MINIO_ENDPOINT'') (os_Getenv env ''ARTIFACT_MINIO_ID'')
           (os_Getenv env ''ARTIFACT_MINIO_SECRET'') lookup = Inr C"
    and "minio_laws \<lparr>AF_BUCKETNAME_RESULTS = bucket, AF_BUCKETNAME_PACKS = bucket\<rparr> C healthy obj" and "healthy m"
  shows "\<exists>qs qa b1 b2 s l h h' bkt.
      InitRabbitMQ A env False b = (Ret (Inr qs), b1) \<and> InitRabbitMQ A env True b1 = (Ret (Inr qa), b2)
    \<and> InitMinIOArtifactStore new host env g = (Ret (Inr C), bkt) \<and> InitMinIOArtifactStore new host env g' = (Ret (Inr C), bkt)
    \<and> AF_BUCKETNAME_RESULTS bkt = bucket \<and> AF_BUCKETNAME_PACKS bkt = bucket
    \<and> InitPGState B P env (PG_empty, []) = (Ret (), (s, l))
    \<and> InitHEPCDatabaseStore H env f = (Ret (Inr h), f) \<and> InitHEPCDatabaseStore H' env f' = (Ret (Inr h'), f')
    \<and> services_ok A up V P bkt C healthy obj
    \<and> (let q = \<lparr>rs_server = qs, rs_agent = qa, rs_net = b2\<rparr> in
       rabbit_free_jobs V q 100000 \<and> rabbit_free_results V q 100000
       \<and> pipeline_init up V healthy
           (\<lparr>w_queue = q, w_state = s, w_artifacts = m, w_dbs = h, w_ticks = 0, w_resp = response0\<rparr>,
            \<lparr>pv_dbs = h', pv_fs = f', pv_uuids = 0\<rparr>))"
proof -
  have vars: "\<forall>k \<in> set rabbit_vars. env k \<noteq> None" "\<forall>k \<in> set minio_vars. env k \<noteq> None" "\<forall>k \<in> set hepc_vars. env k \<noteq> None"
    "\<forall>k \<in> set pg_vars. env k \<noteq> None"
    using assms(6) by auto
  obtain qs b1 where qs: "InitRabbitMQ A env False b = (Ret (Inr qs), b1)" "up b1" "joined (V b) qs (V b1)"
    using InitRabbitMQ_connects [OF assms(2,3) vars(1) assms(7)] by blast
  obtain qa b2 where qa: "InitRabbitMQ A env True b1 = (Ret (Inr qa), b2)" "up b2" "joined (V b1) qa (V b2)"
    using InitRabbitMQ_connects [OF assms(2) qs(2) vars(1) assms(7)] by blast
  let ?bkt = "\<lparr>AF_BUCKETNAME_RESULTS = bucket, AF_BUCKETNAME_PACKS = bucket\<rparr>"
  have minio: "InitMinIOArtifactStore new host env x = (Ret (Inr C), ?bkt)" for x
    using vars(2) assms(11,12) by (simp add: InitMinIOArtifactStore_def NewMinIOArtifactStore_def validateEnvVars_cases seqP_def bindP_def)
  from SetupSchemas_run [OF assms(5), of PG_empty]
  have prepared: "SetupSchemas P PG_empty = (Ret (), PG_empty\<lparr>pg_tables := add_tables schemas [''pg''], pg_clock := pg_clock PG_empty + 9\<rparr>)"
    by (simp add: PG_empty_def)
  let ?s = "PG_empty\<lparr>pg_tables := add_tables schemas [''pg''], pg_clock := pg_clock PG_empty + 9\<rparr>"
  have pg: "InitPGState B P env (PG_empty, []) = (Ret (), (?s, [postgres_url env ''<redacted>'']))"
    using vars(4) assms(8-10) prepared
    by (simp add: InitPGState_def NewPGState_def validateEnvVars_cases Let_def log_url_def pg_tls_def on_pg_def)
  have sinv: "pg_inv ?s" "pg_view ?s = pg_view PG_empty"
    by (simp_all add: pg_inv_def PG_empty_def set_add_tables pg_repos_ok_def pg_view_def)
  have hepc: "InitHEPCDatabaseStore K env x = (Ret (Inr (NewHepcStore K (os_Getenv env ''MRVA_HEPC_ENDPOINT'') x)), x)" for K x
    using vars(3) by (simp add: InitHEPCDatabaseStore_def validateEnvVars_cases)
  let ?q = "\<lparr>rs_server = qs, rs_agent = qa, rs_net = b2\<rparr>"
  have "rabbit_free_jobs V ?q 100000 \<and> rabbit_free_results V ?q 100000 \<and> pipeline_init up V healthy
        (\<lparr>w_queue = ?q, w_state = ?s, w_artifacts = m,
          w_dbs = NewHepcStore H (os_Getenv env ''MRVA_HEPC_ENDPOINT'') f, w_ticks = 0, w_resp = response0\<rparr>,
         \<lparr>pv_dbs = NewHepcStore H' (os_Getenv env ''MRVA_HEPC_ENDPOINT'') f', pv_fs = f', pv_uuids = 0\<rparr>)"
    using sinv qa qs(3) assms(4,14)
    by (simp add: pipeline_init_def pair_ok_def sys_ok_def rabbit_view_defs joined_def NewHepcStore_def
        pg_view_def PG_empty_def fun_eq_iff)
  with qs(1) qa(1) pg hepc minio assms(1,5,13) show ?thesis
    by (intro exI [of _ qs] exI [of _ qa] exI [of _ b1] exI [of _ b2] exI [of _ ?s] exI [of _ "[postgres_url env ''<redacted>'']"]
        exI [of _ "NewHepcStore H (os_Getenv env ''MRVA_HEPC_ENDPOINT'') f"]
        exI [of _ "NewHepcStore H' (os_Getenv env ''MRVA_HEPC_ENDPOINT'') f'"] exI [of _ ?bkt])
      (simp add: services_ok_def Let_def)
qed

lemma list_amqp_accepts: "accepts list_amqp (\<lambda>_. True) list_broker"
  by (auto simp: accepts_def list_amqp_def list_broker_def)

text \<open>
  A start with an endpoint on the host \<^verbatim>\<open>mrvabucket.minio\<close> and virtual hosts: the bucket is the first part of
  the host name.
\<close>

definition demo_host :: "string \<Rightarrow> string result" where
  "demo_host url = (if url = ''1'' then Inr ''mrvabucket.minio'' else Inl (ExtError ''parse''))"

definition demo_new :: "(string \<times> string, bytes) gomap minio_client minio_new" where
  "demo_new endpoint ident secret lookup = (if lookup = BucketLookupDNS then Inr list_minio else Inl (ExtError ''lookup''))"

theorem start_leaves_system_ready_witness:
  "\<exists>qs qa b1 b2 s l h h'.
      InitRabbitMQ list_amqp demo_vars False list_net0 = (Ret (Inr qs), b1) \<and> InitRabbitMQ list_amqp demo_vars True b1 = (Ret (Inr qa), b2)
    \<and> InitMinIOArtifactStore demo_new demo_host demo_vars AF_BUCKETNAMES = (Ret (Inr list_minio), AF_BUCKETNAMES)
    \<and> InitPGState demo_boot pg_plain demo_vars (PG_empty, []) = (Ret (), (s, l))
    \<and> InitHEPCDatabaseStore hepc_demo demo_vars (demo_disk 0) = (Ret (Inr h), demo_disk 0)
    \<and> pipeline_init (\<lambda>_. True) list_broker (\<lambda>_ :: (string \<times> string, bytes) gomap. True)
        (\<lparr>w_queue = \<lparr>rs_server = qs, rs_agent = qa, rs_net = b2\<rparr>, w_state = s, w_artifacts = [], w_dbs = h, w_ticks = 0,
          w_resp = response0\<rparr>, \<lparr>pv_dbs = h', pv_fs = demo_disk 0, pv_uuids = 0\<rparr>)"
proof -
  have "Itoa 1 = ''1''" by code_simp
  then have p: "ParseInt 16 (os_Getenv demo_vars ''MRVA_RABBITMQ_PORT'') = Inr 1"
    using ParseInt_Itoa [of 16 1] by (simp add: os_Getenv_def demo_vars_def rabbit_vars_def)
  have v: "\<forall>k \<in> set (rabbit_vars @ minio_vars @ hepc_vars @ pg_vars). demo_vars k \<noteq> None"
    and c: "os_Getenv demo_vars ''POSTGRES_CA_CERT_FILE'' = []"
    by (simp_all add: demo_vars_def rabbit_vars_def minio_vars_def hepc_vars_def pg_vars_def os_Getenv_def)
  have b: "minio_bucket demo_host demo_vars = Inr (''mrvabucket'', BucketLookupDNS)" by code_simp
  have l: "minio_laws \<lparr>AF_BUCKETNAME_RESULTS = ''mrvabucket'', AF_BUCKETNAME_PACKS = ''mrvabucket''\<rparr> list_minio (\<lambda>_. True)
      (\<lambda>m b k. gm_get m (b, k))"
    using list_minio_laws by (simp add: AF_BUCKETNAMES_def)
  have n: "demo_new (os_Getenv demo_vars ''ARTIFACT_MINIO_ENDPOINT'') (os_Getenv demo_vars ''ARTIFACT_MINIO_ID'')
      (os_Getenv demo_vars ''ARTIFACT_MINIO_SECRET'') BucketLookupDNS = Inr list_minio" by (simp add: demo_new_def)
  have e: "bv_msgs (list_broker list_net0) = (\<lambda>_. [])" by (simp add: list_broker_def list_net0_def)
  have d: "pb_ParseConfig demo_boot x = Inr ()" "pb_NewWithConfig demo_boot () None 10 = Inr ()" for x by (simp_all add: demo_boot_def)
  have same: "AF_BUCKETNAMES = bkt" if "AF_BUCKETNAME_RESULTS bkt = ''mrvabucket''" "AF_BUCKETNAME_PACKS bkt = ''mrvabucket''" for bkt
    using that by (simp add: AF_BUCKETNAMES_def)
  show ?thesis
    using start_leaves_system_ready [where m = "[]" and H = hepc_demo and f = "demo_disk 0" and H' = hepc_demo and f' = "demo_disk 0"
        and g = AF_BUCKETNAMES and g' = AF_BUCKETNAMES and new = demo_new,
        OF list_amqp_laws list_amqp_accepts TrueI e pg_plain_healthy v p d(1) c d(2) b n l TrueI]
    by (auto simp: Let_def dest: same)
qed

end
