(* ===== verification/Hepc_Serve.thy ===== *)
theory Hepc_Serve
  imports Codeql Server
begin

text \<open>
  The file server for databases, \<^verbatim>\<open>client/qldbtools/bin/hepc-serve.go\<close>, and the
  downloader of \<^verbatim>\<open>utils/download.go\<close>.  A request is the path of a GET request without
  a range or a condition; the file system has no symbolic links, so resolving them cleans the path
  of an existing file, and fails for a file whose path goes on after it.  The type of a content, which
  the library guesses from the name and the data, is a parameter.
\<close>

section \<open>The library\<close>

definition contains_dotdot :: "string \<Rightarrow> bool" where
  "contains_dotdot p \<longleftrightarrow> ''..'' \<in> set (split_on CHR ''/'' (map (\<lambda>c. if c = CHR 0x5C then CHR ''/'' else c) p))"

definition HasSuffix :: "string \<Rightarrow> string \<Rightarrow> bool" where
  "HasSuffix s suf \<longleftrightarrow> length suf \<le> length s \<and> drop (length s - length suf) s = suf"

definition http_Redirect :: "string \<Rightarrow> int \<Rightarrow> response" where
  "http_Redirect loc code = rw_WriteHeader code (rw_SetHeader ''Location'' loc response0)"

text \<open>\<^verbatim>\<open>http.ServeFile\<close>: \<open>urlPath\<close> is the path of the request and \<open>name\<close> the file.\<close>

definition http_ServeFile :: "(string \<Rightarrow> bytes \<Rightarrow> string) \<Rightarrow> os_env \<Rightarrow> string \<Rightarrow> string \<Rightarrow> (fs, response) prog" where
  "http_ServeFile ctype E urlPath name =
     (if contains_dotdot urlPath then retP (http_Error ''invalid URL path'' 400 response0)
      else if HasSuffix urlPath ''/index.html'' then retP (http_Redirect ''./'' 301)
      else bindP (os_ReadFile E name) (\<lambda>r.
        case r of
          Inl err \<Rightarrow> retP (if err = not_exist then http_Error ''404 page not found'' 404 response0
                          else http_Error ''500 Internal Server Error'' 500 response0)
        | Inr d \<Rightarrow> retP (rw_Write d (rw_SetHeader ''Content-Type'' (ctype name d) response0))))"

definition filepath_EvalSymlinks :: "os_env \<Rightarrow> string \<Rightarrow> (fs, string result) prog" where
  "filepath_EvalSymlinks E p =
     bindP (os_Lstat E p) (\<lambda>r. retP (
       case r of
         Inl err \<Rightarrow> Inl err
       | Inr isDir \<Rightarrow>
           if \<not> isDir \<and> HasSuffix p ''/'' then Inl (ErrMsg ''not a directory'') else Inr (Clean p)))"

section \<open>The handlers\<close>

definition serveFile :: "(string \<Rightarrow> bytes \<Rightarrow> string) \<Rightarrow> os_env \<Rightarrow> string \<Rightarrow> (fs, response) prog" where
  "serveFile ctype E urlPath =
     (let fullPath = drop (length ''/db/'') urlPath in
      bindP (filepath_EvalSymlinks E fullPath) (\<lambda>r.
        case r of
          Inl err \<Rightarrow> retP (http_Error ''File not found'' 404 response0)
        | Inr resolvedPath \<Rightarrow>
            bindP (os_Lstat E resolvedPath) (\<lambda>fileInfo.
              case fileInfo of
                Inl err \<Rightarrow> retP (http_Error ''File not found'' 404 response0)
              | Inr isDir \<Rightarrow>
                  if isDir then retP (http_Error ''File not found'' 404 response0)
                  else http_ServeFile ctype E urlPath resolvedPath)))"

definition serveMetadata :: "(string \<Rightarrow> bytes \<Rightarrow> string) \<Rightarrow> os_env \<Rightarrow> string \<Rightarrow> string \<Rightarrow> (fs, response) prog" where
  "serveMetadata ctype E dbDir urlPath =
     (let metadataPath = Join [dbDir, ''metadata.json''] in
      bindP (os_Lstat E metadataPath) (\<lambda>fileInfo.
        case fileInfo of
          Inl err \<Rightarrow> retP (http_Error ''metadata.json not found'' 404 response0)
        | Inr isDir \<Rightarrow>
            if isDir then retP (http_Error ''metadata.json not found'' 404 response0)
            else http_ServeFile ctype E urlPath metadataPath))"

text \<open>
  The multiplexer of the library first redirects a path that is not clean; the pattern that
  ends in a slash stands for all paths below it.
\<close>

definition mux_clean :: "string \<Rightarrow> string" where
  "mux_clean p =
     (let q = (if rooted p then p else CHR ''/'' # p); np = Clean q in
      if HasSuffix q ''/'' \<and> np \<noteq> ''/'' then np @ ''/'' else np)"

definition hepc_serve :: "(string \<Rightarrow> bytes \<Rightarrow> string) \<Rightarrow> os_env \<Rightarrow> string \<Rightarrow> string \<Rightarrow> (fs, response) prog" where
  "hepc_serve ctype E dbDir urlPath =
     (if mux_clean urlPath \<noteq> urlPath then retP (http_Redirect (mux_clean urlPath) 301)
      else if urlPath = ''/db'' then retP (http_Redirect ''/db/'' 301)
      else if HasPrefix urlPath ''/db/'' then serveFile ctype E urlPath
      else if urlPath = ''/index'' \<or> urlPath = ''/api/v1/latest_results/codeql-all'' then serveMetadata ctype E dbDir urlPath
      else retP (http_Error ''404 page not found'' 404 response0))"

text \<open>The checks before the server listens, and its address.\<close>

definition hepc_main :: "os_env \<Rightarrow> string \<Rightarrow> string \<Rightarrow> int \<Rightarrow> (fs, string) prog" where
  "hepc_main E dbDir host port =
     (if dbDir = [] then panicP ''exit status 1''
      else bindP (os_Stat E dbDir) (\<lambda>r.
        if r = Inl not_exist then panicP ''exit status 1'' else retP (host @ '':'' @ Itoa port)))"

section \<open>Downloading to a file\<close>

text \<open>\<open>get url\<close> is \<open>None\<close> if the request is never answered.\<close>

definition downloadFile :: "(string \<Rightarrow> http_resp result option) \<Rightarrow> os_env \<Rightarrow> string \<Rightarrow> string \<Rightarrow> (fs, unit result) prog" where
  "downloadFile get E url dest =
     (case get url of
        None \<Rightarrow> (\<lambda>s. (Hang, s))
      | Some (Inl err) \<Rightarrow> retP (Inl (ErrWrap ''failed to download file: '' err))
      | Some (Inr resp) \<Rightarrow>
          bindP (os_WriteFile E dest []) (\<lambda>created.
            case created of
              Inl err \<Rightarrow> retP (Inl (ErrWrap ''failed to create file: '' err))
            | Inr _ \<Rightarrow>
                bindP (os_WriteData E dest (hr_Body resp) (hr_Err resp)) (\<lambda>copied.
                  case copied of
                    Inl err \<Rightarrow> retP (Inl (ErrWrap ''failed to copy file content: '' err))
                  | Inr _ \<Rightarrow> retP (Inr ()))))"

section \<open>What is served\<close>

definition no_fault :: "os_env \<Rightarrow> bool" where
  "no_fault E \<longleftrightarrow> (\<forall>n. os_fault E n = None)"

text \<open>A path that the multiplexer and the library pass on unchanged.\<close>

definition plain_path :: "string \<Rightarrow> bool" where
  "plain_path p \<longleftrightarrow> mux_clean p = p \<and> \<not> contains_dotdot p \<and> \<not> HasSuffix p ''/index.html''"

lemma serve_read:
  assumes "no_fault E" and "plain_path p" and "gm_get (fs_files s) (Clean name) = Some d"
  shows "\<exists>n. http_ServeFile ctype E p name s =
    (Ret (rw_Write d (rw_SetHeader ''Content-Type'' (ctype name d) response0)), s\<lparr>fs_clock := n\<rparr>)"
  using assms
  by (intro exI [of _ "Suc (fs_clock s)"]) (simp add: http_ServeFile_def plain_path_def os_ReadFile_def os_call_def no_fault_def Let_def bindP_def)

lemma Lstat_file:
  "no_fault E \<Longrightarrow> gm_get (fs_files s) (Clean p) = Some d \<Longrightarrow> \<not> dir_exists s (Clean p) \<Longrightarrow>
   os_Lstat E p s = (Ret (Inr False), s\<lparr>fs_clock := Suc (fs_clock s)\<rparr>)"
  by (simp add: os_Lstat_def os_call_def no_fault_def Let_def dir_exists_def)

text \<open>The answer with the contents of a file, and the answer that there is none.\<close>

lemma found_code [simp]:
  "rw_code (rw_Write d (rw_SetHeader k v response0)) = Some 200" "rw_body (rw_Write d (rw_SetHeader k v response0)) = d"
  by (simp_all add: rw_Write_def rw_SetHeader_def rw_WriteHeader_def response0_def)

lemma error_code [simp]: "rw_code (http_Error msg c response0) = Some c"
  by (simp add: http_Error_def rw_Write_def rw_SetHeader_def rw_WriteHeader_def response0_def Let_def)

lemma redirect_code [simp]: "rw_code (http_Redirect loc c) = Some c"
  by (simp add: http_Redirect_def rw_SetHeader_def rw_WriteHeader_def response0_def)

definition answers_file :: "(fs, response) prog \<Rightarrow> fs \<Rightarrow> string \<Rightarrow> bool" where
  "answers_file m s name \<longleftrightarrow> (\<exists>r n. m s = (Ret r, s\<lparr>fs_clock := n\<rparr>) \<and>
     (case (dir_exists s (Clean name), gm_get (fs_files s) (Clean name)) of
        (False, Some d) \<Rightarrow> rw_code r = Some 200 \<and> rw_body r = d
      | _ \<Rightarrow> rw_code r = Some 404))"

lemma Lstat_no_file:
  assumes "no_fault E" and "gm_get (fs_files s) (Clean p) = None \<or> dir_exists s (Clean p)"
  shows "os_Lstat E p s = (Ret (if dir_exists s (Clean p) then Inr True else Inl not_exist), s\<lparr>fs_clock := Suc (fs_clock s)\<rparr>)"
  using assms by (auto simp: os_Lstat_def os_call_def no_fault_def Let_def dir_exists_def)

lemma serve_metadata:
  assumes "no_fault E" and "plain_path p"
  shows "answers_file (serveMetadata ctype E dbDir p) s (Join [dbDir, ''metadata.json''])"
proof (cases "gm_get (fs_files s) (Clean (Join [dbDir, ''metadata.json''])) = None \<or> dir_exists s (Clean (Join [dbDir, ''metadata.json'']))")
  case True
  then show ?thesis
    using Lstat_no_file [OF assms(1) True]
    by (auto simp: answers_file_def serveMetadata_def Let_def bindP_def simp del: Join.simps split: option.split)
next
  case False
  let ?name = "Join [dbDir, ''metadata.json'']" and ?t = "s\<lparr>fs_clock := Suc (fs_clock s)\<rparr>"
  from False obtain d where d: "gm_get (fs_files s) (Clean ?name) = Some d" "\<not> dir_exists s (Clean ?name)" by auto
  obtain n where "http_ServeFile ctype E p ?name ?t =
      (Ret (rw_Write d (rw_SetHeader ''Content-Type'' (ctype ?name d) response0)), s\<lparr>fs_clock := n\<rparr>)"
    using serve_read [OF assms, of ?t ?name d ctype] d(1) by (auto simp del: Join.simps)
  then show ?thesis
    using Lstat_file [OF assms(1) d] d
    by (simp add: answers_file_def serveMetadata_def Let_def bindP_def del: Join.simps) blast
qed

lemma serve_database:
  assumes "no_fault E" and "plain_path (''/db/'' @ q)" and "\<not> HasSuffix q ''/''"
  shows "answers_file (serveFile ctype E (''/db/'' @ q)) s q"
proof (cases "gm_get (fs_files s) (Clean q) = None \<or> dir_exists s (Clean q)")
  case True
  have "dir_exists s (Clean q) \<Longrightarrow> os_Lstat E (Clean q) (s\<lparr>fs_clock := Suc (fs_clock s)\<rparr>) =
      (Ret (Inr True), s\<lparr>fs_clock := Suc (Suc (fs_clock s))\<rparr>)"
    using Lstat_no_file [OF assms(1), of "s\<lparr>fs_clock := Suc (fs_clock s)\<rparr>" "Clean q"] by (simp add: dir_exists_def)
  then show ?thesis
    using Lstat_no_file [OF assms(1) True] True
    by (auto simp: answers_file_def serveFile_def filepath_EvalSymlinks_def Let_def bindP_def split: option.split)
next
  case False
  then obtain d where d: "gm_get (fs_files s) (Clean q) = Some d" "\<not> dir_exists s (Clean q)" by auto
  let ?t = "s\<lparr>fs_clock := Suc (fs_clock s)\<rparr>" and ?u = "s\<lparr>fs_clock := Suc (Suc (fs_clock s))\<rparr>"
  obtain n where "http_ServeFile ctype E (''/db/'' @ q) (Clean q) ?u =
      (Ret (rw_Write d (rw_SetHeader ''Content-Type'' (ctype (Clean q) d) response0)), s\<lparr>fs_clock := n\<rparr>)"
    using serve_read [OF assms(1,2), of ?u "Clean q" d ctype] d(1) by auto
  moreover have "os_Lstat E q s = (Ret (Inr False), ?t)" "os_Lstat E (Clean q) ?t = (Ret (Inr False), ?u)"
    using Lstat_file [OF assms(1), of s q d] Lstat_file [OF assms(1), of ?t "Clean q" d] d
    by (simp_all add: dir_exists_def)
  ultimately show ?thesis
    using d assms(3) by (simp add: answers_file_def serveFile_def filepath_EvalSymlinks_def bindP_def) blast
qed

lemma serve_slash:
  assumes "no_fault E" and "HasSuffix q ''/''"
  shows "\<exists>r n. serveFile ctype E (''/db/'' @ q) s = (Ret r, s\<lparr>fs_clock := n\<rparr>) \<and> rw_code r = Some 404"
proof (cases "gm_get (fs_files s) (Clean q) = None \<or> dir_exists s (Clean q)")
  case True
  have "dir_exists s (Clean q) \<Longrightarrow> os_Lstat E (Clean q) (s\<lparr>fs_clock := Suc (fs_clock s)\<rparr>) =
      (Ret (Inr True), s\<lparr>fs_clock := Suc (Suc (fs_clock s))\<rparr>)"
    using Lstat_no_file [OF assms(1), of "s\<lparr>fs_clock := Suc (fs_clock s)\<rparr>" "Clean q"] by (simp add: dir_exists_def)
  then show ?thesis
    using Lstat_no_file [OF assms(1) True]
    by (cases "dir_exists s (Clean q)") (auto simp: serveFile_def filepath_EvalSymlinks_def Let_def bindP_def)
next
  case False
  then obtain d where "gm_get (fs_files s) (Clean q) = Some d" "\<not> dir_exists s (Clean q)" by auto
  from Lstat_file [OF assms(1) this] show ?thesis
    using assms(2) by (auto simp: serveFile_def filepath_EvalSymlinks_def Let_def bindP_def)
qed

lemma answers_file_cases:
  "answers_file m s name \<Longrightarrow> \<exists>r n. m s = (Ret r, s\<lparr>fs_clock := n\<rparr>) \<and>
     (case (dir_exists s (Clean name), gm_get (fs_files s) (Clean name)) of
        (False, Some d) \<Rightarrow> rw_code r = Some 200 \<and> rw_body r = d
      | _ \<Rightarrow> rw_code r = Some 404)"
  by (simp add: answers_file_def)

text \<open>
  C26. What the file server answers, if the operating system reports no fault; it changes no
  file.  A request for a database, by a clean path without dots, is answered with the code 200 and
  exactly the bytes of the file if there is one at the path, and with 404 if there is nothing or a
  directory, or if the path ends in a slash.  Both metadata paths are answered with the contents of the file
  \<^verbatim>\<open>metadata.json\<close> of the served directory, or with 404 if there is no such file.
  Every other clean path is answered with 404 or, for the path of the database directory itself,
  redirected.
\<close>

theorem hepc_serve_database:
  assumes "no_fault E"
  shows "(plain_path (''/db/'' @ q) \<longrightarrow> (\<exists>r n. hepc_serve ctype E dbDir (''/db/'' @ q) s = (Ret r, s\<lparr>fs_clock := n\<rparr>)
      \<and> (case (dir_exists s (Clean q) \<or> HasSuffix q ''/'', gm_get (fs_files s) (Clean q)) of
           (False, Some d) \<Rightarrow> rw_code r = Some 200 \<and> rw_body r = d
         | _ \<Rightarrow> rw_code r = Some 404)))
    \<and> (\<forall>p \<in> {''/index'', ''/api/v1/latest_results/codeql-all''}.
         \<exists>r n. hepc_serve ctype E dbDir p s = (Ret r, s\<lparr>fs_clock := n\<rparr>)
      \<and> (case (dir_exists s (Clean (Join [dbDir, ''metadata.json''])), gm_get (fs_files s) (Clean (Join [dbDir, ''metadata.json'']))) of
           (False, Some d) \<Rightarrow> rw_code r = Some 200 \<and> rw_body r = d
         | _ \<Rightarrow> rw_code r = Some 404))
    \<and> (\<forall>p. mux_clean p = p \<and> \<not> HasPrefix p ''/db/'' \<and> p \<notin> {''/index'', ''/api/v1/latest_results/codeql-all''} \<longrightarrow>
         (\<exists>r. hepc_serve ctype E dbDir p s = (Ret r, s) \<and> rw_code r = Some (if p = ''/db'' then 301 else 404)))"
proof (intro conjI impI ballI)
  assume p: "plain_path (''/db/'' @ q)"
  have m: "hepc_serve ctype E dbDir (''/db/'' @ q) = serveFile ctype E (''/db/'' @ q)"
    using p by (simp add: hepc_serve_def plain_path_def HasPrefix_def)
  show "\<exists>r n. hepc_serve ctype E dbDir (''/db/'' @ q) s = (Ret r, s\<lparr>fs_clock := n\<rparr>)
      \<and> (case (dir_exists s (Clean q) \<or> HasSuffix q ''/'', gm_get (fs_files s) (Clean q)) of
           (False, Some d) \<Rightarrow> rw_code r = Some 200 \<and> rw_body r = d
         | _ \<Rightarrow> rw_code r = Some 404)"
    using serve_slash [OF assms, of q ctype s] answers_file_cases [OF serve_database [OF assms p]]
    unfolding m by (cases "HasSuffix q ''/''") simp_all
next
  fix p assume p: "p \<in> {''/index'', ''/api/v1/latest_results/codeql-all''}"
  have "plain_path ''/index''" "plain_path ''/api/v1/latest_results/codeql-all''" by code_simp+
  with p have pl: "plain_path p" by blast
  then have "hepc_serve ctype E dbDir p = serveMetadata ctype E dbDir p"
    using p by (auto simp: hepc_serve_def plain_path_def HasPrefix_def)
  with answers_file_cases [OF serve_metadata [OF assms pl, of ctype dbDir s]]
  show "\<exists>r n. hepc_serve ctype E dbDir p s = (Ret r, s\<lparr>fs_clock := n\<rparr>)
      \<and> (case (dir_exists s (Clean (Join [dbDir, ''metadata.json''])), gm_get (fs_files s) (Clean (Join [dbDir, ''metadata.json'']))) of
           (False, Some d) \<Rightarrow> rw_code r = Some 200 \<and> rw_body r = d
         | _ \<Rightarrow> rw_code r = Some 404)" by (simp del: Join.simps)
next
  show "\<forall>p. mux_clean p = p \<and> \<not> HasPrefix p ''/db/'' \<and> p \<notin> {''/index'', ''/api/v1/latest_results/codeql-all''} \<longrightarrow>
         (\<exists>r. hepc_serve ctype E dbDir p s = (Ret r, s) \<and> rw_code r = Some (if p = ''/db'' then 301 else 404))"
    by (auto simp: hepc_serve_def)
qed

definition demo_db_fs :: fs where
  "demo_db_fs = \<lparr>fs_files = [(''dbs/a.zip'', ''zip''), (''dbs/metadata.json'', ''{}'')], fs_dirs = [''dbs''], fs_clock = 0\<rparr>"

theorem hepc_serve_database_witness:
  "(\<exists>r n. hepc_serve (\<lambda>_ _. []) \<lparr>os_fault = \<lambda>_. None\<rparr> ''dbs'' ''/db/dbs/a.zip'' demo_db_fs = (Ret r, demo_db_fs\<lparr>fs_clock := n\<rparr>)
      \<and> rw_code r = Some 200 \<and> rw_body r = ''zip'')
    \<and> (\<exists>r n. hepc_serve (\<lambda>_ _. []) \<lparr>os_fault = \<lambda>_. None\<rparr> ''dbs'' ''/db/dbs/a.zip/'' demo_db_fs = (Ret r, demo_db_fs\<lparr>fs_clock := n\<rparr>)
      \<and> rw_code r = Some 404)
    \<and> (\<exists>r n. hepc_serve (\<lambda>_ _. []) \<lparr>os_fault = \<lambda>_. None\<rparr> ''dbs'' ''/index'' demo_db_fs = (Ret r, demo_db_fs\<lparr>fs_clock := n\<rparr>)
      \<and> rw_code r = Some 200 \<and> rw_body r = ''{}'')"
proof -
  have p: "plain_path (''/db/'' @ ''dbs/a.zip'')" "plain_path (''/db/'' @ ''dbs/a.zip/'')" by code_simp+
  have c: "Clean ''dbs/a.zip'' = ''dbs/a.zip''" "Clean ''dbs/a.zip/'' = ''dbs/a.zip''"
    "Clean (Join [''dbs'', ''metadata.json'']) = ''dbs/metadata.json''" by code_simp+
  have h: "\<not> HasSuffix ''dbs/a.zip'' ''/''" "HasSuffix ''dbs/a.zip/'' ''/''" by code_simp+
  have n: "no_fault \<lparr>os_fault = \<lambda>_. None\<rparr>" by (simp add: no_fault_def)
  note served = hepc_serve_database [OF n, where ctype = "\<lambda>_ _. []" and dbDir = "''dbs''" and s = demo_db_fs]
  show ?thesis
    using served [of "''dbs/a.zip''"] served [of "''dbs/a.zip/''"] p h unfolding c
    by (simp add: demo_db_fs_def dir_exists_def)
qed

end
