(* ===== verification/Spec2Isabelle.thy ===== *)
theory Spec2Isabelle
  imports Archive State_Machine Startup Hepc_Serve
begin

text \<open>
  Verification library of the MRVA commander, a server for multi-repository variant analysis
  with CodeQL.

  \<^bold>\<open>The program.\<close>  A client submits a query pack and a list of repositories to the
  server (\<^verbatim>\<open>pkg/server\<close>).  The server opens a session, saves the pack in the artifact
  store (\<^verbatim>\<open>pkg/artifactstore\<close>), asks the database store (\<^verbatim>\<open>pkg/qldbstore\<close>) which
  repositories have a CodeQL database, sends one job for each of these to the queue
  (\<^verbatim>\<open>pkg/queue\<close>) and records the jobs in the server state (\<^verbatim>\<open>pkg/state\<close>).  Agents
  (\<^verbatim>\<open>pkg/agent\<close>) take jobs, mark them as in progress, fetch pack and database, run CodeQL
  (\<^verbatim>\<open>pkg/codeql\<close>, \<^verbatim>\<open>utils/archive.go\<close>), save the results and send a result
  message.  A loop of the server records the results; the client polls the status of its session
  and downloads the results.  \<^verbatim>\<open>pkg/deploy\<close> connects the parts to RabbitMQ, PostgreSQL,
  MinIO and the HEPC database server, of which \<^verbatim>\<open>client/qldbtools/bin/hepc-serve.go\<close> is
  a small version.

  \<^bold>\<open>The model.\<close>  A Go function is a HOL function.  One that changes state or may panic is
  a \<open>prog\<close>: from a state to an outcome (\<open>Ret\<close>, \<open>Panic\<close>, or \<open>Hang\<close> for a call that waits
  forever) and the new state.  Go errors are the left side of \<open>'a result\<close>; \<^verbatim>\<open>int\<close> is \<open>int\<close>
  with \<open>wrap64\<close> where it can overflow, and the places where the source parses or stores
  narrower integers have the narrower range; Go maps are association lists, and nothing that is
  shown depends on their order.  An interface of the source is a record of its methods; an
  implementation is a value of that record; the contract between them is a locale, which is
  interpreted on every implementation.

  \<^item> Ground layer: \<open>Prelude\<close> (outcomes, errors, maps, loops), \<open>Go_Strings\<close>
    (\<^verbatim>\<open>strconv\<close>, \<^verbatim>\<open>strings\<close>), \<open>Go_Json\<close> (\<^verbatim>\<open>encoding/json\<close>), \<open>Base64\<close>,
    \<open>Filesystem\<close> (\<^verbatim>\<open>os\<close>, \<^verbatim>\<open>path/filepath\<close>).
  \<^item> Data: \<open>Common_Types\<close> (\<^verbatim>\<open>pkg/common\<close>, \<^verbatim>\<open>pkg/queue/types.go\<close>), \<open>Job_Codec\<close>
    (messages, \<^verbatim>\<open>jobspec.go\<close>), \<open>Api_Codec\<close> (\<^verbatim>\<open>extapi.go\<close>), \<open>Json_Order\<close>
    (JSON up to the order of members).
  \<^item> Server state: \<open>Server_State\<close> (interface, aggregation of statuses, contract \<open>job_state\<close>
    and its extension \<open>server_state\<close>), \<open>Local_State\<close>, \<open>PG_State\<close>, \<open>State_Machine\<close>
    (abstract specification and refinement).
  \<^item> Artifacts and queues: \<open>Artifact_Store\<close> (contract \<open>artifact_store\<close>, memory and MinIO),
    \<open>Queue\<close> (channels, contract \<open>job_queue\<close>, \<^verbatim>\<open>QueueSingle\<close>), \<open>RabbitMQ\<close>.
  \<^item> Databases and analysis: \<open>QLDB_Store\<close> (contract \<open>qldb_store\<close>), \<open>Archive\<close>, \<open>Codeql\<close>,
    \<open>Agent\<close> (locale \<open>worker\<close>).
  \<^item> Server: \<open>Server\<close> (handlers of \<^verbatim>\<open>server.go\<close>, one definition per function), \<open>Client\<close>
    (what clients send), \<open>Commander\<close> and \<open>Commander_Read\<close> (locale \<open>commander\<close>: the handlers over
    any implementations that keep the contracts).
  \<^item> Composition: \<open>Deployment\<close> (the server on RabbitMQ, PostgreSQL, MinIO and HEPC),
    \<open>Pipeline\<close> (server, result loop and worker as a step relation, locale \<open>pipeline\<close>), \<open>Startup\<close>
    (\<^verbatim>\<open>pkg/deploy/init.go\<close>, constructors, \<^verbatim>\<open>config/mcc\<close>), \<open>Hepc_Serve\<close>
    (\<^verbatim>\<open>hepc-serve.go\<close>, \<^verbatim>\<open>utils/download.go\<close>).

  \<^bold>\<open>Parameters.\<close>  Code outside the repository is an argument of the definitions, and
  what is relied on is a named hypothesis with an instance that satisfies it: \<open>amqp_laws\<close> and
  \<open>accepts\<close> (a broker delivers in order, over open channels; a channel hands each confirmation to its
  listeners one after the other, and stops at a listener whose buffer is full; instance \<open>list_amqp\<close>), \<open>minio_laws\<close>
  (the buckets that the names denote exist, and the objects in them behave like a map; instance \<open>list_minio\<close>),
  \<open>pg_healthy\<close> (no lost connection, \<^verbatim>\<open>jsonb\<close> keeps values; instance \<open>pg_plain\<close>), \<open>services_ok\<close>
  (all three).  The definitions themselves also cover services that fail: every error branch of the source is
  a branch of the model.  A command of the CodeQL tool that never exits and an HTTP request that is never answered
  are \<open>Hang\<close>, since the source sets no time-out for them; \<open>cq_exits\<close> and \<open>answering\<close> say that this does not happen,
  and are assumed only where a theorem promises progress.  The CodeQL tool, the HTTP client, the clock, the archive formats, the YAML and TOML decoders, URL parsing and
  the router \<^verbatim>\<open>gorilla/mux\<close> are parameters without laws, except where a theorem
  names one.

  \<^bold>\<open>What is shown.\<close>
  \<^item> Whole system: every state reachable from an empty start is consistent; a submission
    creates a session, one without a usable message or query pack is refused, and one with an entry
    without a slash panics; a result in the queue reaches the client; sessions are
    always reported; succeeded jobs can be downloaded; queued jobs are worked off; a failed
    analysis loses its job.
  \<^item> State: both implementations refine one abstract machine; session numbers
    are unique; repository identifiers are stable; the status of a session is a function of the
    statuses of its jobs; what goes wrong when results are early or jobs precede their session.
  \<^item> Stores and queues: artifacts are kept, messages arrive in order until 100000 were
    published on a channel and then block, connecting is bounded and closes what it opened when it fails,
    requested repositories are split by the metadata, a repository that was found can be fetched, what
    the small database server answers for each path.
  \<^item> Files: extraction stays below its destination, an analysis leaves nothing behind, the
    archive of results holds what was counted.
  \<^item> Codecs: job tokens and messages read back as what was written; the format check of query packs.
  \<^item> Start: the state in which all parts have started, missing variables, ports, the redaction of the password, repeated set-up of schemas.

  \<^bold>\<open>Bounds.\<close>  Loops over data are structural recursions; the polling loops are modelled
  by one iteration each and composed with \<open>forP\<close> or the step relation; the walk over a
  directory tree runs over the finite list of its paths.  The JSON parser recurses with fuel, one more than the length of
  its input: every nested call has consumed a character, and \<open>Go_Json\<close> shows that the text of a value always has enough.
  Sizes are bounded where the source bounds them: 32-bit identifiers in the tables (\<open>numbers_left\<close>, \<open>pg_fits\<close>), object sizes of
  31 bits (\<open>small_objects\<close>), ten places in a channel, five attempts to connect,
  100000 publications on a channel of the broker (\<open>confirmChannelSize\<close> and one more; \<open>channel_free\<close>).

  \<^bold>\<open>Not modelled.\<close>  Requests, result records and worker turns are atomic steps: the interleaving
  of goroutines inside one of them is not modelled, except for the early result of
  \<open>State_Machine\<close>.  The texts of errors that libraries make, log output (but for the URLs of \<open>Startup\<close>), the difference of nil and
  empty slices, file permissions, symbolic links, TLS, the elapsing of time-outs and of
  pauses between attempts, and the size of the
  connection pool are left out.  So are \<^verbatim>\<open>awaitSignal\<close> (a debugging aid that nothing
  calls), the experiment \<^verbatim>\<open>tuple-hash.go\<close>, the tests, and the Python tools; the main
  programs are not part of the repository.
\<close>

section \<open>Submitting a session\<close>

text \<open>
  C2. A well-formed submission to the deployed server creates a session.  Let the services work,
  let the database store report the repositories \<open>found\<close> as available and \<open>nf\<close> as not
  found, and let the channel to the broker have room for the jobs.  Then a fresh session number is
  issued; the query pack of the client is stored under the key of the session; for each
  repository of \<open>found\<close> exactly one job, pointing to the stored query pack, is appended to the
  queue, in order; exactly these jobs are registered for the session, each pending and with the
  information of the session, which names the repositories of \<open>nf\<close> as not found; every other job
  keeps its status and its information; and the answer has code 200 and describes the session.
\<close>

theorem submission_creates_session:
  assumes "services_ok A up V P bkt C healthy obj"
    and "sys_ok up V healthy w" and "w_resp w = response0" and "numbers_left (w_state w) (length entries)"
    and "good_submission r lang entries tgz" and "storable E bkt (w_ticks w) lang entries"
    and "FindAvailableDBs (Hepc_DBStore H) (map nwo_of entries) (w_dbs w) = (Ret (nf, found), d')"
    and "rabbit_free_jobs V (w_queue w) (length entries)"
  shows "\<exists>sid l w'. MRVARequestCommon E (container_server A P bkt C H) r w = (Ret (), w')
    \<and> sys_ok up V healthy w' \<and> w_dbs w' = d'
    \<and> \<not> pg_issued (w_state w) sid \<and> pg_issued (w_state w') = (pg_issued (w_state w))(sid := True)
    \<and> map nwo_of entries \<in> shuffles nf found
    \<and> loc_Key l = pack_key sid \<and> at_loc obj (w_artifacts w') l = Some tgz
    \<and> rabbit_jobs V (w_queue w') = rabbit_jobs V (w_queue w) @ map (mk_job l sid lang) found
    \<and> jv_specs (pg_view (w_state w')) = (jv_specs (pg_view (w_state w)))(sid := (\<lambda>n. \<lparr>SessionID = sid, NWO = n\<rparr>) ` set found)
    \<and> (\<forall>n \<in> set found. jv_status (pg_view (w_state w')) \<lparr>SessionID = sid, NWO = n\<rparr> = Some StatusPending
         \<and> jv_info (pg_view (w_state w')) \<lparr>SessionID = sid, NWO = n\<rparr> = Some (info_of E (w_ticks w) lang nf))
    \<and> (\<forall>x. x \<notin> (\<lambda>n. \<lparr>SessionID = sid, NWO = n\<rparr>) ` set found \<longrightarrow> jv_status (pg_view (w_state w')) x = jv_status (pg_view (w_state w)) x
         \<and> jv_info (pg_view (w_state w')) x = jv_info (pg_view (w_state w)) x)
    \<and> jv_result (pg_view (w_state w')) = jv_result (pg_view (w_state w))
    \<and> answered 200 ''application/json''
         (json_text (SubmitResponse_json (submit_response sid (info_of E (w_ticks w) lang nf)))) (w_resp w')"
proof -
  have D: "deployment A up V P bkt C healthy obj" using assms(1) by (simp add: deployment_def)
  show ?thesis
    using deployment.deployed_submission [OF D assms(2-6), of H] assms(8) unfolding assms(7) prod.inject
    by (elim disjE exE conjE) (simp_all, blast)
qed

theorem submission_creates_session_witness:
  "\<exists>sid l w'. MRVARequestCommon demo_env demo_server demo_request demo_world = (Ret (), w')
    \<and> \<not> pg_issued demo_pg sid \<and> pg_issued (w_state w') sid
    \<and> rabbit_jobs list_broker (w_queue w') =
        rabbit_jobs list_broker (w_queue demo_world) @ [mk_job l sid ''cpp'' \<lparr>Owner = ''o'', Repo = ''r''\<rparr>]
    \<and> rw_code (w_resp w') = Some 200"
proof -
  have "cache_valid hepc_demo hepc_demo_store"
    by (simp add: cache_valid_def hepc_demo_def hepc_demo_store_def time_Since_def)
  then have "refresh_cache hepc_demo hepc_demo_store = (Ret (Inr (hs_metadataCache hepc_demo_store)), ticked hepc_demo_store)"
    by (rule refresh_cache_valid)
  then have f: "FindAvailableDBs (Hepc_DBStore hepc_demo) (map nwo_of [''o/r'']) (w_dbs demo_world) =
      (Ret ([], [\<lparr>Owner = ''o'', Repo = ''r''\<rparr>]), ticked hepc_demo_store)"
    by (simp add: demo_world_def Hepc_DBStore_def hepc_FindAvailableDBs_def Let_def
        nwo_of_def full_name_def hepc_demo_store_def hepc_demo_entry_def)
  from submission_creates_session [where E = demo_env, OF list_services_ok demo_world_ok _ _ demo_request_good _ f]
  obtain sid l w' where "MRVARequestCommon demo_env demo_server demo_request demo_world = (Ret (), w')"
    "\<not> pg_issued demo_pg sid" "pg_issued (w_state w') = (pg_issued demo_pg)(sid := True)"
    "rabbit_jobs list_broker (w_queue w') =
       rabbit_jobs list_broker (w_queue demo_world) @ map (mk_job l sid ''cpp'') [\<lparr>Owner = ''o'', Repo = ''r''\<rparr>]"
    "answered 200 ''application/json''
       (json_text (SubmitResponse_json (submit_response sid (info_of demo_env 0 ''cpp'' [])))) (w_resp w')"
    using demo_world_open(1) demo_storable by (auto simp: demo_world_def)
  then show ?thesis
    by (intro exI [of _ sid] exI [of _ l] exI [of _ w']) (simp add: answered_def)
qed



text \<open>
  C20. A submission that is well-formed but for a repository entry without a slash makes the
  handler panic.  By then the answer has the code 400, a session number is used up and the query
  pack is stored under it; no database is looked up, and no job is queued or registered.
\<close>

theorem slashless_submission_panics:
  assumes "services_ok A up V P bkt C healthy obj"
    and "sys_ok up V healthy w" and "w_resp w = response0" and "numbers_left (w_state w) 0"
    and "slashless_submission r tgz"
  shows "\<exists>sid l w'. MRVARequestCommon E (container_server A P bkt C H) r w = (Panic index_panic, w') \<and> sys_ok up V healthy w'
    \<and> pg_view (w_state w') = pg_view (w_state w) \<and> pg_issued (w_state w') = (pg_issued (w_state w))(sid := True)
    \<and> w_queue w' = w_queue w \<and> w_dbs w' = w_dbs w
    \<and> loc_Key l = pack_key sid \<and> at_loc obj (w_artifacts w') l = Some tgz \<and> rw_code (w_resp w') = Some 400"
proof -
  have D: "deployment A up V P bkt C healthy obj" using assms(1) by (simp add: deployment_def)
  show ?thesis
    using deployment.deployed_panic [OF D assms(2) _ assms(3,5)] assms(4)
    unfolding numbers_left_def by blast
qed

theorem slashless_submission_panics_witness:
  "\<exists>sid l w'. MRVARequestCommon demo_env demo_server demo_slashless demo_world =
      (Panic index_panic, w') \<and> pg_view (w_state w') = pg_view (w_state demo_world) \<and> w_queue w' = w_queue demo_world
    \<and> loc_Key l = pack_key sid \<and> at_loc (\<lambda>m b k. gm_get m (b, k)) (w_artifacts w') l = Some [CHR 0x1F, CHR 0x8B]"
  using slashless_submission_panics [where E = demo_env and H = hepc_demo, OF list_services_ok demo_world_ok _ _ demo_slashless_request] demo_storable(2)
  by (auto simp: demo_world_def numbers_left_def)

section \<open>Status\<close>

text \<open>
  C4. A status request for a session whose jobs are all recorded is answered with code 200 and
  a report that lists every job of the session once, with its status, and with the number and the
  size of its results if it has succeeded; the overall status is the aggregate of the statuses of
  the jobs; and the identifier that the report gives for a repository leads back to this
  repository.  The request changes nothing that a client can observe.
\<close>

theorem status_reports_session:
  assumes "services_ok A up V P bkt C healthy obj"
    and "sys_ok up V healthy w" and "w_resp w = response0" and "session_reportable obj w sid ji"
    and "ParseInt 32 (mux_var rq ''codeql_variant_analysis_id'') = Inr sid"
  shows "\<exists>js ids w'. MRVAStatus (container_server A P bkt C H) rq w = (Ret (), w') \<and> sys_ok up V healthy w'
    \<and> pg_view (w_state w') = pg_view (w_state w)
    \<and> job_Spec ` set js = jv_specs (pg_view (w_state w)) sid \<and> distinct (map job_Spec js)
    \<and> list_all2 (\<lambda>j i. pg_repo_ids (w_state w') i = Some (NWO (job_Spec j))) js ids
    \<and> answered 200 ''application/json'' (json_text (StatusResponse_json (status_response sid ji
         (ToExternalString (overall_spec (session_statuses (pg_view (w_state w)) sid)))
         (map2 (scan_of (pg_view (w_state w)) (at_loc obj (w_artifacts w)) ji) js ids)))) (w_resp w')"
proof -
  have D: "deployment A up V P bkt C healthy obj" using assms(1) by (simp add: deployment_def)
  show ?thesis
    using deployment.deployed_status [OF D assms(2-5)] unfolding MRVAStatus_def undisturbed_def by blast
qed

theorem status_reports_session_witness:
  "\<exists>(js :: AnalyzeJob list) ids w'. MRVAStatus demo_server (demo_request\<lparr>rq_vars := [(''codeql_variant_analysis_id'', ''1'')]\<rparr>) demo_running =
      (Ret (), w') \<and> job_Spec ` set js = {demo_spec} 
      \<and> list_all2 (\<lambda>j i. pg_repo_ids (w_state w') i = Some (NWO (job_Spec j))) js ids \<and> rw_code (w_resp w') = Some 200"
proof -
  have "session_reportable (\<lambda>m b k. gm_get m (b, k)) demo_running 1 demo_info"
    using demo_view demo_key by (simp add: session_reportable_def demo_running_fields reported_def)
      (simp add: pg_fits_def demo_session_def demo_pg_def PG_empty_def)
  moreover have "Itoa 1 = ''1''" by code_simp
  then have "ParseInt 32 (mux_var (demo_request\<lparr>rq_vars := [(''codeql_variant_analysis_id'', ''1'')]\<rparr>)
      ''codeql_variant_analysis_id'') = Inr 1"
    using ParseInt_Itoa [of 32 1] by (simp add: mux_var_def gm_get0_def)
  ultimately have "\<exists>js ids w'. MRVAStatus demo_server (demo_request\<lparr>rq_vars := [(''codeql_variant_analysis_id'', ''1'')]\<rparr>)
      demo_running = (Ret (), w') \<and> sys_ok (\<lambda>_. True) list_broker (\<lambda>_. True) w'
    \<and> pg_view (w_state w') = pg_view (w_state demo_running)
    \<and> job_Spec ` set js = jv_specs (pg_view (w_state demo_running)) 1 \<and> distinct (map job_Spec js)
    \<and> list_all2 (\<lambda>j i. pg_repo_ids (w_state w') i = Some (NWO (job_Spec j))) js ids
    \<and> answered 200 ''application/json'' (json_text (StatusResponse_json (status_response 1 demo_info
         (ToExternalString (overall_spec (session_statuses (pg_view (w_state demo_running)) 1)))
         (map2 (scan_of (pg_view (w_state demo_running)) (at_loc (\<lambda>m b k. gm_get m (b, k)) (w_artifacts demo_running))
            demo_info) js ids)))) (w_resp w')"
    by (intro status_reports_session [OF list_services_ok demo_running_ok demo_running_fields(2)])
  then obtain js :: "AnalyzeJob list" and ids w' where "MRVAStatus demo_server (demo_request\<lparr>rq_vars := [(''codeql_variant_analysis_id'', ''1'')]\<rparr>)
      demo_running = (Ret (), w')" "job_Spec ` set js = jv_specs (pg_view (w_state demo_running)) 1"
    "list_all2 (\<lambda>j i. pg_repo_ids (w_state w') i = Some (NWO (job_Spec j))) js ids" "rw_code (w_resp w') = Some 200"
    unfolding answered_def by blast
  then show ?thesis
    using demo_view(3) unfolding demo_running_fields(1)
    by (intro exI [of _ js] exI [of _ ids] exI [of _ w']) simp
qed

section \<open>Results\<close>

text \<open>
  C3. A result reaches the client.  When the oldest message of the results queue reports
  success for a job of an issued session, and its artifact is in the store, one step of the
  result loop removes the message, records the result and marks the job as succeeded, and touches
  no other job.  From then on the download request for the job, by the number of its repository,
  announces the size of the artifact and a URL, and the request for the token of this URL is
  answered with exactly the bytes of the artifact.
\<close>

theorem result_reaches_client:
  assumes "services_ok A up V P bkt C healthy obj" and "sys_ok up V healthy w"
    and "rabbit_results V (w_queue w) = r # rs" and "pg_adm_result r" and "key_ok (res_Spec r)"
    and "res_Status r = StatusSucceeded" and "pg_issued (w_state w) (SessionID (res_Spec r))"
    and "at_loc obj (w_artifacts w) (res_ResultLocation r) = Some d"
  shows "\<exists>w1 tok. ConsumeResults_once (container_server A P bkt C H) w = (Ret (), w1) \<and> sys_ok up V healthy w1
    \<and> rabbit_results V (w_queue w1) = rs \<and> EncodeJobSpec (res_Spec r) = Inr tok
    \<and> jv_status (pg_view (w_state w1)) = (jv_status (pg_view (w_state w)))(res_Spec r \<mapsto> StatusSucceeded)
    \<and> (\<forall>rq. mux_var rq ''encoded_job_spec'' = tok \<longrightarrow>
         (\<exists>w2. MRVADownloadServe (container_server A P bkt C H) rq (w1\<lparr>w_resp := response0\<rparr>) = (Ret (), w2)
            \<and> answered 200 ''application/octet-stream'' d (w_resp w2)))
    \<and> (\<forall>rq rid. pg_repo_ids (w_state w1) rid = Some (NWO (res_Spec r)) \<and>
         ParseInt 32 (mux_var rq ''codeql_variant_analysis_id'') = Inr (SessionID (res_Spec r)) \<and>
         ParseInt 32 (mux_var rq ''repository_id'') = Inr rid \<longrightarrow>
         (\<exists>w2. MRVADownloadArtifactID E (container_server A P bkt C H) rq (w1\<lparr>w_resp := response0\<rparr>) = (Ret (), w2)
            \<and> answered 200 ''application/json''
                (json_text (DownloadResponse_json (download_of E rid (res_Spec r) r d tok))) (w_resp w2)))"
proof -
  have D: "deployment A up V P bkt C healthy obj" using assms(1) by (simp add: deployment_def)
  let ?v = "container_server A P bkt C H"
  have "known_status (res_Status r)" using assms(6) by (simp add: known_status_iff)
  from deployment.deployed_result [OF D assms(2-5) this assms(7), of H]
  obtain w1 where w1: "ConsumeResults_once ?v w = (Ret (), w1)" "sys_ok up V healthy w1" "w_artifacts w1 = w_artifacts w"
    "rabbit_results V (w_queue w1) = rs" "pg_view (w_state w1) = (pg_view (w_state w))
        \<lparr>jv_result := (jv_result (pg_view (w_state w)))(res_Spec r \<mapsto> r),
         jv_status := (jv_status (pg_view (w_state w)))(res_Spec r \<mapsto> res_Status r)\<rparr>"
    by blast
  obtain tok where tok: "EncodeJobSpec (res_Spec r) = Inr tok" by (simp add: EncodeJobSpec_def)
  let ?w = "w1\<lparr>w_resp := response0\<rparr>"
  have p: "sys_ok up V healthy ?w" "w_resp ?w = response0"
    "jv_status (pg_view (w_state ?w)) (res_Spec r) = Some StatusSucceeded"
    "jv_result (pg_view (w_state ?w)) (res_Spec r) = Some r" "at_loc obj (w_artifacts ?w) (res_ResultLocation r) = Some d"
    using w1 assms(6,8) by (simp_all add: sys_ok_def)
  note dl = deployment.deployed_download [OF D p(1,2) assms(5) tok p(3-5)]
  show ?thesis
    using w1 tok dl assms(6) by (intro exI [of _ w1] exI [of _ tok]) (simp, blast)
qed

theorem result_reaches_client_witness:
  "\<exists>w1 tok. ConsumeResults_once demo_server demo_running = (Ret (), w1) \<and> EncodeJobSpec demo_spec = Inr tok
    \<and> (\<exists>w2. MRVADownloadServe demo_server (demo_request\<lparr>rq_vars := [(''encoded_job_spec'', tok)]\<rparr>)
          (w1\<lparr>w_resp := response0\<rparr>) = (Ret (), w2) \<and> answered 200 ''application/octet-stream'' ''zip'' (w_resp w2))"
proof -
  have r: "res_Spec demo_result = demo_spec" "res_Status demo_result = StatusSucceeded"
    "pg_issued (w_state demo_running) (SessionID demo_spec)"
    using demo_view(4) by (simp_all add: demo_result_def demo_running_fields demo_spec_def)
  have "mux_var (demo_request\<lparr>rq_vars := [(''encoded_job_spec'', tok)]\<rparr>) ''encoded_job_spec'' = tok" for tok
    by (simp add: mux_var_def gm_get0_def)
  then show ?thesis
    using result_reaches_client [OF list_services_ok demo_running_ok demo_running_fields(3) demo_result_adm(1) _ r(2) _
        demo_running_fields(4), of hepc_demo demo_env] r demo_key(1)
    unfolding r(1) by metis
qed

end
